(* ===== verification/Prelude.thy ===== *)
theory Prelude
  imports Main "HOL-Library.Word" "HOL-Library.Multiset"
begin

text \<open>
  The prelude of the development: the string type of the portal's TypeScript code, the named
  theorem collections that the component proofs use, and the generic lemmas on lists, options
  and words that several components share.

  A TypeScript string is a sequence of 16-bit code units, so \<open>jsstr\<close> is a list of
  \<open>16 word\<close>. \<open>lit\<close> turns an ASCII literal of the source into such a string.
\<close>

section \<open>Strings\<close>

type_synonym code_unit = "16 word"

type_synonym jsstr = "code_unit list"

definition lit :: "string \<Rightarrow> jsstr" where
  "lit cs = map of_char cs"

lemma lit_Nil [simp]: "lit [] = []"
  by (simp add: lit_def)

lemma lit_append [simp]: "lit (xs @ ys) = lit xs @ lit ys"
  by (simp add: lit_def)

lemma lit_eq_Nil_iff [simp]: "lit xs = [] \<longleftrightarrow> xs = []"
  by (simp add: lit_def)

lemma unat_of_char: "unat (of_char c :: code_unit) = of_char c"
proof -
  have "(of_char c :: code_unit) = of_nat (of_char c)"
    by (simp add: of_nat_of_char)
  moreover have "(of_char c :: nat) < 65536"
    using nat_of_char_less_256 [of c] by linarith
  ultimately show ?thesis
    by (simp add: unat_of_nat)
qed

lemma lit_eq_iff [simp]: "lit xs = lit ys \<longleftrightarrow> xs = ys"
proof -
  have "inj (of_char :: char \<Rightarrow> code_unit)"
    by (rule injI) (metis of_char_eq_iff unat_of_char)
  then show ?thesis
    by (simp add: lit_def inj_map_eq_map)
qed

section \<open>Collections of facts\<close>

text \<open>
  \<open>js_eval\<close>: unfolding rules that run a definition of the model symbolically.
  \<open>obeys_intro\<close>: introduction rules of the obligation calculus of the asynchronous programs.
\<close>

named_theorems js_eval
named_theorems obeys_intro

section \<open>Lists\<close>

definition strip_end :: "('a \<Rightarrow> bool) \<Rightarrow> 'a list \<Rightarrow> 'a list" where
  "strip_end P xs = rev (dropWhile P (rev xs))"

lemma strip_end_Nil [simp]: "strip_end P [] = []"
  by (simp add: strip_end_def)

lemma strip_end_snoc [simp]:
  "strip_end P (xs @ [x]) = (if P x then strip_end P xs else xs @ [x])"
  by (simp add: strip_end_def)

lemma strip_end_eq_Nil_iff: "strip_end P xs = [] \<longleftrightarrow> (\<forall>x \<in> set xs. P x)"
  by (simp add: strip_end_def)

lemma strip_end_last: "strip_end P xs \<noteq> [] \<Longrightarrow> \<not> P (last (strip_end P xs))"
  by (induction xs rule: rev_induct) auto

lemma strip_end_id: "xs = [] \<or> \<not> P (last xs) \<Longrightarrow> strip_end P xs = xs"
  by (cases xs rule: rev_cases) auto

lemma strip_end_prefix: "\<exists>ys. xs = strip_end P xs @ ys \<and> (\<forall>y \<in> set ys. P y)"
proof (induction xs rule: rev_induct)
  case Nil
  then show ?case by simp
next
  case (snoc x xs)
  then obtain ys where ys: "xs = strip_end P xs @ ys" "\<forall>y \<in> set ys. P y"
    by blast
  show ?case
  proof (cases "P x")
    case True
    with ys have "xs @ [x] = strip_end P (xs @ [x]) @ (ys @ [x])" "\<forall>y \<in> set (ys @ [x]). P y"
      by auto
    then show ?thesis by blast
  next
    case False
    then show ?thesis by simp
  qed
qed

lemma set_strip_end: "set (strip_end P xs) \<subseteq> set xs"
  using strip_end_prefix [of xs P] by (metis Un_upper1 set_append)

lemma hd_strip_end: "strip_end P xs \<noteq> [] \<Longrightarrow> hd (strip_end P xs) = hd xs"
  using strip_end_prefix [of xs P] by (metis hd_append2)

lemma dropWhile_hd: "dropWhile P xs \<noteq> [] \<Longrightarrow> \<not> P (hd (dropWhile P xs))"
  by (rule hd_dropWhile)

lemma filter_length_less:
  "x \<in> set xs \<Longrightarrow> P x \<Longrightarrow> \<not> Q x \<Longrightarrow> (\<And>y. Q y \<Longrightarrow> P y) \<Longrightarrow>
    length (filter Q xs) < length (filter P xs)"
proof (induction xs)
  case Nil
  then show ?case by simp
next
  case (Cons y ys)
  have le: "length (filter Q zs) \<le> length (filter P zs)" for zs
    using Cons.prems(4) by (induction zs) auto
  show ?case
  proof (cases "x = y")
    case True
    with Cons.prems le [of ys] show ?thesis by auto
  next
    case False
    with Cons show ?thesis by auto
  qed
qed

lemma strip_end_stripped: "\<forall>x \<in> set ys. P x \<Longrightarrow> strip_end P (xs @ ys) = strip_end P xs"
  by (simp add: strip_end_def) (metis dropWhile_append2 set_rev)

lemma filter_at_most_one:
  "distinct (map f xs) \<Longrightarrow> (\<And>x. x \<in> set xs \<Longrightarrow> P x \<Longrightarrow> f x = v) \<Longrightarrow> length (filter P xs) \<le> 1"
proof (induction xs)
  case (Cons x xs)
  show ?case
  proof (cases "P x")
    case True
    with Cons.prems have "\<not> P y" if "y \<in> set xs" for y
      using that by (auto simp: image_iff)
    then have "filter P xs = []"
      by (simp add: filter_empty_conv)
    with True show ?thesis by simp
  next
    case False
    with Cons show ?thesis by simp
  qed
qed simp

end
