(* ===== verification/Portal_Types.thy ===== *)
theory Portal_Types
  imports Prelude
begin

text \<open>
  The data types of the portal's web application (\<open>portal/web/app/types\<close>): one record per
  interface, with its fields in the source's order, and one datatype per union of string
  literals. A nullable field is an option; \<open>number\<close> fields that hold revisions and lags are
  integers.
\<close>

section \<open>\<open>types/admin.ts\<close>\<close>

datatype UserStatus = Active | Disabled

datatype OAuthClientType = Web | Desktop

datatype OAuthScope = Openid | Profile | Email | Phone

record OAuthClient =
  oc_client_id :: jsstr
  oc_name :: jsstr
  oc_client_type :: OAuthClientType
  oc_redirect_uris :: "jsstr list"
  oc_allowed_scopes :: "OAuthScope list"
  oc_enabled :: bool

record CreateOAuthClientRequest =
  cr_name :: jsstr
  cr_client_type :: OAuthClientType
  cr_redirect_uris :: "jsstr list"
  cr_allowed_scopes :: "OAuthScope list"
  cr_enabled :: bool

record UpdateOAuthClientRequest =
  uq_name :: jsstr
  uq_redirect_uris :: "jsstr list"
  uq_allowed_scopes :: "OAuthScope list"
  uq_enabled :: bool

record OAuthClientCreateResponse =
  ccr_client :: OAuthClient
  ccr_client_secret :: "jsstr option"

record OAuthClientSecretResponse =
  csr_client_id :: jsstr
  csr_client_secret :: jsstr

record Domain =
  dom_id :: jsstr
  dom_name :: jsstr
  dom_enabled :: bool
  dom_mirror_root_dn :: jsstr
  dom_quarantine_ou_dn :: jsstr
  dom_upn_suffix :: jsstr
  dom_employee_id_attribute :: jsstr
  dom_managed_group_id_attribute :: jsstr
  dom_applied_directory_revision :: int
  dom_applied_credential_revision :: int

record DomainMutationResponse =
  dmr_domain :: Domain
  dmr_syncer_key :: jsstr

record DomainAttributeDefaults =
  dad_employee_id_attribute :: jsstr
  dad_managed_group_id_attribute :: jsstr

record OrganizationalUnit =
  ou_id :: jsstr
  ou_name :: jsstr
  ou_parent_id :: "jsstr option"
  ou_changed_revision :: int

record UserRecord =
  ur_employee_id :: jsstr
  ur_username :: jsstr
  ur_display_name :: jsstr
  ur_surname :: jsstr
  ur_given_name :: jsstr
  ur_email :: "jsstr option"
  ur_mobile :: "jsstr option"
  ur_telephone :: "jsstr option"
  ur_organizational_unit_id :: jsstr
  ur_status :: UserStatus

record GroupRecord =
  gr_id :: jsstr
  gr_name :: jsstr
  gr_organizational_unit_id :: jsstr
  gr_member_employee_ids :: "jsstr list"
  gr_changed_revision :: int

record SyncDomain =
  sd_domain_id :: jsstr
  sd_enabled :: bool
  sd_applied_directory_revision :: int
  sd_applied_credential_revision :: int
  sd_directory_lag :: int
  sd_credential_lag :: int

record DomainForm =
  df_id :: jsstr
  df_name :: jsstr
  df_enabled :: bool
  df_mirror_root_dn :: jsstr
  df_quarantine_ou_dn :: jsstr
  df_upn_suffix :: jsstr
  df_employee_id_attribute :: jsstr
  df_managed_group_id_attribute :: jsstr

record OuForm =
  of_id :: jsstr
  of_name :: jsstr
  of_parent_id :: jsstr

record UserForm =
  uf_employee_id :: jsstr
  uf_username :: jsstr
  uf_display_name :: jsstr
  uf_surname :: jsstr
  uf_given_name :: jsstr
  uf_email :: jsstr
  uf_mobile :: jsstr
  uf_organizational_unit_id :: jsstr
  uf_status :: UserStatus
  uf_initial_password :: jsstr

record GroupForm =
  gf_id :: jsstr
  gf_name :: jsstr
  gf_organizational_unit_id :: jsstr
  gf_member_employee_ids :: jsstr

record OuTreeItem =
  ti_ou :: OrganizationalUnit
  ti_depth :: nat

section \<open>\<open>types/oidc.ts\<close>\<close>

text \<open>The values of \<open>Record<string, unknown>\<close>: JSON values.\<close>

datatype json =
    JNull
  | JBool bool
  | JNum int
  | JStr jsstr
  | JArr "json list"
  | JObj "(jsstr \<times> json) list"

record OidcAuthorization =
  oa_response_type :: jsstr
  oa_client_id :: jsstr
  oa_redirect_uri :: jsstr
  oa_scope :: jsstr
  oa_state :: jsstr
  oa_nonce :: jsstr
  oa_code_challenge :: jsstr
  oa_code_challenge_method :: jsstr
  oa_response_mode :: "jsstr option"
  oa_prompt :: "jsstr option"

record OidcAuthorizationUser =
  au_employee_id :: jsstr
  au_username :: jsstr
  au_display_name :: jsstr

record OidcAuthorizationContext =
  ac_client_name :: jsstr
  ac_user :: OidcAuthorizationUser
  ac_claims :: "(jsstr \<times> json) list"
  ac_csrf_token :: jsstr
  ac_authorization :: OidcAuthorization

record OidcFormField =
  ff_name :: jsstr
  ff_value :: jsstr

section \<open>\<open>types/user.ts\<close>\<close>

record UserProfile =
  up_employee_id :: jsstr
  up_username :: jsstr
  up_display_name :: jsstr
  up_surname :: jsstr
  up_given_name :: jsstr
  up_email :: "jsstr option"
  up_mobile :: "jsstr option"
  up_telephone :: "jsstr option"
  up_organizational_unit_id :: jsstr
  up_status :: UserStatus

record UserLoginResponse =
  lr_employee_id :: jsstr
  lr_access_token :: jsstr

record UserContactUpdateResponse =
  cu_profile :: UserProfile
  cu_directory_revision :: int

record PasswordChangeResponse =
  pc_employee_id :: jsstr
  pc_credential_revision :: int

end
