(* ===== verification/Js_String.thy ===== *)
theory Js_String
  imports Prelude
begin

text \<open>
  The operations of the ECMAScript standard library that the portal applies to strings:
  \<open>trim\<close>, \<open>split\<close>, \<open>join\<close>, \<open>repeat\<close>, \<open>startsWith\<close>, the two regular expressions
  \<open>/\r?\n/\<close> and \<open>/\/+$/\<close>, and \<open>encodeURIComponent\<close>, on strings of 16-bit code units, and
  strings as conditions.
  \<open>encodeURIComponent\<close> throws on a lone surrogate: the model returns \<open>None\<close> there.
  The main results: \<open>trim\<close> leaves no white space at either end, \<open>split\<close> and \<open>join\<close> are
  inverse on separator-free items, and \<open>encodeURIComponent\<close> can be decoded again and emits
  no path, query or fragment delimiter.
\<close>

section \<open>Trimming\<close>

text \<open>\<open>WhiteSpace\<close> and \<open>LineTerminator\<close> of the ECMAScript grammar.\<close>

definition is_ws :: "code_unit \<Rightarrow> bool" where
  "is_ws c \<longleftrightarrow> (let n = unat c in
     n \<in> {0x9, 0xA, 0xB, 0xC, 0xD, 0x20, 0xA0, 0x1680, 0x2028, 0x2029, 0x202F, 0x205F, 0x3000, 0xFEFF}
     \<or> 0x2000 \<le> n \<and> n \<le> 0x200A)"

definition trim :: "jsstr \<Rightarrow> jsstr" where
  "trim s = strip_end is_ws (dropWhile is_ws s)"

definition trimmed :: "jsstr \<Rightarrow> bool" where
  "trimmed s \<longleftrightarrow> s = [] \<or> \<not> is_ws (hd s) \<and> \<not> is_ws (last s)"

lemma trim_Nil [simp]: "trim [] = []"
  by (simp add: trim_def)

lemma trim_trimmed: "trimmed (trim s)"
proof (cases "trim s = []")
  case False
  then have *: "strip_end is_ws (dropWhile is_ws s) \<noteq> []"
    by (simp add: trim_def)
  then have "dropWhile is_ws s \<noteq> []"
    by (metis strip_end_Nil)
  with * show ?thesis
    by (simp add: trimmed_def trim_def strip_end_last hd_strip_end dropWhile_hd)
qed (simp add: trimmed_def)

lemma trim_id: "trimmed s \<Longrightarrow> trim s = s"
  by (cases s) (auto simp: trimmed_def trim_def intro: strip_end_id)

lemma trim_idem [simp]: "trim (trim s) = trim s"
  by (rule trim_id [OF trim_trimmed])

lemma trim_eq_Nil_iff: "trim s = [] \<longleftrightarrow> (\<forall>c \<in> set s. is_ws c)"
proof
  assume "trim s = []"
  then have "\<forall>c \<in> set (dropWhile is_ws s). is_ws c"
    by (simp add: trim_def strip_end_eq_Nil_iff)
  then have "dropWhile is_ws s = []"
    by (metis dropWhile_hd hd_in_set)
  then show "\<forall>c \<in> set s. is_ws c"
    by (simp add: dropWhile_eq_Nil_conv)
next
  assume "\<forall>c \<in> set s. is_ws c"
  then have "dropWhile is_ws s = []"
    by (simp add: dropWhile_eq_Nil_conv)
  then show "trim s = []"
    by (simp only: trim_def strip_end_Nil)
qed

lemma trim_infix: "\<exists>us vs. s = us @ trim s @ vs \<and> (\<forall>c \<in> set us \<union> set vs. is_ws c)"
proof -
  obtain vs where vs: "dropWhile is_ws s = trim s @ vs" "\<forall>c \<in> set vs. is_ws c"
    using strip_end_prefix [of "dropWhile is_ws s" is_ws] by (auto simp: trim_def)
  have "s = takeWhile is_ws s @ trim s @ vs"
    by (metis takeWhile_dropWhile_id vs(1))
  moreover have "\<forall>c \<in> set (takeWhile is_ws s). is_ws c"
    by (auto dest: set_takeWhileD)
  ultimately show ?thesis
    using vs(2) by blast
qed

lemma set_trim: "set (trim s) \<subseteq> set s"
  using trim_infix [of s] by (metis le_supI1 set_append subset_refl sup.coboundedI2)

lemma trim_ws_Cons [simp]: "is_ws c \<Longrightarrow> trim (c # s) = trim s"
  by (simp add: trim_def)

text \<open>Evaluation of \<open>trim\<close> on a literal.\<close>

lemmas trim_eval = trim_def strip_end_def lit_def is_ws_def Let_def

section \<open>Splitting and joining\<close>

fun split_on :: "code_unit \<Rightarrow> jsstr \<Rightarrow> jsstr list" where
  "split_on c [] = [[]]"
| "split_on c (x # xs) =
     (if x = c then [] # split_on c xs
      else case split_on c xs of y # ys \<Rightarrow> (x # y) # ys | [] \<Rightarrow> [[x]])"

text \<open>Splitting at the matches of \<open>/\r?\n/\<close>.\<close>

fun split_lines :: "jsstr \<Rightarrow> jsstr list" where
  "split_lines [] = [[]]"
| "split_lines [x] = (if x = 0xA then [[], []] else [[x]])"
| "split_lines (x # y # xs) =
     (if x = 0xA then [] # split_lines (y # xs)
      else if x = 0xD \<and> y = 0xA then [] # split_lines xs
      else case split_lines (y # xs) of z # zs \<Rightarrow> (x # z) # zs | [] \<Rightarrow> [[x]])"

fun join :: "jsstr \<Rightarrow> jsstr list \<Rightarrow> jsstr" where
  "join sep [] = []"
| "join sep [x] = x"
| "join sep (x # y # xs) = x @ sep @ join sep (y # xs)"

definition repeat_str :: "jsstr \<Rightarrow> nat \<Rightarrow> jsstr" where
  "repeat_str s n = concat (replicate n s)"

definition startsWith :: "jsstr \<Rightarrow> jsstr \<Rightarrow> bool" where
  "startsWith s p \<longleftrightarrow> take (length p) s = p"

lemma startsWith_iff: "startsWith s p \<longleftrightarrow> (\<exists>t. s = p @ t)"
  by (metis append_eq_conv_conj append_take_drop_id startsWith_def)

lemma split_on_not_Nil [simp]: "split_on c s \<noteq> []"
  by (induction s) (auto split: list.splits)

lemma split_lines_not_Nil [simp]: "split_lines s \<noteq> []"
  by (induction s rule: split_lines.induct) (auto split: list.splits)

lemma split_on_free: "c \<notin> set s \<Longrightarrow> split_on c s = [s]"
  by (induction s) auto

lemma split_on_append: "c \<notin> set s \<Longrightarrow> split_on c (s @ c # t) = s # split_on c t"
  by (induction s) (auto split: list.splits)

lemma split_on_item_free: "x \<in> set (split_on c s) \<Longrightarrow> c \<notin> set x"
  by (induction s arbitrary: x) (auto split: list.splits if_splits)

lemma join_split_on: "join [c] (split_on c s) = s"
proof (induction s)
  case (Cons x xs)
  then show ?case
    by (cases "split_on c xs"; cases "tl (split_on c xs)") auto
qed simp

lemma split_lines_free: "0xA \<notin> set s \<Longrightarrow> split_lines s = [s]"
  by (induction s rule: split_lines.induct) auto

lemma split_lines_append:
  "0xA \<notin> set s \<Longrightarrow> s = [] \<or> last s \<noteq> 0xD \<Longrightarrow> split_lines (s @ 0xA # t) = s # split_lines t"
proof (induction s rule: split_lines.induct)
  case 1
  show ?case by (cases t) auto
next
  case (2 x)
  then show ?case by (cases t) auto
next
  case (3 x y xs)
  then show ?case by auto
qed

lemma split_lines_item_free: "x \<in> set (split_lines s) \<Longrightarrow> 0xA \<notin> set x"
  by (induction s arbitrary: x rule: split_lines.induct) (auto split: list.splits if_splits)

section \<open>The regular expression \<open>/\/+$/\<close>\<close>

definition slash :: code_unit where
  "slash = 0x2F"

definition strip_trailing_slashes :: "jsstr \<Rightarrow> jsstr" where
  "strip_trailing_slashes s = strip_end (\<lambda>c. c = slash) s"

section \<open>\<open>encodeURIComponent\<close>\<close>

text \<open>The code points of a string, \<open>None\<close> where a surrogate has no partner.\<close>

definition is_high :: "code_unit \<Rightarrow> bool" where
  "is_high c \<longleftrightarrow> 0xD800 \<le> unat c \<and> unat c < 0xDC00"

definition is_low :: "code_unit \<Rightarrow> bool" where
  "is_low c \<longleftrightarrow> 0xDC00 \<le> unat c \<and> unat c < 0xE000"

definition pair_point :: "code_unit \<Rightarrow> code_unit \<Rightarrow> nat" where
  "pair_point h l = 0x10000 + (unat h - 0xD800) * 0x400 + (unat l - 0xDC00)"

fun code_points :: "jsstr \<Rightarrow> nat list option" where
  "code_points [] = Some []"
| "code_points (c # cs) =
     (if is_high c then
        (case cs of
           [] \<Rightarrow> None
         | l # ls \<Rightarrow> if is_low l then map_option ((#) (pair_point c l)) (code_points ls) else None)
      else if is_low c then None
      else map_option ((#) (unat c)) (code_points cs))"

definition utf8 :: "nat \<Rightarrow> nat list" where
  "utf8 p =
     (if p < 0x80 then [p]
      else if p < 0x800 then [0xC0 + p div 64, 0x80 + p mod 64]
      else if p < 0x10000 then [0xE0 + p div 4096, 0x80 + p div 64 mod 64, 0x80 + p mod 64]
      else [0xF0 + p div 262144, 0x80 + p div 4096 mod 64, 0x80 + p div 64 mod 64, 0x80 + p mod 64])"

definition hex_digit :: "nat \<Rightarrow> code_unit" where
  "hex_digit n = of_nat (if n < 10 then 0x30 + n else 0x37 + n)"

definition percent :: "nat \<Rightarrow> jsstr" where
  "percent b = [0x25, hex_digit (b div 16), hex_digit (b mod 16)]"

text \<open>The unreserved characters: letters, digits and \<open>- _ . ! ~ * ' ( )\<close>.\<close>

definition unreserved :: "nat \<Rightarrow> bool" where
  "unreserved p \<longleftrightarrow> 0x41 \<le> p \<and> p \<le> 0x5A \<or> 0x61 \<le> p \<and> p \<le> 0x7A \<or> 0x30 \<le> p \<and> p \<le> 0x39
     \<or> p \<in> {0x2D, 0x5F, 0x2E, 0x21, 0x7E, 0x2A, 0x27, 0x28, 0x29}"

definition encode_point :: "nat \<Rightarrow> jsstr" where
  "encode_point p = (if unreserved p then [of_nat p] else concat (map percent (utf8 p)))"

definition encodeURIComponent :: "jsstr \<Rightarrow> jsstr option" where
  "encodeURIComponent s = map_option (\<lambda>ps. concat (map encode_point ps)) (code_points s)"

subsection \<open>Decoding\<close>

text \<open>
  The inverse, as the specification of what an encoded path segment stands for: percent
  escapes to octets, UTF-8 octets to code points, code points to code units.
\<close>

definition hex_value :: "code_unit \<Rightarrow> nat option" where
  "hex_value c = (let n = unat c in
     if 0x30 \<le> n \<and> n \<le> 0x39 then Some (n - 0x30)
     else if 0x41 \<le> n \<and> n \<le> 0x46 then Some (n - 0x37) else None)"

fun unpercent :: "jsstr \<Rightarrow> nat list option" where
  "unpercent [] = Some []"
| "unpercent (c # cs) =
     (if c = 0x25 then
        (case cs of
           h # l # r \<Rightarrow>
             (case (hex_value h, hex_value l) of
                (Some a, Some b) \<Rightarrow> map_option ((#) (16 * a + b)) (unpercent r)
              | _ \<Rightarrow> None)
         | _ \<Rightarrow> None)
      else map_option ((#) (unat c)) (unpercent cs))"

fun utf8_decode :: "nat list \<Rightarrow> nat list option" where
  "utf8_decode [] = Some []"
| "utf8_decode (a # r) =
     (if a < 0x80 then map_option ((#) a) (utf8_decode r)
      else if a < 0xE0 then
        (case r of b # r' \<Rightarrow> map_option ((#) ((a - 0xC0) * 64 + (b - 0x80))) (utf8_decode r')
         | _ \<Rightarrow> None)
      else if a < 0xF0 then
        (case r of b # c # r' \<Rightarrow>
           map_option ((#) ((a - 0xE0) * 4096 + (b - 0x80) * 64 + (c - 0x80))) (utf8_decode r')
         | _ \<Rightarrow> None)
      else
        (case r of b # c # d # r' \<Rightarrow>
           map_option ((#) ((a - 0xF0) * 262144 + (b - 0x80) * 4096 + (c - 0x80) * 64 + (d - 0x80)))
             (utf8_decode r')
         | _ \<Rightarrow> None))"

definition point_units :: "nat \<Rightarrow> jsstr" where
  "point_units p =
     (if p < 0x10000 then [of_nat p]
      else [of_nat (0xD800 + (p - 0x10000) div 0x400), of_nat (0xDC00 + (p - 0x10000) mod 0x400)])"

definition decodeURIComponent :: "jsstr \<Rightarrow> jsstr option" where
  "decodeURIComponent s =
     map_option (\<lambda>ps. concat (map point_units ps)) (Option.bind (unpercent s) utf8_decode)"

lemma unat_lt_65536: "unat (c :: code_unit) < 65536"
  using unsigned_less [of c] by simp

lemma code_points_bound: "code_points s = Some ps \<Longrightarrow> \<forall>p \<in> set ps. p < 0x110000"
proof (induction s arbitrary: ps rule: code_points.induct)
  case (2 c cs)
  then show ?case
    using unat_lt_65536 [of c]
    by (fastforce simp: is_high_def is_low_def pair_point_def split: if_splits list.splits)
qed simp

lemma hex_value_digit: "n < 16 \<Longrightarrow> hex_value (hex_digit n) = Some n"
  by (auto simp: hex_value_def hex_digit_def unat_of_nat Let_def)

lemma unpercent_percent:
  "b < 256 \<Longrightarrow> unpercent (percent b @ r) = map_option ((#) b) (unpercent r)"
  by (simp add: percent_def hex_value_digit less_mult_imp_div_less)

lemma unpercent_percents:
  "\<forall>b \<in> set bs. b < 256 \<Longrightarrow>
    unpercent (concat (map percent bs) @ r) = map_option ((@) bs) (unpercent r)"
  by (cases "unpercent r"; induction bs) (auto simp: unpercent_percent)

lemma utf8_octets: "p < 0x110000 \<Longrightarrow> \<forall>b \<in> set (utf8 p). b < 256"
  by (auto simp: utf8_def)

lemma unreserved_ascii: "unreserved p \<Longrightarrow> p < 0x80 \<and> p \<noteq> 0x25"
  by (auto simp: unreserved_def)

lemma unpercent_unreserved:
  assumes "unreserved p"
  shows "unpercent (of_nat p # r) = map_option ((#) p) (unpercent r)"
proof -
  have p: "p < 0x80" "p \<noteq> 0x25"
    using unreserved_ascii [OF assms] by auto
  then have u: "unat (of_nat p :: code_unit) = p"
    by (simp add: unat_of_nat)
  with p(2) have "(of_nat p :: code_unit) \<noteq> 0x25"
    by auto
  with u show ?thesis by simp
qed

lemma unpercent_encode_point:
  assumes "p < 0x110000"
  shows "unpercent (encode_point p @ r) = map_option ((@) (utf8 p)) (unpercent r)"
proof (cases "unreserved p")
  case True
  then have "utf8 p = [p]"
    using unreserved_ascii [OF True] by (simp add: utf8_def)
  with True show ?thesis
    by (cases "unpercent r") (simp_all add: encode_point_def unpercent_unreserved del: unpercent.simps)
next
  case False
  then show ?thesis
    by (simp add: encode_point_def unpercent_percents [OF utf8_octets [OF assms]])
qed

lemma unpercent_encode_points:
  "\<forall>p \<in> set ps. p < 0x110000 \<Longrightarrow>
    unpercent (concat (map encode_point ps)) = Some (concat (map utf8 ps))"
  by (induction ps) (auto simp: unpercent_encode_point)

lemma utf8_decode_utf8:
  "p < 0x110000 \<Longrightarrow> utf8_decode (utf8 p @ r) = map_option ((#) p) (utf8_decode r)"
proof -
  assume p: "p < 0x110000"
  define a b where "a = p div 64" and "b = p div 64 div 64"
  have ab: "p div 4096 = b" "p div 262144 = b div 64"
    by (simp_all add: a_def b_def flip: div_mult2_eq)
  have two: "a * 64 + p mod 64 = p" and "b * 64 + a mod 64 = a" and "b div 64 * 64 + b mod 64 = b"
    by (simp_all add: a_def b_def)
  then have three: "b * 4096 + a mod 64 * 64 + p mod 64 = p"
    and four: "b div 64 * 262144 + b mod 64 * 4096 + a mod 64 * 64 + p mod 64 = p"
    by linarith+
  have "p div 64 < 32" if "p < 0x800"
    using that by (simp add: less_mult_imp_div_less)
  moreover have "p div 4096 < 16" if "p < 0x10000"
    using that by (simp add: less_mult_imp_div_less)
  moreover have "p div 262144 < 8"
    using p by (simp add: less_mult_imp_div_less)
  ultimately show ?thesis
    using two three four unfolding utf8_def ab a_def [symmetric] by simp
qed

lemma utf8_decode_utf8s:
  "\<forall>p \<in> set ps. p < 0x110000 \<Longrightarrow> utf8_decode (concat (map utf8 ps)) = Some ps"
  by (induction ps) (auto simp: utf8_decode_utf8)

lemma point_units_pair:
  assumes "is_high h" and "is_low l"
  shows "point_units (pair_point h l) = [h, l]"
proof -
  have l: "unat l - 0xDC00 < 0x400"
    using assms(2) by (auto simp: is_low_def)
  have "pair_point h l - 0x10000 = (unat h - 0xD800) * 0x400 + (unat l - 0xDC00)"
    by (simp add: pair_point_def)
  then have "(pair_point h l - 0x10000) div 0x400 = unat h - 0xD800"
    "(pair_point h l - 0x10000) mod 0x400 = unat l - 0xDC00"
    using l by simp_all
  moreover have "\<not> pair_point h l < 0x10000"
    by (simp add: pair_point_def)
  ultimately show ?thesis
    using assms by (simp add: point_units_def is_high_def is_low_def)
qed

lemma code_points_units: "code_points s = Some ps \<Longrightarrow> concat (map point_units ps) = s"
proof (induction s arbitrary: ps rule: code_points.induct)
  case (2 c cs)
  show ?case
  proof (cases "is_high c")
    case True
    with "2.prems" obtain l ls qs where cs: "cs = l # ls" "is_low l" "code_points ls = Some qs"
      and ps: "ps = pair_point c l # qs"
      by (auto split: list.splits if_splits)
    with True "2.IH"(1) have "concat (map point_units qs) = ls"
      by auto
    with True cs ps show ?thesis
      by (simp add: point_units_pair)
  next
    case False
    with "2.prems" obtain qs where "code_points cs = Some qs" "ps = unat c # qs"
      by (auto split: if_splits)
    with False "2.prems" "2.IH"(2) unat_lt_65536 [of c] show ?thesis
      by (auto simp: point_units_def split: if_splits)
  qed
qed simp

theorem decode_encode:
  assumes "encodeURIComponent s = Some t"
  shows "decodeURIComponent t = Some s"
proof -
  from assms obtain ps where ps: "code_points s = Some ps" "t = concat (map encode_point ps)"
    by (auto simp: encodeURIComponent_def)
  then have "unpercent t = Some (concat (map utf8 ps))"
    using code_points_bound unpercent_encode_points by blast
  moreover have "utf8_decode (concat (map utf8 ps)) = Some ps"
    using ps(1) code_points_bound utf8_decode_utf8s by blast
  ultimately show ?thesis
    using ps(1) by (simp add: decodeURIComponent_def code_points_units)
qed

text \<open>The characters an encoded component consists of, and those it never contains.\<close>

definition component_unit :: "code_unit \<Rightarrow> bool" where
  "component_unit c \<longleftrightarrow> unreserved (unat c) \<or> c = 0x25"

lemma hex_digit_component: "n < 16 \<Longrightarrow> component_unit (hex_digit n)"
  by (auto simp: component_unit_def hex_digit_def unreserved_def unat_of_nat)

lemma percent_component: "b < 256 \<Longrightarrow> \<forall>c \<in> set (percent b). component_unit c"
  by (auto simp: percent_def hex_digit_component less_mult_imp_div_less)
    (simp add: component_unit_def)

lemma encode_point_component: "p < 0x110000 \<Longrightarrow> \<forall>c \<in> set (encode_point p). component_unit c"
  using utf8_octets [of p] unreserved_ascii [of p] percent_component
  by (auto simp: encode_point_def component_unit_def unat_of_nat)

lemma encode_component:
  assumes "encodeURIComponent s = Some t"
  shows "\<forall>c \<in> set t. component_unit c"
proof -
  from assms obtain ps where "code_points s = Some ps" "t = concat (map encode_point ps)"
    by (auto simp: encodeURIComponent_def)
  with code_points_bound [of s ps] encode_point_component show ?thesis
    by fastforce
qed

lemma component_not_delimiter: "component_unit c \<Longrightarrow> c \<noteq> slash \<and> c \<noteq> 0x3F \<and> c \<noteq> 0x23"
  by (auto simp: component_unit_def unreserved_def slash_def)

lemma encode_inj:
  "encodeURIComponent s = Some t \<Longrightarrow> encodeURIComponent s' = Some t \<Longrightarrow> s = s'"
  by (metis decode_encode option.inject)

section \<open>Truth values\<close>

text \<open>A value of type \<open>string | null\<close> as a condition, and the operator \<open>||\<close> on it.\<close>

definition truthy :: "jsstr option \<Rightarrow> bool" where
  "truthy x \<longleftrightarrow> (case x of None \<Rightarrow> False | Some v \<Rightarrow> v \<noteq> [])"

definition truthy_or :: "jsstr option \<Rightarrow> jsstr \<Rightarrow> jsstr" where
  "truthy_or x y = (case x of None \<Rightarrow> y | Some v \<Rightarrow> if v \<noteq> [] then v else y)"

end
