(* ===== verification/Forms.thy ===== *)
theory Forms
  imports Portal_Types Js_String
begin

text \<open>
  The form helpers of \<open>portal/web/app/utils/forms.ts\<close>: the blank forms, \<open>nullable\<close> and
  \<open>splitMembers\<close>. The theorems characterise \<open>nullable\<close> on every input and show that the
  member list shown in the group editor is read back unchanged.
\<close>

section \<open>Blank forms\<close>

definition blankDomainForm :: DomainForm where
  "blankDomainForm = \<lparr>
     df_id = [], df_name = [], df_enabled = True, df_mirror_root_dn = [],
     df_quarantine_ou_dn = [], df_upn_suffix = [], df_employee_id_attribute = [],
     df_managed_group_id_attribute = []\<rparr>"

definition blankOuForm :: OuForm where
  "blankOuForm = \<lparr>of_id = [], of_name = [], of_parent_id = []\<rparr>"

definition blankUserForm :: UserForm where
  "blankUserForm = \<lparr>
     uf_employee_id = [], uf_username = [], uf_display_name = [], uf_surname = [],
     uf_given_name = [], uf_email = [], uf_mobile = [], uf_organizational_unit_id = [],
     uf_status = Active, uf_initial_password = []\<rparr>"

definition blankGroupForm :: GroupForm where
  "blankGroupForm = \<lparr>
     gf_id = [], gf_name = [], gf_organizational_unit_id = [], gf_member_employee_ids = []\<rparr>"

section \<open>\<open>nullable\<close> and \<open>splitMembers\<close>\<close>

definition nullable :: "jsstr \<Rightarrow> jsstr option" where
  "nullable value = (let trimmed = trim value in if 0 < length trimmed then Some trimmed else None)"

definition comma :: code_unit where
  "comma = 0x2C"

definition splitMembers :: "jsstr \<Rightarrow> jsstr list" where
  "splitMembers value = filter (\<lambda>item. item \<noteq> []) (map trim (split_on comma value))"

lemma nullable_alt: "nullable s = (if trim s = [] then None else Some (trim s))"
  by (simp add: nullable_def Let_def)

lemma nullable_None_iff: "nullable s = None \<longleftrightarrow> (\<forall>c \<in> set s. is_ws c)"
  by (simp add: nullable_alt trim_eq_Nil_iff)

lemma nullable_of_trimmed: "trimmed s \<Longrightarrow> s \<noteq> [] \<Longrightarrow> nullable s = Some s"
  by (simp add: nullable_alt trim_id)

text \<open>
  A value that goes through the form: \<open>clean\<close> items are non-empty, trimmed and free of the
  separator.
\<close>

definition clean_item :: "code_unit \<Rightarrow> jsstr \<Rightarrow> bool" where
  "clean_item c s \<longleftrightarrow> s \<noteq> [] \<and> trimmed s \<and> c \<notin> set s"

definition comma_space :: jsstr where
  "comma_space = [comma, 0x20]"

lemma trim_space [simp]: "trim (0x20 # s) = trim s"
  by (simp add: is_ws_def)

lemma split_members_join:
  assumes "\<forall>s \<in> set xs. clean_item comma s"
  shows "map trim (split_on comma (join comma_space xs)) = (if xs = [] then [[]] else xs)"
  using assms
proof (induction comma_space xs rule: join.induct)
  case (3 x y xs)
  then have "comma \<notin> set x" "trim x = x"
    by (auto simp: clean_item_def trim_id)
  moreover have "join comma_space (x # y # xs) = x @ comma # 0x20 # join comma_space (y # xs)"
    by (simp add: comma_space_def)
  moreover have "map trim (split_on comma (0x20 # t)) = map trim (split_on comma t)" for t
    by (cases "split_on comma t") (auto simp: comma_def)
  ultimately show ?case
    using 3 by (simp add: split_on_append del: split_on.simps join.simps(3))
qed (auto simp: clean_item_def trim_id split_on_free)

lemma splitMembers_clean:
  assumes "s \<in> set (splitMembers v)"
  shows "clean_item comma s"
proof -
  from assms obtain t where "t \<in> set (split_on comma v)" "s = trim t" "s \<noteq> []"
    by (auto simp: splitMembers_def)
  then show ?thesis
    using split_on_item_free [of t comma v] set_trim [of t]
    by (auto simp: clean_item_def trim_trimmed)
qed

lemma splitMembers_join:
  assumes "\<forall>s \<in> set xs. clean_item comma s"
  shows "splitMembers (join comma_space xs) = xs"
proof -
  have "filter (\<lambda>item. item \<noteq> []) xs = xs"
    using assms by (auto simp: clean_item_def filter_id_conv)
  then show ?thesis
    by (simp add: splitMembers_def split_members_join [OF assms])
qed

end
