(* ===== verification/Ou_Tree.thy ===== *)
theory Ou_Tree
  imports Portal_Types Js_String "HOL-Library.Sorting_Algorithms"
begin

text \<open>
  \<open>portal/web/app/utils/directory.ts\<close>: sorting, flattening and nesting the organizational
  units. \<open>String.prototype.localeCompare\<close> depends on the collation data of the host, so the
  two collations (\<open>zh-Hans-CN\<close> for names, the default one for identifiers) are parameters;
  their type \<open>jsstr comparator\<close> carries what ECMA-402 promises, a consistent comparison.
  \<open>Array.prototype.sort\<close> is the stable sort.

  The recursion of \<open>pushChildren\<close> and \<open>build\<close> is not structural: parents may be missing or
  form cycles. It terminates because every call marks a unit as visited. The theorems: every
  unit is listed exactly once, a nested unit follows its parent one level deeper, and
  \<open>buildOuTree\<close> and \<open>flattenOus\<close> agree on everything below the root.
\<close>

section \<open>Sorting\<close>

definition ou_order :: "jsstr comparator \<Rightarrow> jsstr comparator \<Rightarrow> OrganizationalUnit comparator" where
  "ou_order names ids = key (\<lambda>ou. (ou_name ou, ou_id ou)) (prod_lex names ids)"

definition sortOus ::
  "jsstr comparator \<Rightarrow> jsstr comparator \<Rightarrow> OrganizationalUnit list \<Rightarrow> OrganizationalUnit list" where
  "sortOus names ids ous = Sorting_Algorithms.sort (ou_order names ids) ous"

lemma compare_ou_order:
  "compare (ou_order names ids) l r =
     (let byName = compare names (ou_name l) (ou_name r)
      in if byName = Equiv then compare ids (ou_id l) (ou_id r) else byName)"
  by (simp add: ou_order_def compare_prod_lex_apply Let_def split: comp.splits)

lemma mset_sortOus [simp]: "mset (sortOus names ids ous) = mset ous"
  by (simp add: sortOus_def)

lemma set_sortOus [simp]: "set (sortOus names ids ous) = set ous"
  by (simp add: sortOus_def)

section \<open>Grouping by parent\<close>

type_synonym by_parent = "jsstr option \<Rightarrow> OrganizationalUnit list option"

definition group_by_parent :: "OrganizationalUnit list \<Rightarrow> by_parent" where
  "group_by_parent ous =
     fold (\<lambda>ou m. m(ou_parent_id ou \<mapsto>
             (case m (ou_parent_id ou) of None \<Rightarrow> [] | Some xs \<Rightarrow> xs) @ [ou])) ous Map.empty"

definition siblings ::
  "jsstr comparator \<Rightarrow> jsstr comparator \<Rightarrow> OrganizationalUnit list \<Rightarrow> jsstr option \<Rightarrow>
   OrganizationalUnit list" where
  "siblings names ids ous p =
     (case map_option (sortOus names ids) (group_by_parent ous p) of None \<Rightarrow> [] | Some xs \<Rightarrow> xs)"

lemma group_fold:
  "fold (\<lambda>ou m. m(ou_parent_id ou \<mapsto>
        (case m (ou_parent_id ou) of None \<Rightarrow> [] | Some xs \<Rightarrow> xs) @ [ou])) ous m p =
   (case filter (\<lambda>ou. ou_parent_id ou = p) ous of
      [] \<Rightarrow> m p
    | xs \<Rightarrow> Some ((case m p of None \<Rightarrow> [] | Some ys \<Rightarrow> ys) @ xs))"
  by (induction ous arbitrary: m) (auto split: list.splits option.splits)

lemma siblings_eq:
  "siblings names ids ous p = sortOus names ids (filter (\<lambda>ou. ou_parent_id ou = p) ous)"
  unfolding siblings_def group_by_parent_def group_fold
  by (auto simp: sortOus_def split: list.splits)

lemma set_siblings: "set (siblings names ids ous p) = {ou \<in> set ous. ou_parent_id ou = p}"
  by (auto simp: siblings_eq)

lemma siblings_nth:
  "i < length (siblings names ids ous p) \<Longrightarrow>
    siblings names ids ous p ! i \<in> set ous \<and> ou_parent_id (siblings names ids ous p ! i) = p"
  using set_siblings nth_mem by fastforce

definition unvisited :: "OrganizationalUnit list \<Rightarrow> jsstr list \<Rightarrow> nat" where
  "unvisited ous v = length (filter (\<lambda>ou. ou_id ou \<notin> set v) ous)"

lemma unvisited_less:
  "ou \<in> set ous \<Longrightarrow> ou_id ou \<notin> set v \<Longrightarrow> ou_id ou \<in> set v' \<Longrightarrow> set v \<subseteq> set v' \<Longrightarrow>
    unvisited ous v' < unvisited ous v"
  unfolding unvisited_def by (rule filter_length_less [of ou]) auto

section \<open>\<open>flattenOus\<close>\<close>

type_synonym visit = "jsstr list \<times> OuTreeItem list"

text \<open>
  \<open>pushChildren names ids ous parentId depth i (visited, items)\<close>: the loop of
  \<open>pushChildren(parentId, depth)\<close> from its \<open>i\<close>-th sibling on.
\<close>

function pushChildren ::
  "jsstr comparator \<Rightarrow> jsstr comparator \<Rightarrow> OrganizationalUnit list \<Rightarrow> jsstr option \<Rightarrow> nat \<Rightarrow> nat \<Rightarrow>
   visit \<Rightarrow> visit" where
  "pushChildren names ids ous p d i (v, items) =
     (if i < length (siblings names ids ous p) then
        (let ou = siblings names ids ous p ! i in
         if ou_id ou \<in> set v then pushChildren names ids ous p d (Suc i) (v, items)
         else pushChildren names ids ous p d (Suc i)
                (pushChildren names ids ous (Some (ou_id ou)) (d + 1) 0
                   (ou_id ou # v, items @ [\<lparr>ti_ou = ou, ti_depth = d\<rparr>])))
      else (v, items))"
  by pat_completeness auto

lemma pushChildren_mono:
  "pushChildren_dom (names, ids, ous, p, d, i, vi) \<Longrightarrow>
    set (fst vi) \<subseteq> set (fst (pushChildren names ids ous p d i vi))"
proof (induction names ids ous p d i vi rule: pushChildren.pinduct)
  case (1 names ids ous p d i v items)
  let ?ou = "siblings names ids ous p ! i"
  let ?inner = "pushChildren names ids ous (Some (ou_id ?ou)) (d + 1) 0
      (ou_id ?ou # v, items @ [\<lparr>ti_ou = ?ou, ti_depth = d\<rparr>])"
  show ?case
  proof (cases "i < length (siblings names ids ous p) \<and> ou_id ?ou \<notin> set v")
    case True
    then have "set (ou_id ?ou # v) \<subseteq> set (fst ?inner)"
      using "1.IH"(2) [OF _ refl] by simp
    moreover have "set (fst ?inner) \<subseteq> set (fst (pushChildren names ids ous p d (Suc i) ?inner))"
      using True "1.IH"(3) [OF _ refl] by simp
    ultimately show ?thesis
      using True "1.hyps" by (auto simp: pushChildren.psimps Let_def)
  next
    case False
    then show ?thesis
      using "1.hyps" "1.IH"(1) [OF _ refl] by (auto simp: pushChildren.psimps Let_def)
  qed
qed

termination pushChildren
proof (relation "measures [\<lambda>(names, ids, ous, p, d, i, vi). unvisited ous (fst vi),
    \<lambda>(names, ids, ous, p, d, i, vi). length (siblings names ids ous p) - i]")
  fix names ids ous p d i v and items :: "OuTreeItem list" and ou
  let ?vi = "(ou_id ou # v, items @ [\<lparr>ti_ou = ou, ti_depth = d\<rparr>])"
  assume "i < length (siblings names ids ous p)" "ou = siblings names ids ous p ! i"
    and new: "ou_id ou \<notin> set v"
  then have ou: "ou \<in> set ous"
    using siblings_nth by blast
  with new show "((names, ids, ous, Some (ou_id ou), d + 1, 0, ?vi), names, ids, ous, p, d, i, v, items)
      \<in> measures [\<lambda>(names, ids, ous, p, d, i, vi). unvisited ous (fst vi),
        \<lambda>(names, ids, ous, p, d, i, vi). length (siblings names ids ous p) - i]"
    by (auto intro: unvisited_less)
  assume "pushChildren_dom (names, ids, ous, Some (ou_id ou), d + 1, 0, ?vi)"
  from pushChildren_mono [OF this] ou new
  show "((names, ids, ous, p, d, Suc i,
        pushChildren names ids ous (Some (ou_id ou)) (d + 1) 0 ?vi), names, ids, ous, p, d, i, v, items)
      \<in> measures [\<lambda>(names, ids, ous, p, d, i, vi). unvisited ous (fst vi),
        \<lambda>(names, ids, ous, p, d, i, vi). length (siblings names ids ous p) - i]"
    by (auto intro: unvisited_less)
qed auto

declare pushChildren.simps [simp del]

definition pushOrphan ::
  "jsstr comparator \<Rightarrow> jsstr comparator \<Rightarrow> OrganizationalUnit list \<Rightarrow> OrganizationalUnit \<Rightarrow>
   visit \<Rightarrow> visit" where
  "pushOrphan names ids ous ou = (\<lambda>(v, items).
     if ou_id ou \<in> set v then (v, items)
     else pushChildren names ids ous (Some (ou_id ou)) 1 0
            (ou_id ou # v, items @ [\<lparr>ti_ou = ou, ti_depth = 0\<rparr>]))"

definition flattenOus ::
  "jsstr comparator \<Rightarrow> jsstr comparator \<Rightarrow> OrganizationalUnit list \<Rightarrow> OuTreeItem list" where
  "flattenOus names ids ous =
     snd (fold (pushOrphan names ids ous) (sortOus names ids ous)
       (pushChildren names ids ous None 0 0 ([], [])))"

definition ouName :: "OrganizationalUnit list \<Rightarrow> jsstr option \<Rightarrow> jsstr" where
  "ouName ous ouId =
     (case ouId of
        None \<Rightarrow> lit ''-''
      | Some i \<Rightarrow>
          if i = [] then lit ''-''
          else case find (\<lambda>ou. ou_id ou = i) ous of Some ou \<Rightarrow> ou_name ou | None \<Rightarrow> i)"

section \<open>\<open>buildOuTree\<close>\<close>

datatype OuTreeNode = OuTreeNode (node_key: jsstr) (node_title: jsstr)
  (node_children: "OuTreeNode list option")

definition toNode :: "OrganizationalUnit \<Rightarrow> OuTreeNode" where
  "toNode ou = OuTreeNode (ou_id ou) (ou_name ou) None"

text \<open>\<open>build names ids ous parentId i visited\<close>: the loop of \<open>build(parentId)\<close> from its
  \<open>i\<close>-th sibling on, with the visited set after it.\<close>

function build ::
  "jsstr comparator \<Rightarrow> jsstr comparator \<Rightarrow> OrganizationalUnit list \<Rightarrow> jsstr option \<Rightarrow> nat \<Rightarrow>
   jsstr list \<Rightarrow> jsstr list \<times> OuTreeNode list" where
  "build names ids ous p i v =
     (if i < length (siblings names ids ous p) then
        (let ou = siblings names ids ous p ! i in
         if ou_id ou \<in> set v then build names ids ous p (Suc i) v
         else
           (let sub = build names ids ous (Some (ou_id ou)) 0 (ou_id ou # v);
                children = snd sub;
                node = (if 0 < length children then OuTreeNode (ou_id ou) (ou_name ou) (Some children)
                        else toNode ou);
                rest = build names ids ous p (Suc i) (fst sub)
            in (fst rest, node # snd rest)))
      else (v, []))"
  by pat_completeness auto

lemma build_mono:
  "build_dom (names, ids, ous, p, i, v) \<Longrightarrow> set v \<subseteq> set (fst (build names ids ous p i v))"
proof (induction names ids ous p i v rule: build.pinduct)
  case (1 names ids ous p i v)
  let ?ou = "siblings names ids ous p ! i"
  let ?sub = "build names ids ous (Some (ou_id ?ou)) 0 (ou_id ?ou # v)"
  show ?case
  proof (cases "i < length (siblings names ids ous p) \<and> ou_id ?ou \<notin> set v")
    case True
    then have "set (ou_id ?ou # v) \<subseteq> set (fst ?sub)"
      using "1.IH"(2) [OF _ refl] by simp
    moreover have "set (fst ?sub) \<subseteq> set (fst (build names ids ous p (Suc i) (fst ?sub)))"
      using True "1.IH"(3) [OF _ refl _ refl refl refl] by simp
    ultimately show ?thesis
      using True "1.hyps" by (auto simp: build.psimps Let_def)
  next
    case False
    then show ?thesis
      using "1.hyps" "1.IH"(1) [OF _ refl] by (auto simp: build.psimps Let_def)
  qed
qed

termination build
proof (relation "measures [\<lambda>(names, ids, ous, p, i, v). unvisited ous v,
    \<lambda>(names, ids, ous, p, i, v). length (siblings names ids ous p) - i]")
  fix names ids ous p i v ou
  assume "i < length (siblings names ids ous p)" "ou = siblings names ids ous p ! i"
    and new: "ou_id ou \<notin> set v"
  then have ou: "ou \<in> set ous"
    using siblings_nth by blast
  with new show "((names, ids, ous, Some (ou_id ou), 0, ou_id ou # v), names, ids, ous, p, i, v)
      \<in> measures [\<lambda>(names, ids, ous, p, i, v). unvisited ous v,
        \<lambda>(names, ids, ous, p, i, v). length (siblings names ids ous p) - i]"
    by (auto intro: unvisited_less)
  fix sub
  assume "build_dom (names, ids, ous, Some (ou_id ou), 0, ou_id ou # v)"
    and "sub = build names ids ous (Some (ou_id ou)) 0 (ou_id ou # v)"
  with build_mono [OF this(1)] ou new
  show "((names, ids, ous, p, Suc i, fst sub), names, ids, ous, p, i, v)
      \<in> measures [\<lambda>(names, ids, ous, p, i, v). unvisited ous v,
        \<lambda>(names, ids, ous, p, i, v). length (siblings names ids ous p) - i]"
    by (auto intro: unvisited_less)
qed auto

declare build.simps [simp del]

definition buildOuTree ::
  "jsstr comparator \<Rightarrow> jsstr comparator \<Rightarrow> OrganizationalUnit list \<Rightarrow> OuTreeNode list" where
  "buildOuTree names ids ous =
     (let (visited, roots) = build names ids ous None 0 [];
          orphans = filter (\<lambda>ou. ou_id ou \<notin> set visited) (sortOus names ids ous)
      in roots @ map toNode orphans)"

section \<open>Every unit is listed once\<close>

abbreviation item_id :: "OuTreeItem \<Rightarrow> jsstr" where
  "item_id it \<equiv> ou_id (ti_ou it)"

definition wf_visit :: "OrganizationalUnit list \<Rightarrow> visit \<Rightarrow> bool" where
  "wf_visit ous = (\<lambda>(v, items).
     set v = item_id ` set items \<and> distinct (map item_id items) \<and> ti_ou ` set items \<subseteq> set ous)"

lemma wf_visit_push:
  "wf_visit ous (v, items) \<Longrightarrow> ou \<in> set ous \<Longrightarrow> ou_id ou \<notin> set v \<Longrightarrow>
    wf_visit ous (ou_id ou # v, items @ [\<lparr>ti_ou = ou, ti_depth = d\<rparr>])"
  by (auto simp: wf_visit_def)

lemma pushChildren_wf:
  "wf_visit ous vi \<Longrightarrow> wf_visit ous (pushChildren names ids ous p d i vi)"
proof (induction names ids ous p d i vi rule: pushChildren.induct)
  case (1 names ids ous p d i v items)
  show ?case
  proof (cases "i < length (siblings names ids ous p)")
    case True
    then have "siblings names ids ous p ! i \<in> set ous"
      using siblings_nth by blast
    with True 1 show ?thesis
      by (subst pushChildren.simps) (simp add: Let_def wf_visit_push)
  next
    case False
    with "1.prems" show ?thesis by (subst pushChildren.simps) simp
  qed
qed

lemma pushChildren_visited_mono:
  "set (fst vi) \<subseteq> set (fst (pushChildren names ids ous p d i vi))"
proof (induction names ids ous p d i vi rule: pushChildren.induct)
  case (1 names ids ous p d i v items)
  then show ?case
    by (subst pushChildren.simps) (fastforce simp: Let_def)
qed

lemma pushOrphan_wf:
  "wf_visit ous vi \<Longrightarrow> ou \<in> set ous \<Longrightarrow> wf_visit ous (pushOrphan names ids ous ou vi)"
  by (cases vi) (auto simp: pushOrphan_def intro!: pushChildren_wf wf_visit_push)

lemma pushOrphan_visited:
  "insert (ou_id ou) (set (fst vi)) \<subseteq> set (fst (pushOrphan names ids ous ou vi))"
  using pushChildren_visited_mono [of "(ou_id ou # fst vi, snd vi @ [\<lparr>ti_ou = ou, ti_depth = 0\<rparr>])"]
  by (cases vi) (auto simp: pushOrphan_def)

lemma fold_pushOrphan:
  assumes "wf_visit ous vi" and "set xs \<subseteq> set ous"
  shows "wf_visit ous (fold (pushOrphan names ids ous) xs vi) \<and>
    ou_id ` set xs \<union> set (fst vi) \<subseteq> set (fst (fold (pushOrphan names ids ous) xs vi))"
  using assms
proof (induction xs arbitrary: vi)
  case (Cons x xs)
  then have "wf_visit ous (pushOrphan names ids ous x vi)"
    by (simp add: pushOrphan_wf)
  with Cons.IH [OF this] Cons.prems(2) pushOrphan_visited [of x vi names ids ous] show ?case
    by auto
qed simp

lemma flattenOus_once:
  "distinct (map item_id (flattenOus names ids ous)) \<and>
   item_id ` set (flattenOus names ids ous) = ou_id ` set ous \<and>
   ti_ou ` set (flattenOus names ids ous) \<subseteq> set ous"
proof -
  define vi where "vi = fold (pushOrphan names ids ous) (sortOus names ids ous)
      (pushChildren names ids ous None 0 0 ([], []))"
  have "wf_visit ous ([], [])"
    by (simp add: wf_visit_def)
  from fold_pushOrphan [OF pushChildren_wf [OF this], of "sortOus names ids ous"]
  have "wf_visit ous vi" "ou_id ` set ous \<subseteq> set (fst vi)"
    by (auto simp: vi_def)
  then have "distinct (map item_id (snd vi))" "ou_id ` set ous \<subseteq> item_id ` set (snd vi)"
    "ti_ou ` set (snd vi) \<subseteq> set ous"
    by (cases vi; auto simp: wf_visit_def)+
  then show ?thesis
    unfolding flattenOus_def vi_def [symmetric] by auto
qed

lemma flattenOus_mset:
  assumes "distinct (map ou_id ous)"
  shows "mset (map ti_ou (flattenOus names ids ous)) = mset ous"
proof -
  let ?items = "flattenOus names ids ous"
  have once: "distinct (map item_id ?items)" "item_id ` set ?items = ou_id ` set ous"
    "ti_ou ` set ?items \<subseteq> set ous"
    using flattenOus_once by blast+
  have "distinct (map ti_ou ?items)"
    using once(1) by (auto simp: distinct_map inj_on_def)
  moreover have "set (map ti_ou ?items) = set ous"
  proof
    show "set ous \<subseteq> set (map ti_ou ?items)"
    proof
      fix ou assume ou: "ou \<in> set ous"
      with once(2) obtain it where it: "it \<in> set ?items" "item_id it = ou_id ou"
        by (metis (mono_tags, lifting) imageE image_eqI)
      with once(3) ou assms have "ti_ou it = ou"
        by (auto simp: distinct_map inj_on_def)
      with it(1) show "ou \<in> set (map ti_ou ?items)" by force
    qed
  qed (use once(3) in auto)
  ultimately show ?thesis
    using assms by (metis distinct_map set_eq_iff_mset_eq_distinct)
qed

section \<open>Nesting\<close>

text \<open>A nested item follows the item of its parent, one level deeper.\<close>

definition parent_before :: "OuTreeItem list \<Rightarrow> jsstr option \<Rightarrow> nat \<Rightarrow> bool" where
  "parent_before items p d \<longleftrightarrow>
     d = 0 \<or> (\<exists>it \<in> set items. Suc (ti_depth it) = d \<and> p = Some (item_id it))"

definition nested :: "OuTreeItem list \<Rightarrow> bool" where
  "nested items \<longleftrightarrow> (\<forall>j < length items.
     parent_before (take j items) (ou_parent_id (ti_ou (items ! j))) (ti_depth (items ! j)))"

lemma parent_before_mono:
  "parent_before items p d \<Longrightarrow> set items \<subseteq> set items' \<Longrightarrow> parent_before items' p d"
  by (auto simp: parent_before_def)

lemma nested_snoc:
  "nested (items @ [it]) \<longleftrightarrow>
    nested items \<and> parent_before items (ou_parent_id (ti_ou it)) (ti_depth it)"
  by (auto simp: nested_def nth_append less_Suc_eq)

lemma pushChildren_items_mono:
  "set (snd vi) \<subseteq> set (snd (pushChildren names ids ous p d i vi))"
proof (induction names ids ous p d i vi rule: pushChildren.induct)
  case (1 names ids ous p d i v items)
  then show ?case
    by (subst pushChildren.simps) (fastforce simp: Let_def)
qed

lemma pushChildren_nested:
  "nested (snd vi) \<Longrightarrow> parent_before (snd vi) p d \<Longrightarrow>
    nested (snd (pushChildren names ids ous p d i vi))"
proof (induction names ids ous p d i vi rule: pushChildren.induct)
  case (1 names ids ous p d i v items)
  let ?ou = "siblings names ids ous p ! i"
  let ?vi = "(ou_id ?ou # v, items @ [\<lparr>ti_ou = ?ou, ti_depth = d\<rparr>])"
  let ?inner = "pushChildren names ids ous (Some (ou_id ?ou)) (d + 1) 0 ?vi"
  show ?case
  proof (cases "i < length (siblings names ids ous p) \<and> ou_id ?ou \<notin> set v")
    case True
    then have "nested (snd ?vi)"
      using "1.prems" siblings_nth by (simp add: nested_snoc)
    moreover have "parent_before (snd ?vi) (Some (ou_id ?ou)) (d + 1)"
      by (auto simp: parent_before_def)
    ultimately have "nested (snd ?inner)"
      using True "1.IH"(2) [OF _ refl] by simp
    moreover have "set items \<subseteq> set (snd ?inner)"
      using pushChildren_items_mono [of ?vi] by auto
    then have "parent_before (snd ?inner) p d"
      using "1.prems"(2) parent_before_mono by simp
    ultimately show ?thesis
      using True "1.IH"(3) [OF _ refl] by (subst pushChildren.simps) (simp add: Let_def)
  next
    case False
    with 1 show ?thesis
      by (subst pushChildren.simps) (auto simp: Let_def)
  qed
qed

lemma pushOrphan_nested:
  "nested (snd vi) \<Longrightarrow> nested (snd (pushOrphan names ids ous ou vi))"
  by (cases vi)
    (auto simp: pushOrphan_def nested_snoc parent_before_def intro!: pushChildren_nested)

lemma flattenOus_nested: "nested (flattenOus names ids ous)"
proof -
  have "nested (snd (fold (pushOrphan names ids ous) xs vi))" if "nested (snd vi)" for xs vi
    using that by (induction xs arbitrary: vi) (simp_all add: pushOrphan_nested)
  moreover have "nested (snd (pushChildren names ids ous None 0 0 ([], [])))"
    by (rule pushChildren_nested) (auto simp: nested_def parent_before_def)
  ultimately show ?thesis
    by (simp add: flattenOus_def)
qed

subsection \<open>Depth below the root\<close>

text \<open>
  \<open>rooted ous ou k\<close>: \<open>k\<close> parent links lead from \<open>ou\<close> to a root of the forest. When the
  identifiers are distinct, such a unit is listed at depth \<open>k\<close>.
\<close>

inductive rooted :: "OrganizationalUnit list \<Rightarrow> OrganizationalUnit \<Rightarrow> nat \<Rightarrow> bool"
  for ous :: "OrganizationalUnit list" where
  rooted_top: "ou \<in> set ous \<Longrightarrow> ou_parent_id ou = None \<Longrightarrow> rooted ous ou 0"
| rooted_child: "ou \<in> set ous \<Longrightarrow> ou_parent_id ou = Some (ou_id parent) \<Longrightarrow> rooted ous parent k \<Longrightarrow>
    rooted ous ou (Suc k)"

text \<open>The loop leaves all remaining siblings visited, and the children of all it visited.\<close>

definition closed_between :: "OrganizationalUnit list \<Rightarrow> jsstr set \<Rightarrow> jsstr set \<Rightarrow> bool" where
  "closed_between ous V W \<longleftrightarrow>
     (\<forall>ou \<in> set ous. \<forall>x. ou_parent_id ou = Some x \<longrightarrow> x \<in> W - V \<longrightarrow> ou_id ou \<in> W)"

lemma closed_between_trans:
  "closed_between ous V W \<Longrightarrow> closed_between ous W X \<Longrightarrow> W \<subseteq> X \<Longrightarrow> closed_between ous V X"
  unfolding closed_between_def by blast

lemma pushChildren_closed:
  "(\<forall>j. i \<le> j \<and> j < length (siblings names ids ous p) \<longrightarrow>
      ou_id (siblings names ids ous p ! j) \<in> set (fst (pushChildren names ids ous p d i vi))) \<and>
   closed_between ous (set (fst vi)) (set (fst (pushChildren names ids ous p d i vi)))"
proof (induction names ids ous p d i vi rule: pushChildren.induct)
  case (1 names ids ous p d i v items)
  let ?sibs = "siblings names ids ous p"
  let ?ou = "?sibs ! i"
  let ?vi = "(ou_id ?ou # v, items @ [\<lparr>ti_ou = ?ou, ti_depth = d\<rparr>])"
  let ?inner = "pushChildren names ids ous (Some (ou_id ?ou)) (d + 1) 0 ?vi"
  let ?outer = "pushChildren names ids ous p d (Suc i) ?inner"
  consider (over) "\<not> i < length ?sibs" | (seen) "i < length ?sibs" "ou_id ?ou \<in> set v"
    | (new) "i < length ?sibs" "ou_id ?ou \<notin> set v"
    by blast
  then show ?case
  proof cases
    case over
    then show ?thesis
      by (subst (1 2) pushChildren.simps) (auto simp: closed_between_def)
  next
    case seen
    have eq: "pushChildren names ids ous p d i (v, items) =
        pushChildren names ids ous p d (Suc i) (v, items)"
      using seen by (subst pushChildren.simps) (simp add: Let_def)
    have "set v \<subseteq> set (fst (pushChildren names ids ous p d (Suc i) (v, items)))"
      using pushChildren_visited_mono [of "(v, items)"] by simp
    then have "ou_id ?ou \<in> set (fst (pushChildren names ids ous p d (Suc i) (v, items)))"
      using seen(2) by blast
    then have "ou_id (?sibs ! j) \<in> set (fst (pushChildren names ids ous p d (Suc i) (v, items)))"
      if "i \<le> j" "j < length ?sibs" for j
      using that "1.IH"(1) [OF seen(1) refl seen(2)] by (cases "i = j") simp_all
    with "1.IH"(1) [OF seen(1) refl seen(2)] show ?thesis
      unfolding eq by simp
  next
    case new
    have eq: "pushChildren names ids ous p d i (v, items) = ?outer"
      using new by (subst pushChildren.simps) (simp add: Let_def)
    note inner = "1.IH"(2) [OF new(1) refl new(2)] and outer = "1.IH"(3) [OF new(1) refl new(2)]
    have sub: "insert (ou_id ?ou) (set v) \<subseteq> set (fst ?inner)" "set (fst ?inner) \<subseteq> set (fst ?outer)"
      using pushChildren_visited_mono [of ?vi] pushChildren_visited_mono [of ?inner] by auto
    have kids: "ou_id ou \<in> set (fst ?inner)" if "ou \<in> set ous" "ou_parent_id ou = Some (ou_id ?ou)" for ou
      using inner that set_siblings [of names ids ous "Some (ou_id ?ou)"]
      by (metis (mono_tags, lifting) in_set_conv_nth le0 mem_Collect_eq)
    have "closed_between ous (set v) (set (fst ?inner))"
      using inner kids by (auto simp: closed_between_def)
    then have "closed_between ous (set v) (set (fst ?outer))"
      using outer sub(2) closed_between_trans by blast
    moreover have "ou_id (?sibs ! j) \<in> set (fst ?outer)" if "i \<le> j" "j < length ?sibs" for j
      using that outer sub by (cases "i = j") auto
    ultimately show ?thesis
      unfolding eq by auto
  qed
qed

lemma rooted_visited:
  "rooted ous ou k \<Longrightarrow> ou_id ou \<in> set (fst (pushChildren names ids ous None 0 0 ([], [])))"
proof (induction rule: rooted.induct)
  case (rooted_top ou)
  then obtain j where "j < length (siblings names ids ous None)"
    "siblings names ids ous None ! j = ou"
    using set_siblings [of names ids ous None] by (metis (mono_tags, lifting) in_set_conv_nth mem_Collect_eq)
  then show ?case
    using pushChildren_closed [of 0 names ids ous None 0 "([], [])"] by auto
next
  case (rooted_child ou parent k)
  then show ?case
    using pushChildren_closed [of 0 names ids ous None 0 "([], [])"]
    by (auto simp: closed_between_def)
qed

lemma pushChildren_extends: "\<exists>new. snd (pushChildren names ids ous p d i vi) = snd vi @ new"
proof (induction names ids ous p d i vi rule: pushChildren.induct)
  case (1 names ids ous p d i v items)
  then show ?case
    by (subst pushChildren.simps) (fastforce simp: Let_def)
qed

definition tops_are_roots :: "OuTreeItem list \<Rightarrow> bool" where
  "tops_are_roots items \<longleftrightarrow>
     (\<forall>it \<in> set items. ti_depth it = 0 \<longrightarrow> ou_parent_id (ti_ou it) = None)"

lemma pushChildren_tops:
  "tops_are_roots (snd vi) \<Longrightarrow> d = 0 \<longrightarrow> p = None \<Longrightarrow>
    tops_are_roots (snd (pushChildren names ids ous p d i vi))"
proof (induction names ids ous p d i vi rule: pushChildren.induct)
  case (1 names ids ous p d i v items)
  let ?ou = "siblings names ids ous p ! i"
  let ?vi = "(ou_id ?ou # v, items @ [\<lparr>ti_ou = ?ou, ti_depth = d\<rparr>])"
  show ?case
  proof (cases "i < length (siblings names ids ous p) \<and> ou_id ?ou \<notin> set v")
    case True
    then have "tops_are_roots (snd ?vi)"
      using siblings_nth [of i names ids ous p] "1.prems" by (auto simp: tops_are_roots_def)
    with True "1.IH"(2) [OF _ refl] "1.IH"(3) [OF _ refl] "1.prems"(2) show ?thesis
      by (subst pushChildren.simps) (simp add: Let_def)
  next
    case False
    with "1.prems" "1.IH"(1) [OF _ refl] show ?thesis
      by (subst pushChildren.simps) (auto simp: Let_def)
  qed
qed

lemma fold_pushOrphan_extends:
  "\<exists>new. snd (fold (pushOrphan names ids ous) xs vi) = snd vi @ new"
proof (induction xs arbitrary: vi)
  case (Cons x xs)
  have "\<exists>new. snd (pushOrphan names ids ous x vi) = snd vi @ new"
    using pushChildren_extends [of names ids ous "Some (ou_id x)" 1 0
        "(ou_id x # fst vi, snd vi @ [\<lparr>ti_ou = x, ti_depth = 0\<rparr>])"]
    by (cases vi) (auto simp: pushOrphan_def)
  with Cons.IH [of "pushOrphan names ids ous x vi"] show ?case
    by auto
qed simp

lemma nested_parent:
  assumes "nested items" and "it \<in> set items" and "ti_depth it = Suc k"
  shows "\<exists>up \<in> set items. ti_depth up = k \<and> ou_parent_id (ti_ou it) = Some (item_id up)"
proof -
  from assms(2) obtain j where "j < length items" "items ! j = it"
    by (auto simp: in_set_conv_nth)
  with assms(1,3) obtain up where "up \<in> set (take j items)" "ti_depth up = k"
    "ou_parent_id (ti_ou it) = Some (item_id up)"
    by (fastforce simp: nested_def parent_before_def)
  then show ?thesis
    using in_set_takeD by fast
qed

definition first_phase ::
  "jsstr comparator \<Rightarrow> jsstr comparator \<Rightarrow> OrganizationalUnit list \<Rightarrow> visit" where
  "first_phase names ids ous = pushChildren names ids ous None 0 0 ([], [])"

lemma first_phase_facts:
  "wf_visit ous (first_phase names ids ous)" "nested (snd (first_phase names ids ous))"
  "tops_are_roots (snd (first_phase names ids ous))"
proof -
  have "wf_visit ous ([], [])" "nested []" "parent_before [] None 0" "tops_are_roots []"
    by (simp_all add: wf_visit_def nested_def parent_before_def tops_are_roots_def)
  then show "wf_visit ous (first_phase names ids ous)" "nested (snd (first_phase names ids ous))"
    "tops_are_roots (snd (first_phase names ids ous))"
    unfolding first_phase_def
    by (simp_all add: pushChildren_wf pushChildren_nested pushChildren_tops)
qed

lemma rooted_in: "rooted ous ou k \<Longrightarrow> ou \<in> set ous"
  by (induction rule: rooted.induct)

lemma first_phase_unit:
  assumes "distinct (map ou_id ous)" and "it \<in> set (snd (first_phase names ids ous))"
    and "ou \<in> set ous" and "item_id it = ou_id ou"
  shows "ti_ou it = ou"
proof -
  have "ti_ou it \<in> set ous"
    using first_phase_facts(1) [of ous names ids] assms(2) by (auto simp: wf_visit_def)
  with assms show ?thesis
    by (auto simp: distinct_map inj_on_def)
qed

lemma first_phase_depth:
  assumes "rooted ous ou k" and "distinct (map ou_id ous)"
    and "it \<in> set (snd (first_phase names ids ous))" and "ti_ou it = ou"
  shows "ti_depth it = k"
  using assms
proof (induction arbitrary: it rule: rooted.induct)
  case (rooted_top ou)
  then show ?case
    using nested_parent [OF first_phase_facts(2)] by (cases "ti_depth it") fastforce+
next
  case (rooted_child ou parent k)
  then have "ti_depth it \<noteq> 0"
    using first_phase_facts(3) [of names ids ous] by (auto simp: tops_are_roots_def)
  then obtain d where d: "ti_depth it = Suc d"
    using not0_implies_Suc by blast
  from nested_parent [OF first_phase_facts(2) rooted_child.prems(2) d] rooted_child
  obtain up where up: "up \<in> set (snd (first_phase names ids ous))" "ti_depth up = d"
    "item_id up = ou_id parent"
    by auto
  with first_phase_unit rooted_child rooted_in have "ti_ou up = parent"
    by blast
  with rooted_child up d show ?case by blast
qed

lemma rooted_depth:
  assumes "distinct (map ou_id ous)" and "rooted ous ou k"
  shows "\<lparr>ti_ou = ou, ti_depth = k\<rparr> \<in> set (flattenOus names ids ous)"
proof -
  let ?vi = "first_phase names ids ous"
  have "ou_id ou \<in> set (fst ?vi)"
    unfolding first_phase_def by (rule rooted_visited [OF assms(2)])
  then obtain it where it: "it \<in> set (snd ?vi)" "item_id it = ou_id ou"
    using first_phase_facts(1) [of ous names ids] by (auto simp: wf_visit_def)
  with assms have "ti_ou it = ou"
    by (blast intro: first_phase_unit rooted_in)
  with it(1) assms have "ti_depth it = k"
    by (blast intro: first_phase_depth)
  with \<open>ti_ou it = ou\<close> it(1) have "\<lparr>ti_ou = ou, ti_depth = k\<rparr> \<in> set (snd ?vi)"
    by (cases it) simp
  moreover have "set (snd ?vi) \<subseteq> set (flattenOus names ids ous)"
    using fold_pushOrphan_extends [of names ids ous "sortOus names ids ous" ?vi]
    by (auto simp: flattenOus_def first_phase_def)
  ultimately show ?thesis by blast
qed

section \<open>The tree and the list agree\<close>

fun preorder :: "nat \<Rightarrow> OuTreeNode \<Rightarrow> (jsstr \<times> jsstr \<times> nat) list" where
  "preorder d (OuTreeNode k t None) = [(k, t, d)]"
| "preorder d (OuTreeNode k t (Some cs)) = (k, t, d) # concat (map (preorder (Suc d)) cs)"

definition item_row :: "OuTreeItem \<Rightarrow> jsstr \<times> jsstr \<times> nat" where
  "item_row it = (ou_id (ti_ou it), ou_name (ti_ou it), ti_depth it)"

lemma push_build:
  "\<exists>new. pushChildren names ids ous p d i (v, items) =
      (fst (build names ids ous p i v), items @ new) \<and>
    map item_row new = concat (map (preorder d) (snd (build names ids ous p i v)))"
proof (induction names ids ous p i v arbitrary: d items rule: build.induct)
  case (1 names ids ous p i v)
  let ?ou = "siblings names ids ous p ! i"
  let ?sub = "build names ids ous (Some (ou_id ?ou)) 0 (ou_id ?ou # v)"
  let ?it = "\<lparr>ti_ou = ?ou, ti_depth = d\<rparr>"
  show ?case
  proof (cases "i < length (siblings names ids ous p) \<and> ou_id ?ou \<notin> set v")
    case True
    then obtain new1 where
      new1: "pushChildren names ids ous (Some (ou_id ?ou)) (d + 1) 0 (ou_id ?ou # v, items @ [?it]) =
          (fst ?sub, items @ ?it # new1)"
        "map item_row new1 = concat (map (preorder (d + 1)) (snd ?sub))"
      using "1.IH"(2) [OF _ refl, of "d + 1" "items @ [?it]"] by auto
    from True obtain new2 where
      new2: "pushChildren names ids ous p d (Suc i) (fst ?sub, items @ ?it # new1) =
          (fst (build names ids ous p (Suc i) (fst ?sub)), items @ ?it # new1 @ new2)"
        "map item_row new2 = concat (map (preorder d) (snd (build names ids ous p (Suc i) (fst ?sub))))"
      using "1.IH"(3) [OF _ refl _ refl refl refl, of d "items @ ?it # new1"] by auto
    have eqs: "pushChildren names ids ous p d i (v, items) =
        (fst (build names ids ous p i v), items @ (?it # new1 @ new2))"
      using True new1(1) new2(1)
      by (subst pushChildren.simps, subst build.simps) (simp add: Let_def)
    moreover have "map item_row (?it # new1 @ new2) =
        concat (map (preorder d) (snd (build names ids ous p i v)))"
      using True new1(2) new2(2)
      by (subst build.simps) (auto simp: Let_def item_row_def toNode_def)
    ultimately show ?thesis by blast
  next
    case False
    then show ?thesis
      using "1.IH"(1) [OF _ refl, of d items]
      by (subst pushChildren.simps, subst (1 2) build.simps) (auto simp: Let_def)
  qed
qed

definition tree_rows :: "OuTreeNode list \<Rightarrow> (jsstr \<times> jsstr \<times> nat) list" where
  "tree_rows nodes = concat (map (preorder 0) nodes)"

lemma first_phase_build:
  "fst (first_phase names ids ous) = fst (build names ids ous None 0 [])"
  "map item_row (snd (first_phase names ids ous)) = tree_rows (snd (build names ids ous None 0 []))"
  using push_build [of names ids ous None 0 0 "[]" "[]"]
  by (auto simp: first_phase_def tree_rows_def)

lemma tree_rows_buildOuTree:
  "tree_rows (buildOuTree names ids ous) =
     map item_row (snd (first_phase names ids ous)) @
     map (\<lambda>ou. (ou_id ou, ou_name ou, 0))
       (filter (\<lambda>ou. ou_id ou \<notin> set (fst (first_phase names ids ous))) (sortOus names ids ous))"
proof -
  have "concat (map (preorder 0) (map toNode xs)) = map (\<lambda>ou. (ou_id ou, ou_name ou, 0)) xs" for xs
    by (induction xs) (auto simp: toNode_def)
  then show ?thesis
    by (simp add: buildOuTree_def first_phase_build tree_rows_def split_def Let_def)
qed

lemma buildOuTree_keys:
  assumes "distinct (map ou_id ous)"
  shows "mset (map fst (tree_rows (buildOuTree names ids ous))) = mset (map ou_id ous)"
proof -
  let ?vi = "first_phase names ids ous"
  let ?orphans = "filter (\<lambda>ou. ou_id ou \<notin> set (fst ?vi)) (sortOus names ids ous)"
  have keys: "map fst (tree_rows (buildOuTree names ids ous)) =
      map item_id (snd ?vi) @ map ou_id ?orphans"
    by (simp add: tree_rows_buildOuTree item_row_def comp_def)
  have wf: "set (fst ?vi) = item_id ` set (snd ?vi)" "distinct (map item_id (snd ?vi))"
    "ti_ou ` set (snd ?vi) \<subseteq> set ous"
    using first_phase_facts(1) [of ous names ids] by (auto simp: wf_visit_def)
  have "mset (map ou_id (sortOus names ids ous)) = mset (map ou_id ous)"
    by (simp only: mset_map mset_sortOus)
  then have "distinct (map ou_id (sortOus names ids ous))"
    using assms mset_eq_imp_distinct_iff by blast
  then have "distinct (map ou_id ?orphans)"
    by (simp add: distinct_map_filter)
  moreover have "item_id ` set (snd ?vi) \<inter> ou_id ` set ?orphans = {}"
    unfolding wf(1) [symmetric] by auto
  ultimately have "distinct (map item_id (snd ?vi) @ map ou_id ?orphans)"
    using wf(2) by simp
  moreover have "set (map item_id (snd ?vi) @ map ou_id ?orphans) = set (map ou_id ous)"
    using wf by auto
  ultimately show ?thesis
    unfolding keys using assms by (simp only: set_eq_iff_mset_eq_distinct [symmetric])
qed

lemma fold_pushOrphan_id:
  "\<forall>ou \<in> set xs. ou_id ou \<in> set (fst vi) \<Longrightarrow> fold (pushOrphan names ids ous) xs vi = vi"
  by (cases vi; induction xs) (auto simp: pushOrphan_def)

lemma flattenOus_preorder:
  assumes "\<forall>ou \<in> set ous. \<exists>k. rooted ous ou k"
  shows "map item_row (flattenOus names ids ous) = tree_rows (buildOuTree names ids ous)"
proof -
  let ?vi = "first_phase names ids ous"
  have all: "\<forall>ou \<in> set ous. ou_id ou \<in> set (fst ?vi)"
    using assms rooted_visited unfolding first_phase_def by blast
  then have "flattenOus names ids ous = snd ?vi"
    by (simp add: flattenOus_def first_phase_def [symmetric] fold_pushOrphan_id)
  moreover from all have "filter (\<lambda>ou. ou_id ou \<notin> set (fst ?vi)) (sortOus names ids ous) = []"
    by (simp add: filter_empty_conv)
  ultimately show ?thesis
    by (simp add: tree_rows_buildOuTree)
qed

text \<open>Without that, the two agree on the units that hang below a root and differ only in the rest.\<close>

lemma first_phase_rooted:
  assumes "it \<in> set (snd (first_phase names ids ous))"
  shows "rooted ous (ti_ou it) (ti_depth it)"
  using assms
proof (induction "ti_depth it" arbitrary: it)
  case 0
  moreover have "ti_ou it \<in> set ous"
    using first_phase_facts(1) [of ous names ids] 0(2) by (auto simp: wf_visit_def)
  ultimately show ?case
    using first_phase_facts(3) [of names ids ous] by (auto simp: tops_are_roots_def intro: rooted_top)
next
  case (Suc k)
  then obtain up where up: "up \<in> set (snd (first_phase names ids ous))" "ti_depth up = k"
    "ou_parent_id (ti_ou it) = Some (item_id up)"
    using nested_parent [OF first_phase_facts(2)] by metis
  moreover have "ti_ou it \<in> set ous"
    using first_phase_facts(1) [of ous names ids] Suc.prems by (auto simp: wf_visit_def)
  ultimately show ?case
    using Suc.hyps by (metis rooted_child)
qed

lemma first_phase_iff:
  assumes "distinct (map ou_id ous)" and "ou \<in> set ous"
  shows "ou_id ou \<in> set (fst (first_phase names ids ous)) \<longleftrightarrow> (\<exists>k. rooted ous ou k)"
proof
  assume "ou_id ou \<in> set (fst (first_phase names ids ous))"
  then obtain it where "it \<in> set (snd (first_phase names ids ous))" "item_id it = ou_id ou"
    using first_phase_facts(1) [of ous names ids] by (auto simp: wf_visit_def)
  moreover from this have "ti_ou it = ou"
    using assms by (blast intro: first_phase_unit)
  ultimately show "\<exists>k. rooted ous ou k"
    using first_phase_rooted by blast
qed (use rooted_visited in \<open>auto simp: first_phase_def\<close>)

lemma flattenOus_rooted_part:
  assumes "distinct (map ou_id ous)"
  shows "\<exists>items rest. flattenOus names ids ous = items @ rest \<and>
    ti_ou ` set items = {ou \<in> set ous. \<exists>k. rooted ous ou k} \<and>
    tree_rows (buildOuTree names ids ous) = map item_row items @
      map (\<lambda>ou. (ou_id ou, ou_name ou, 0)) (filter (\<lambda>ou. \<nexists>k. rooted ous ou k) (sortOus names ids ous))"
proof -
  let ?vi = "first_phase names ids ous"
  obtain rest where "flattenOus names ids ous = snd ?vi @ rest"
    using fold_pushOrphan_extends [of names ids ous "sortOus names ids ous" ?vi]
    by (auto simp: flattenOus_def first_phase_def)
  moreover have "ti_ou ` set (snd ?vi) = {ou \<in> set ous. \<exists>k. rooted ous ou k}"
  proof (intro equalityI subsetI)
    fix ou assume "ou \<in> {ou \<in> set ous. \<exists>k. rooted ous ou k}"
    then have "ou \<in> set ous" "ou_id ou \<in> set (fst ?vi)"
      using first_phase_iff [OF assms] by auto
    then obtain it where "it \<in> set (snd ?vi)" "item_id it = ou_id ou"
      using first_phase_facts(1) [of ous names ids] by (auto simp: wf_visit_def)
    with \<open>ou \<in> set ous\<close> assms show "ou \<in> ti_ou ` set (snd ?vi)"
      using first_phase_unit by blast
  qed (auto dest: first_phase_rooted rooted_in)
  moreover have "filter (\<lambda>ou. ou_id ou \<notin> set (fst ?vi)) (sortOus names ids ous) =
      filter (\<lambda>ou. \<nexists>k. rooted ous ou k) (sortOus names ids ous)"
    using first_phase_iff [OF assms] by (intro filter_cong) auto
  ultimately show ?thesis
    by (intro exI [of _ "snd ?vi"] exI [of _ rest]) (simp add: tree_rows_buildOuTree)
qed
section \<open>The order of siblings\<close>

lemma siblings_sorted:
  "Sorting_Algorithms.sorted (ou_order names ids) (siblings names ids ous p)"
  by (simp add: siblings_eq sortOus_def)

end
