(* ===== verification/Oidc_Utils.thy ===== *)
theory Oidc_Utils
  imports Portal_Types Js_String
begin

text \<open>
  \<open>portal/web/app/utils/oidc.ts\<close>. The URL parser is the browser's (\<open>new URL(value, base)\<close>),
  so it is a parameter: \<open>parse value base\<close> is \<open>None\<close> where the constructor throws. The safety
  theorem relies on one documented fact of the URL standard, that \<open>search\<close> is empty or starts
  with a question mark.
\<close>

record url =
  url_origin :: jsstr
  url_pathname :: jsstr
  url_search :: jsstr

type_synonym url_parser = "jsstr \<Rightarrow> jsstr \<Rightarrow> url option"

definition search_wf :: "url_parser \<Rightarrow> bool" where
  "search_wf parse \<longleftrightarrow>
     (\<forall>value base u. parse value base = Some u \<longrightarrow> url_search u = [] \<or> hd (url_search u) = 0x3F)"

text \<open>A value of type \<open>unknown\<close>: only whether it is a string matters.\<close>

datatype unknown = StringValue jsstr | OtherValue

definition authorizationPath :: jsstr where
  "authorizationPath = lit ''/oauth2/authorize''"

definition resolveAuthorizationContinue :: "url_parser \<Rightarrow> unknown \<Rightarrow> jsstr \<Rightarrow> jsstr option" where
  "resolveAuthorizationContinue parse value origin =
     (case value of
        OtherValue \<Rightarrow> None
      | StringValue v \<Rightarrow>
          if length v = 0 then None
          else
            (case parse v (origin @ lit ''/'') of
               None \<Rightarrow> None
             | Some u \<Rightarrow>
                 if url_origin u \<noteq> origin \<or> url_pathname u \<noteq> authorizationPath then None
                 else Some (url_pathname u @ url_search u)))"

definition authorizationFormFields :: "OidcAuthorization \<Rightarrow> OidcFormField list" where
  "authorizationFormFields a =
     [\<lparr>ff_name = lit ''response_type'', ff_value = oa_response_type a\<rparr>,
      \<lparr>ff_name = lit ''client_id'', ff_value = oa_client_id a\<rparr>,
      \<lparr>ff_name = lit ''redirect_uri'', ff_value = oa_redirect_uri a\<rparr>,
      \<lparr>ff_name = lit ''scope'', ff_value = oa_scope a\<rparr>,
      \<lparr>ff_name = lit ''state'', ff_value = oa_state a\<rparr>,
      \<lparr>ff_name = lit ''nonce'', ff_value = oa_nonce a\<rparr>,
      \<lparr>ff_name = lit ''code_challenge'', ff_value = oa_code_challenge a\<rparr>,
      \<lparr>ff_name = lit ''code_challenge_method'', ff_value = oa_code_challenge_method a\<rparr>]
     @ (case oa_response_mode a of
          None \<Rightarrow> []
        | Some m \<Rightarrow> [\<lparr>ff_name = lit ''response_mode'', ff_value = m\<rparr>])
     @ (case oa_prompt a of
          None \<Rightarrow> []
        | Some p \<Rightarrow> [\<lparr>ff_name = lit ''prompt'', ff_value = p\<rparr>])"

lemma resolve_Some_iff:
  "resolveAuthorizationContinue parse value origin = Some path \<longleftrightarrow>
     (\<exists>v u. value = StringValue v \<and> v \<noteq> [] \<and> parse v (origin @ lit ''/'') = Some u \<and>
        url_origin u = origin \<and> url_pathname u = authorizationPath \<and>
        path = authorizationPath @ url_search u)"
  by (auto simp: resolveAuthorizationContinue_def split: unknown.splits option.splits if_splits)

text \<open>
  The wire form of an authorization request: reading the form fields back by name, as the
  server's form decoder does, gives the request again.
\<close>

definition field_value :: "OidcFormField list \<Rightarrow> string \<Rightarrow> jsstr option" where
  "field_value fs n = map_option ff_value (find (\<lambda>f. ff_name f = lit n) fs)"

definition read_authorization :: "OidcFormField list \<Rightarrow> OidcAuthorization option" where
  "read_authorization fs =
     (case map (field_value fs) [''response_type'', ''client_id'', ''redirect_uri'', ''scope'',
         ''state'', ''nonce'', ''code_challenge'', ''code_challenge_method''] of
        [Some rt, Some ci, Some ru, Some sc, Some st, Some no, Some cc, Some cm] \<Rightarrow>
          Some \<lparr>oa_response_type = rt, oa_client_id = ci, oa_redirect_uri = ru, oa_scope = sc,
            oa_state = st, oa_nonce = no, oa_code_challenge = cc, oa_code_challenge_method = cm,
            oa_response_mode = field_value fs ''response_mode'', oa_prompt = field_value fs ''prompt''\<rparr>
      | _ \<Rightarrow> None)"

lemma read_authorization_fields: "read_authorization (authorizationFormFields a) = Some a"
  by (cases "oa_response_mode a"; cases "oa_prompt a")
    (simp_all add: read_authorization_def authorizationFormFields_def field_value_def)

lemma authorizationFormFields_distinct: "distinct (map ff_name (authorizationFormFields a))"
  by (cases "oa_response_mode a"; cases "oa_prompt a")
    (simp_all add: authorizationFormFields_def)

end
