(* ===== verification/Json_Text.thy ===== *)
theory Json_Text
  imports Portal_Types Js_String
begin

text \<open>
  \<open>JSON.stringify\<close> as the portal uses it to show a claim, on the JSON values of \<open>Portal_Types\<close>. The
  members of an object are in the order in which the platform enumerates them, and a number is
  an integer that the platform prints in full (of magnitude below 10 to the power of 21). Quoting
  follows the standard: control characters and surrogates without partner are escaped.

  A reader of such texts serves as the specification: what is printed can be read back.
\<close>

section \<open>Decimal numbers\<close>

fun decimal :: "nat \<Rightarrow> jsstr" where
  "decimal n = (if n < 10 then [0x30 + of_nat n] else decimal (n div 10) @ [0x30 + of_nat (n mod 10)])"

declare decimal.simps [simp del]

definition is_digit :: "code_unit \<Rightarrow> bool" where
  "is_digit c \<longleftrightarrow> 0x30 \<le> unat c \<and> unat c \<le> 0x39"

definition digits_value :: "jsstr \<Rightarrow> nat" where
  "digits_value = foldl (\<lambda>a c. 10 * a + (unat c - 0x30)) 0"

definition int_text :: "int \<Rightarrow> jsstr" where
  "int_text i = (if i < 0 then 0x2D # decimal (nat (- i)) else decimal (nat i))"

lemma digit_unit: "n < 10 \<Longrightarrow> unat (0x30 + of_nat n :: code_unit) = 0x30 + n"
  by (simp add: unat_word_ariths unat_of_nat)

lemma decimal_digits: "c \<in> set (decimal n) \<Longrightarrow> is_digit c"
proof (induction n rule: decimal.induct)
  case (1 n)
  then show ?case
    by (subst (asm) decimal.simps) (auto simp: is_digit_def digit_unit split: if_splits)
qed

lemma decimal_not_Nil [simp]: "decimal n \<noteq> []"
  by (subst decimal.simps) simp

lemma digits_value_decimal: "digits_value (decimal n) = n"
proof (induction n rule: decimal.induct)
  case (1 n)
  show ?case
  proof (cases "n < 10")
    case True
    then show ?thesis
      by (subst decimal.simps) (simp add: digits_value_def digit_unit)
  next
    case False
    with 1 have "digits_value (decimal (n div 10)) = n div 10"
      by simp
    with False show ?thesis
      by (subst decimal.simps) (simp add: digits_value_def digit_unit)
  qed
qed

section \<open>Strings\<close>

definition hex_lower :: "nat \<Rightarrow> code_unit" where
  "hex_lower n = of_nat (if n < 10 then 0x30 + n else 0x57 + n)"

definition unicode_escape :: "code_unit \<Rightarrow> jsstr" where
  "unicode_escape c = (let n = unat c in
     [0x5C, 0x75, hex_lower (n div 4096), hex_lower (n div 256 mod 16), hex_lower (n div 16 mod 16),
      hex_lower (n mod 16)])"

definition quote_unit :: "code_unit \<Rightarrow> jsstr" where
  "quote_unit c =
     (if c = 0x8 then [0x5C, 0x62] else if c = 0x9 then [0x5C, 0x74] else if c = 0xA then [0x5C, 0x6E]
      else if c = 0xC then [0x5C, 0x66] else if c = 0xD then [0x5C, 0x72]
      else if c = 0x22 then [0x5C, 0x22] else if c = 0x5C then [0x5C, 0x5C]
      else if unat c < 0x20 then unicode_escape c else [c])"

fun quote_units :: "jsstr \<Rightarrow> jsstr" where
  "quote_units [] = []"
| "quote_units (c # cs) =
     (if is_high c then
        (case cs of
           [] \<Rightarrow> unicode_escape c
         | l # ls \<Rightarrow> if is_low l then c # l # quote_units ls else unicode_escape c @ quote_units cs)
      else if is_low c then unicode_escape c @ quote_units cs
      else quote_unit c @ quote_units cs)"

definition quote_string :: "jsstr \<Rightarrow> jsstr" where
  "quote_string s = [0x22] @ quote_units s @ [0x22]"

section \<open>Values\<close>

fun json_stringify :: "json \<Rightarrow> jsstr" where
  "json_stringify JNull = lit ''null''"
| "json_stringify (JBool b) = lit (if b then ''true'' else ''false'')"
| "json_stringify (JNum i) = int_text i"
| "json_stringify (JStr s) = quote_string s"
| "json_stringify (JArr vs) = [0x5B] @ join [0x2C] (map json_stringify vs) @ [0x5D]"
| "json_stringify (JObj kvs) =
     [0x7B] @ join [0x2C] (map (\<lambda>(k, v). quote_string k @ [0x3A] @ json_stringify v) kvs) @ [0x7D]"

section \<open>Reading\<close>

definition hex_lower_value :: "code_unit \<Rightarrow> nat option" where
  "hex_lower_value c = (let n = unat c in
     if 0x30 \<le> n \<and> n \<le> 0x39 then Some (n - 0x30)
     else if 0x61 \<le> n \<and> n \<le> 0x66 then Some (n - 0x57) else None)"

definition escaped_unit :: "code_unit \<Rightarrow> code_unit option" where
  "escaped_unit e = map_of [(0x62, 0x8), (0x74, 0x9), (0x6E, 0xA), (0x66, 0xC), (0x72, 0xD),
     (0x22, 0x22), (0x5C, 0x5C)] e"

text \<open>What follows an opening quotation mark, up to the closing one, and the rest of the text.\<close>

fun unquote :: "jsstr \<Rightarrow> (jsstr \<times> jsstr) option" where
  "unquote [] = None"
| "unquote (c # cs) =
     (if c = 0x22 then Some ([], cs)
      else if c = 0x5C then
        (case cs of
           e # a1 # a2 # a3 # a4 # r \<Rightarrow>
             if e = 0x75 then
               (case (hex_lower_value a1, hex_lower_value a2, hex_lower_value a3, hex_lower_value a4) of
                  (Some n1, Some n2, Some n3, Some n4) \<Rightarrow>
                    map_option (map_prod ((#) (of_nat (4096 * n1 + 256 * n2 + 16 * n3 + n4))) id) (unquote r)
                | _ \<Rightarrow> None)
             else (case escaped_unit e of
                 None \<Rightarrow> None
               | Some x \<Rightarrow> map_option (map_prod ((#) x) id) (unquote (a1 # a2 # a3 # a4 # r)))
         | e # r \<Rightarrow> (case escaped_unit e of
               None \<Rightarrow> None | Some x \<Rightarrow> map_option (map_prod ((#) x) id) (unquote r))
         | [] \<Rightarrow> None)
      else map_option (map_prod ((#) c) id) (unquote cs))"

declare unquote.simps(2) [simp del]

lemma unquote_plain: "c \<noteq> 0x22 \<Longrightarrow> c \<noteq> 0x5C \<Longrightarrow> unquote (c # cs) = map_option (map_prod ((#) c) id) (unquote cs)"
  by (simp add: unquote.simps)

lemma unquote_escaped:
  "e \<noteq> 0x75 \<Longrightarrow> escaped_unit e = Some x \<Longrightarrow> unquote (0x5C # e # r) = map_option (map_prod ((#) x) id) (unquote r)"
  by (simp add: unquote.simps split: list.splits)

lemma hex_lower_value_hex: "n < 16 \<Longrightarrow> hex_lower_value (hex_lower n) = Some n"
  by (auto simp: hex_lower_value_def hex_lower_def unat_of_nat Let_def)

lemma hex_digits_sum:
  "4096 * (n div 4096) + 256 * (n div 256 mod 16) + 16 * (n div 16 mod 16) + n mod 16 = (n :: nat)"
proof -
  have "n div 256 = n div 16 div 16" "n div 4096 = n div 256 div 16"
    by (simp_all flip: div_mult2_eq)
  then show ?thesis
    using div_mult_mod_eq [of n 16] div_mult_mod_eq [of "n div 16" 16] div_mult_mod_eq [of "n div 256" 16]
    by linarith
qed

lemma unquote_unicode:
  "unquote (unicode_escape c @ r) = map_option (map_prod ((#) c) id) (unquote r)"
proof -
  have "unat c div 4096 < 16"
    using unat_lt_65536 [of c] by linarith
  moreover have "of_nat (4096 * (unat c div 4096) + 256 * (unat c div 256 mod 16)
      + 16 * (unat c div 16 mod 16) + unat c mod 16) = c"
    by (simp only: hex_digits_sum) simp
  ultimately show ?thesis
    by (simp add: unicode_escape_def Let_def unquote.simps hex_lower_value_hex)
qed

lemma unquote_unit:
  "unquote (quote_unit c @ r) = map_option (map_prod ((#) c) id) (unquote r)"
  by (simp add: quote_unit_def unquote_unicode unquote_escaped unquote_plain escaped_unit_def)

lemma surrogate_plain: "is_high c \<or> is_low c \<Longrightarrow> c \<noteq> 0x22 \<and> c \<noteq> 0x5C"
  by (auto simp: is_high_def is_low_def)

lemma unquote_quote: "unquote (quote_units s @ 0x22 # r) = Some (s, r)"
proof (induction s rule: quote_units.induct)
  case 1
  then show ?case by (simp add: unquote.simps)
next
  case (2 c cs)
  then show ?case
    using surrogate_plain [of c]
    by (auto simp: unquote_unicode unquote_unit unquote_plain surrogate_plain split: list.splits)
      (simp add: unquote.simps)
qed

text \<open>
  Reading a value: \<open>n\<close> bounds the nesting and the number of elements. \<open>read_items\<close> reads the
  elements of an array up to its bracket, \<open>read_members\<close> those of an object up to its brace.
\<close>

type_synonym 'a reading_result = "('a \<times> jsstr) option"

fun read_items :: "(jsstr \<Rightarrow> 'a reading_result) \<Rightarrow> code_unit \<Rightarrow> nat \<Rightarrow> jsstr \<Rightarrow> 'a list reading_result" where
  "read_items p close 0 t = None"
| "read_items p close (Suc n) t =
     (case p t of
        Some (v, c # r) \<Rightarrow>
          if c = close then Some ([v], r)
          else if c = 0x2C then map_option (map_prod ((#) v) id) (read_items p close n r)
          else None
      | _ \<Rightarrow> None)"

definition read_member :: "(jsstr \<Rightarrow> 'a reading_result) \<Rightarrow> jsstr \<Rightarrow> (jsstr \<times> 'a) reading_result" where
  "read_member p t = (case t of
     q # s \<Rightarrow> if q \<noteq> 0x22 then None
       else (case unquote s of
          Some (k, d # r) \<Rightarrow> if d = 0x3A then map_option (map_prod (Pair k) id) (p r) else None
        | _ \<Rightarrow> None)
   | [] \<Rightarrow> None)"

definition read_number :: "jsstr \<Rightarrow> json reading_result" where
  "read_number t =
     (let (neg, d) = (case t of c # r \<Rightarrow> if c = 0x2D then (True, r) else (False, t) | [] \<Rightarrow> (False, []));
          ds = takeWhile is_digit d;
          n = int (digits_value ds) in
      if ds = [] then None else Some (JNum (if neg then - n else n), dropWhile is_digit d))"

definition read_word :: "string \<Rightarrow> json \<Rightarrow> jsstr \<Rightarrow> json reading_result" where
  "read_word w v t = (if startsWith t (lit w) then Some (v, drop (length w) t) else None)"

fun read_value :: "nat \<Rightarrow> jsstr \<Rightarrow> json reading_result" where
  "read_value 0 t = None"
| "read_value (Suc n) t =
     (case t of
        [] \<Rightarrow> None
      | c # r \<Rightarrow>
          if c = 0x22 then map_option (map_prod JStr id) (unquote r)
          else if c = 0x5B then
            (if startsWith r [0x5D] then Some (JArr [], tl r)
             else map_option (map_prod JArr id) (read_items (read_value n) 0x5D n r))
          else if c = 0x7B then
            (if startsWith r [0x7D] then Some (JObj [], tl r)
             else map_option (map_prod JObj id) (read_items (read_member (read_value n)) 0x7D n r))
          else if c = 0x6E then read_word ''null'' JNull t
          else if c = 0x74 then read_word ''true'' (JBool True) t
          else if c = 0x66 then read_word ''false'' (JBool False) t
          else read_number t)"

definition read_json :: "jsstr \<Rightarrow> json option" where
  "read_json t = (case read_value (Suc (length t)) t of Some (v, []) \<Rightarrow> Some v | _ \<Rightarrow> None)"

section \<open>What is printed can be read\<close>

text \<open>A text that may follow a value: it does not begin with a digit.\<close>

definition value_end :: "jsstr \<Rightarrow> bool" where
  "value_end r \<longleftrightarrow> (case r of [] \<Rightarrow> True | c # _ \<Rightarrow> \<not> is_digit c)"

lemma value_end_Cons [simp]: "value_end (c # r) \<longleftrightarrow> \<not> is_digit c"
  by (simp add: value_end_def)

lemma delimiters_end [simp]: "\<not> is_digit 0x2C" "\<not> is_digit 0x5D" "\<not> is_digit 0x7D" "\<not> is_digit 0x2D"
  by (simp_all add: is_digit_def)

lemma takeWhile_decimal:
  "value_end r \<Longrightarrow> takeWhile is_digit (decimal n @ r) = decimal n \<and> dropWhile is_digit (decimal n @ r) = r"
  by (cases r) (auto simp: takeWhile_append2 dropWhile_append2 decimal_digits)

lemma decimal_hd: "\<exists>c cs. decimal n = c # cs \<and> is_digit c"
  using decimal_digits [of _ n] by (cases "decimal n") (auto intro: decimal_not_Nil [THEN notE])

lemma int_text_hd: "\<exists>c cs. int_text i = c # cs \<and> (c = 0x2D \<or> is_digit c)"
  using decimal_hd [of "nat i"] by (auto simp: int_text_def)

lemma read_number_int:
  assumes "value_end r"
  shows "read_number (int_text i @ r) = Some (JNum i, r)"
proof (cases "i < 0")
  case True
  with takeWhile_decimal [OF assms, of "nat (- i)"] show ?thesis
    by (simp add: read_number_def int_text_def digits_value_decimal)
next
  case False
  obtain c cs where "decimal (nat i) = c # cs" "is_digit c"
    using decimal_hd by blast
  moreover from this have "c \<noteq> 0x2D"
    by auto
  ultimately show ?thesis
    using False takeWhile_decimal [OF assms, of "nat i"] digits_value_decimal [of "nat i"]
    by (simp add: read_number_def int_text_def)
qed

lemma read_items_join:
  assumes "\<And>x r. x \<in> set xs \<Longrightarrow> value_end r \<Longrightarrow> p (f x @ r) = Some (x, r)"
    and "xs \<noteq> []" and "length xs \<le> n" and "\<not> is_digit close" and "close \<noteq> 0x2C"
  shows "read_items p close n (join [0x2C] (map f xs) @ close # r) = Some (xs, r)"
  using assms
proof (induction xs arbitrary: n)
  case (Cons x xs)
  then obtain m where n: "n = Suc m"
    by (cases n) auto
  show ?case
  proof (cases xs)
    case Nil
    with Cons.prems n show ?thesis
      by simp
  next
    case (Cons y ys)
    then have "read_items p close m (join [0x2C] (map f xs) @ close # r) = Some (xs, r)"
      using Cons.prems n by (intro Cons.IH) auto
    with Cons Cons.prems n show ?thesis
      by simp
  qed
qed simp

lemma read_member_text:
  assumes "\<And>r. value_end r \<Longrightarrow> p (f v @ r) = Some (v, r)" and "value_end r"
  shows "read_member p ((quote_string k @ [0x3A] @ f v) @ r) = Some ((k, v), r)"
  using assms by (simp add: read_member_def quote_string_def unquote_quote)

lemma stringify_hd:
  "json_stringify v \<noteq> [] \<and> hd (json_stringify v) \<noteq> 0x5D \<and> hd (json_stringify v) \<noteq> 0x7D"
proof (cases v)
  case (JNum i)
  then show ?thesis
    using int_text_hd [of i] by (auto simp: is_digit_def)
qed (auto simp: quote_string_def lit_def)

lemma length_size_list: "length xs \<le> size_list f xs"
  by (induction xs) auto

lemma join_not_close:
  assumes "xs \<noteq> []" and "\<And>x. f x \<noteq> [] \<and> hd (f x) \<noteq> c"
  shows "\<not> startsWith (join sep (map f xs) @ r) [c]"
  using assms(1) assms(2) [of "hd xs"] by (cases xs; cases "tl xs") (auto simp: startsWith_def hd_append neq_Nil_conv)

lemma read_value_stringify:
  "size v < n \<Longrightarrow> value_end r \<Longrightarrow> read_value n (json_stringify v @ r) = Some (v, r)"
proof (induction v arbitrary: n r)
  case JNull
  then show ?case
    by (cases n) (auto simp: lit_def read_word_def startsWith_def)
next
  case (JBool b)
  then show ?case
    by (cases n; cases b) (auto simp: lit_def read_word_def startsWith_def)
next
  case (JNum i)
  then obtain m where n: "n = Suc m"
    by (cases n) auto
  obtain c cs where t: "int_text i = c # cs" "c = 0x2D \<or> is_digit c"
    using int_text_hd by blast
  then have "c \<notin> {0x22, 0x5B, 0x7B, 0x6E, 0x74, 0x66}"
    by (auto simp: is_digit_def)
  with t n JNum.prems(2) read_number_int [of r i] show ?case
    by simp
next
  case (JStr s)
  then show ?case
    by (cases n) (auto simp: quote_string_def unquote_quote)
next
  case (JArr vs)
  then obtain m where n: "n = Suc m"
    by (cases n) auto
  show ?case
  proof (cases "vs = []")
    case True
    with n show ?thesis by (simp add: startsWith_def)
  next
    case False
    have "read_items (read_value m) 0x5D m (join [0x2C] (map json_stringify vs) @ 0x5D # r) = Some (vs, r)"
    proof (rule read_items_join)
      show "read_value m (json_stringify v @ r') = Some (v, r')" if "v \<in> set vs" "value_end r'" for v r'
        using that JArr.prems(1) n size_list_estimation' [of v vs "size v" size]
        by (intro JArr.IH) auto
      show "length vs \<le> m"
        using JArr.prems(1) n length_size_list [of vs size] by simp
    qed (use False in auto)
    moreover have "\<not> startsWith (join [0x2C] (map json_stringify vs) @ 0x5D # r) [0x5D]"
      using stringify_hd False by (intro join_not_close) auto
    ultimately show ?thesis
      using n by simp
  qed
next
  case (JObj kvs)
  then obtain m where n: "n = Suc m"
    by (cases n) auto
  let ?f = "\<lambda>(k, v). quote_string k @ [0x3A] @ json_stringify v"
  show ?case
  proof (cases "kvs = []")
    case True
    with n show ?thesis by (simp add: startsWith_def)
  next
    case False
    have "read_items (read_member (read_value m)) 0x7D m (join [0x2C] (map ?f kvs) @ 0x7D # r) = Some (kvs, r)"
    proof (rule read_items_join)
      fix kv r'
      assume kv: "kv \<in> set kvs" and r': "value_end r'"
      obtain k v where kv': "kv = (k, v)"
        by (cases kv)
      have "size v < m"
        using kv kv' JObj.prems(1) n
          size_list_estimation' [of kv kvs "size v" "size_prod (\<lambda>_. 0) size"] by simp
      then have "read_value m (json_stringify v @ q) = Some (v, q)" if "value_end q" for q
        using that kv kv' by (intro JObj.IH [of kv v]) auto
      from read_member_text [of "read_value m" json_stringify v, OF this r']
      show "read_member (read_value m) (?f kv @ r') = Some (kv, r')"
        by (simp add: kv')
    qed (use False JObj.prems(1) n length_size_list [of kvs "size_prod (\<lambda>_. 0) size"] in auto)
    moreover have "\<not> startsWith (join [0x2C] (map ?f kvs) @ 0x7D # r) [0x7D]"
      using False by (intro join_not_close) (auto simp: quote_string_def split: prod.splits)
    ultimately show ?thesis
      using n by simp
  qed
qed

lemma length_join:
  "xs \<noteq> [] \<Longrightarrow> (\<And>x. x \<in> set xs \<Longrightarrow> g x < length (f x) + 1) \<Longrightarrow>
    sum_list (map (\<lambda>x. Suc (g x)) xs) \<le> Suc (length (join [c] (map f xs)))"
proof (induction xs)
  case (Cons x xs)
  then have "g x \<le> length (f x)"
    by fastforce
  with Cons show ?case
    by (cases xs) auto
qed simp

lemma size_list_sum: "size_list g xs = sum_list (map (\<lambda>x. Suc (g x)) xs)"
  by (induction xs) auto

lemma size_stringify: "size v \<le> length (json_stringify v)"
proof (induction v)
  case (JArr vs)
  have "size_list size vs \<le> Suc (length (join [0x2C] (map json_stringify vs)))"
  proof (cases "vs = []")
    case False
    then show ?thesis
      unfolding size_list_sum by (rule length_join) (use JArr in \<open>simp add: le_imp_less_Suc\<close>)
  qed simp
  then show ?case
    by simp
next
  case (JObj kvs)
  let ?f = "\<lambda>(k, v). quote_string k @ [0x3A] @ json_stringify v"
  have "size_prod (\<lambda>_. 0) size kv < length (?f kv) + 1" if kv: "kv \<in> set kvs" for kv
    using JObj [OF kv, of "snd kv"] by (cases kv) (auto simp: quote_string_def)
  then have "size_list (size_prod (\<lambda>_. 0) size) kvs \<le> Suc (length (join [0x2C] (map ?f kvs)))"
    unfolding size_list_sum by (cases "kvs = []") (simp, rule length_join)
  then show ?case
    by simp
qed auto

lemma read_stringify: "read_json (json_stringify v) = Some v"
  using read_value_stringify [of v "Suc (length (json_stringify v))" "[]"] size_stringify [of v]
  by (simp add: read_json_def value_end_def le_imp_less_Suc)

end
