(* ===== verification/Async.thy ===== *)
theory Async
  imports Prelude
begin

text \<open>
  The asynchronous functions of the portal. An \<open>async\<close> program over a state \<open>'s\<close> is a tree:
  \<open>Ret\<close> and \<open>Thr\<close> are a fulfilled and a rejected promise, \<open>Act\<close> is code that runs without
  giving up control, \<open>Await q k\<close> suspends on the external query \<open>q\<close> (a fetch, reading a
  body, a confirmation dialogue, a navigation) and resumes with its answer, and
  \<open>All cs k h\<close> is \<open>Promise.all\<close> over the children \<open>cs\<close>: it goes on with \<open>k\<close> when all of
  them have finished and with \<open>h e\<close> as soon as one is rejected with \<open>e\<close>; the other children
  are then not cancelled but keep running detached. \<open>Stop\<close> is a finished child, whose value
  is not used.

  \<open>start\<close> runs a program up to its suspension points, as the call of an async function does;
  the children of \<open>All\<close> are started in order before any of them is resumed. \<open>answer i r\<close>
  resumes the \<open>i\<close>-th suspended query of a pool of programs. Between two answers the code is
  atomic, as in the event loop. \<open>reachable\<close> closes this under any order of answers and any
  new calls that the user interface allows.

  The second half is a calculus of obligations: every program owns a multiset of tokens, and a
  locale relates the tokens of all running programs to the shared state.
\<close>

section \<open>Programs\<close>

datatype (dead 's, dead 'q, dead 'r, dead 'e, dead 'a) async =
    Ret 'a
  | Stop
  | Thr 'e
  | Act "'s \<Rightarrow> 's \<times> ('s, 'q, 'r, 'e, 'a) async"
  | Await 'q "'r \<Rightarrow> ('s, 'q, 'r, 'e, 'a) async"
  | All "('s, 'q, 'r, 'e, 'a) async list" "('s, 'q, 'r, 'e, 'a) async"
      "'e \<Rightarrow> ('s, 'q, 'r, 'e, 'a) async"

primrec handle ::
  "('s, 'q, 'r, 'e, 'a) async \<Rightarrow> ('e + 'a \<Rightarrow> ('s, 'q, 'r, 'e, 'b) async) \<Rightarrow>
   ('s, 'q, 'r, 'e, 'b) async" where
  "handle (Ret a) k = k (Inr a)"
| "handle Stop k = Stop"
| "handle (Thr e) k = k (Inl e)"
| "handle (Act f) k = Act (\<lambda>s. map_prod id (\<lambda>m. handle m k) (f s))"
| "handle (Await q c) k = Await q (\<lambda>r. handle (c r) k)"
| "handle (All cs m h) k =
     All (map (\<lambda>c. handle c (case_sum Thr (\<lambda>_. Stop))) cs) (handle m k) (\<lambda>e. handle (h e) k)"

text \<open>
  \<open>await m\<close> followed by the rest of the function, \<open>m\<close> with its result dropped, \<open>try ... catch\<close>, \<open>try ... finally\<close>, a
  synchronous update, \<open>flag = true; try ... finally { flag = false }\<close>, a read of the state, and \<open>await Promise.all([...])\<close>.
\<close>

definition andThen where
  "andThen m f = handle m (case_sum Thr f)"

definition seqThen where
  "seqThen m n = andThen m (\<lambda>_. n)"

definition void where
  "void m = seqThen m (Ret ())"

definition catching where
  "catching m h = handle m (case_sum h Ret)"

definition finallyDo where
  "finallyDo m f = handle m (\<lambda>r. Act (\<lambda>s. (f s, case_sum Thr Ret r)))"

definition modify :: "('s \<Rightarrow> 's) \<Rightarrow> ('s, 'q, 'r, 'e, unit) async" where
  "modify f = Act (\<lambda>s. (f s, Ret ()))"

definition withFlag ::
  "(bool \<Rightarrow> 's \<Rightarrow> 's) \<Rightarrow> ('s, 'q, 'r, 'e, 'a) async \<Rightarrow> ('s, 'q, 'r, 'e, 'a) async" where
  "withFlag up m = seqThen (modify (up True)) (finallyDo m (up False))"

definition reading :: "('s \<Rightarrow> ('s, 'q, 'r, 'e, 'a) async) \<Rightarrow> ('s, 'q, 'r, 'e, 'a) async" where
  "reading f = Act (\<lambda>s. (s, f s))"

definition promiseAll ::
  "('s, 'q, 'r, 'e, unit) async list \<Rightarrow> ('s, 'q, 'r, 'e, unit) async" where
  "promiseAll ms = All (map (\<lambda>m. seqThen m Stop) ms) (Ret ()) Thr"

lemmas async_defs [js_eval] =
  andThen_def seqThen_def void_def catching_def finallyDo_def modify_def withFlag_def reading_def promiseAll_def

section \<open>Running\<close>

fun finished :: "('s, 'q, 'r, 'e, 'a) async \<Rightarrow> bool" where
  "finished (Ret a) = True"
| "finished Stop = True"
| "finished (Thr e) = True"
| "finished _ = False"

fun rejection :: "('s, 'q, 'r, 'e, 'a) async list \<Rightarrow> 'e option" where
  "rejection [] = None"
| "rejection (Thr e # cs) = Some e"
| "rejection (_ # cs) = rejection cs"

type_synonym ('s, 'q, 'r, 'e, 'a) started =
  "'s \<times> ('s, 'q, 'r, 'e, 'a) async \<times> ('s, 'q, 'r, 'e, 'a) async list"

text \<open>
  \<open>settle\<close>: what becomes of a \<open>Promise.all\<close> whose children are now \<open>cs\<close>. \<open>ds\<close> are the
  programs detached so far.
\<close>

definition settle ::
  "('s \<Rightarrow> ('s, 'q, 'r, 'e, 'a) started) \<Rightarrow> ('e \<Rightarrow> 's \<Rightarrow> ('s, 'q, 'r, 'e, 'a) started) \<Rightarrow>
   ('s, 'q, 'r, 'e, 'a) async \<Rightarrow> ('e \<Rightarrow> ('s, 'q, 'r, 'e, 'a) async) \<Rightarrow>
   's \<times> ('s, 'q, 'r, 'e, 'a) async list \<times> ('s, 'q, 'r, 'e, 'a) async list \<Rightarrow>
   ('s, 'q, 'r, 'e, 'a) started" where
  "settle go_k go_h k h = (\<lambda>(s, cs, ds).
     case rejection cs of
       Some e \<Rightarrow> (case go_h e s of (s', m, ds') \<Rightarrow> (s', m, ds @ filter (\<lambda>c. \<not> finished c) cs @ ds'))
     | None \<Rightarrow>
         if list_all finished cs then (case go_k s of (s', m, ds') \<Rightarrow> (s', m, ds @ ds'))
         else (s, All cs k h, ds))"

fun start_list ::
  "('s \<Rightarrow> ('s, 'q, 'r, 'e, 'a) started) list \<Rightarrow> 's \<Rightarrow>
   's \<times> ('s, 'q, 'r, 'e, 'a) async list \<times> ('s, 'q, 'r, 'e, 'a) async list" where
  "start_list [] s = (s, [], [])"
| "start_list (g # gs) s =
     (case g s of (s1, m, ds) \<Rightarrow>
      case start_list gs s1 of (s2, ms, ds') \<Rightarrow> (s2, m # ms, ds @ ds'))"

primrec start :: "('s, 'q, 'r, 'e, 'a) async \<Rightarrow> 's \<Rightarrow> ('s, 'q, 'r, 'e, 'a) started" where
  "start (Ret a) = (\<lambda>s. (s, Ret a, []))"
| "start Stop = (\<lambda>s. (s, Stop, []))"
| "start (Thr e) = (\<lambda>s. (s, Thr e, []))"
| "start (Act f) = (\<lambda>s. case map_prod id start (f s) of (s', go) \<Rightarrow> go s')"
| "start (Await q k) = (\<lambda>s. (s, Await q k, []))"
| "start (All cs k h) =
     (\<lambda>s. settle (start k) (\<lambda>e. start (h e)) k (\<lambda>e. id (h e)) (start_list (map start cs) s))"

text \<open>The queries on which a program is suspended, from left to right.\<close>

primrec waits :: "('s, 'q, 'r, 'e, 'a) async \<Rightarrow> 'q list" where
  "waits (Ret a) = []"
| "waits Stop = []"
| "waits (Thr e) = []"
| "waits (Act f) = []"
| "waits (Await q k) = [q]"
| "waits (All cs k h) = concat (map waits cs)"

fun deliver_list ::
  "(('s, 'q, 'r, 'e, 'a) async \<times> nat \<times> (nat \<Rightarrow> 'r \<Rightarrow> 's \<Rightarrow> ('s, 'q, 'r, 'e, 'a) started option)) list \<Rightarrow>
   nat \<Rightarrow> 'r \<Rightarrow> 's \<Rightarrow>
   ('s \<times> ('s, 'q, 'r, 'e, 'a) async list \<times> ('s, 'q, 'r, 'e, 'a) async list) option" where
  "deliver_list [] i r s = None"
| "deliver_list ((c, n, d) # xs) i r s =
     (if i < n then
        (case d i r s of
           None \<Rightarrow> None
         | Some (s', c', ds) \<Rightarrow> Some (s', c' # map fst xs, ds))
      else
        (case deliver_list xs (i - n) r s of
           None \<Rightarrow> None
         | Some (s', cs, ds) \<Rightarrow> Some (s', c # cs, ds)))"

primrec deliver ::
  "('s, 'q, 'r, 'e, 'a) async \<Rightarrow> nat \<Rightarrow> 'r \<Rightarrow> 's \<Rightarrow> ('s, 'q, 'r, 'e, 'a) started option" where
  "deliver (Ret a) = (\<lambda>i r s. None)"
| "deliver Stop = (\<lambda>i r s. None)"
| "deliver (Thr e) = (\<lambda>i r s. None)"
| "deliver (Act f) = (\<lambda>i r s. None)"
| "deliver (Await q k) = (\<lambda>i r s. if i = 0 then Some (start (k r) s) else None)"
| "deliver (All cs k h) =
     (\<lambda>i r s.
        map_option (settle (start k) (\<lambda>e. start (h e)) k (\<lambda>e. id (h e)))
          (deliver_list (map (\<lambda>c. (c, length (waits c), deliver c)) cs) i r s))"

subsection \<open>Pools of running programs\<close>

type_synonym ('s, 'q, 'r, 'e, 'a) config = "'s \<times> ('s, 'q, 'r, 'e, 'a) async list"

definition call ::
  "('s, 'q, 'r, 'e, 'a) async \<Rightarrow> ('s, 'q, 'r, 'e, 'a) config \<Rightarrow> ('s, 'q, 'r, 'e, 'a) config" where
  "call m = (\<lambda>(s, ms). case start m s of (s', m', ds) \<Rightarrow> (s', ms @ m' # ds))"

definition answer ::
  "nat \<Rightarrow> 'r \<Rightarrow> ('s, 'q, 'r, 'e, 'a) config \<Rightarrow> ('s, 'q, 'r, 'e, 'a) config" where
  "answer i r = (\<lambda>(s, ms).
     case deliver_list (map (\<lambda>c. (c, length (waits c), deliver c)) ms) i r s of
       None \<Rightarrow> (s, ms)
     | Some (s', ms', ds) \<Rightarrow> (s', ms' @ ds))"

definition pool_waits :: "('s, 'q, 'r, 'e, 'a) config \<Rightarrow> 'q list" where
  "pool_waits c = concat (map waits (snd c))"

definition idle :: "('s, 'q, 'r, 'e, 'a) config \<Rightarrow> bool" where
  "idle c \<longleftrightarrow> list_all finished (snd c)"

text \<open>
  A schedule answers suspended queries in any order. \<open>feed\<close> is the schedule that always
  answers the first one; it also returns the queries it answered.
\<close>

fun schedule ::
  "(nat \<times> 'r) list \<Rightarrow> ('s, 'q, 'r, 'e, 'a) config \<Rightarrow> ('s, 'q, 'r, 'e, 'a) config" where
  "schedule [] c = c"
| "schedule ((i, r) # xs) c = schedule xs (answer i r c)"

fun feed ::
  "'r list \<Rightarrow> ('s, 'q, 'r, 'e, 'a) config \<Rightarrow> 'q list \<times> ('s, 'q, 'r, 'e, 'a) config" where
  "feed [] c = ([], c)"
| "feed (r # rs) c =
     (case pool_waits c of
        [] \<Rightarrow> ([], c)
      | q # _ \<Rightarrow> (case feed rs (answer 0 r c) of (qs, c') \<Rightarrow> (q # qs, c')))"

definition run ::
  "('s, 'q, 'r, 'e, 'a) async \<Rightarrow> 'r list \<Rightarrow> 's \<Rightarrow> 'q list \<times> ('s, 'q, 'r, 'e, 'a) config" where
  "run m rs s = feed rs (call m (s, []))"

inductive reachable ::
  "('s \<Rightarrow> ('s, 'q, 'r, 'e, 'a) async \<Rightarrow> bool) \<Rightarrow> 's \<Rightarrow> ('s, 'q, 'r, 'e, 'a) config \<Rightarrow> bool"
  for may_call :: "'s \<Rightarrow> ('s, 'q, 'r, 'e, 'a) async \<Rightarrow> bool" and s0 :: 's where
  reach_init: "reachable may_call s0 (s0, [])"
| reach_call: "reachable may_call s0 c \<Longrightarrow> may_call (fst c) m \<Longrightarrow> reachable may_call s0 (call m c)"
| reach_answer: "reachable may_call s0 c \<Longrightarrow> reachable may_call s0 (answer i r c)"

lemma reachable_schedule:
  "reachable may_call s0 c \<Longrightarrow> reachable may_call s0 (schedule xs c)"
  by (induction xs c rule: schedule.induct) (auto intro: reach_answer)

lemma feed_ended [simp]: "pool_waits c = [] \<Longrightarrow> feed rs c = ([], c)"
  by (cases rs) simp_all

lemma reachable_feed:
  "reachable may_call s0 c \<Longrightarrow> reachable may_call s0 (snd (feed rs c))"
proof (induction rs arbitrary: c)
  case (Cons r rs)
  then have "reachable may_call s0 (snd (feed rs (answer 0 r c)))"
    by (blast intro: reach_answer)
  with Cons.prems show ?case
    by (auto split: list.splits prod.splits)
qed simp

declare start.simps(6) [simp del] deliver.simps(6) [simp del]

lemma start_All [simp]:
  "start (All cs k h) s = settle (start k) (\<lambda>e. start (h e)) k h (start_list (map start cs) s)"
  by (simp add: start.simps)

lemma deliver_All [simp]:
  "deliver (All cs k h) i r s =
     map_option (settle (start k) (\<lambda>e. start (h e)) k h)
       (deliver_list (map (\<lambda>c. (c, length (waits c), deliver c)) cs) i r s)"
  by (simp add: deliver.simps)

text \<open>An answer reaches one program of the pool and leaves the places of all others.\<close>

lemma deliver_list_at:
  "deliver_list (map (\<lambda>c. (c, length (waits c), deliver c)) cs) i r s = Some (s', cs', ds) \<Longrightarrow>
    \<exists>k i' c'. k < length cs \<and> deliver (cs ! k) i' r s = Some (s', c', ds) \<and> cs' = cs[k := c']"
proof (induction cs arbitrary: i cs')
  case (Cons c cs)
  show ?case
  proof (cases "i < length (waits c)")
    case True
    with Cons.prems obtain c' where "deliver c i r s = Some (s', c', ds)" "cs' = c' # cs"
      by (auto simp: comp_def split: option.splits)
    then show ?thesis
      by (intro exI [of _ 0] exI [of _ i] exI [of _ c']) simp
  next
    case False
    with Cons.prems obtain cs1 where cs1: "cs' = c # cs1"
      "deliver_list (map (\<lambda>c. (c, length (waits c), deliver c)) cs) (i - length (waits c)) r s =
        Some (s', cs1, ds)"
      by (auto split: option.splits)
    from Cons.IH [OF cs1(2)] obtain k i' c' where
      "k < length cs" "deliver (cs ! k) i' r s = Some (s', c', ds)" "cs1 = cs[k := c']"
      by blast
    with cs1(1) show ?thesis
      by (intro exI [of _ "Suc k"] exI [of _ i'] exI [of _ c']) simp
  qed
qed simp

lemma answer_at:
  obtains "answer i r c = c"
  | k i' s' c' ds where "k < length (snd c)" "deliver (snd c ! k) i' r (fst c) = Some (s', c', ds)"
      "answer i r c = (s', (snd c)[k := c'] @ ds)"
proof (cases "deliver_list (map (\<lambda>c. (c, length (waits c), deliver c)) (snd c)) i r (fst c)")
  case None
  then show ?thesis
    by (intro that(1)) (cases c, simp add: answer_def)
next
  case (Some x)
  obtain s' ms' ds where x: "x = (s', ms', ds)"
    by (cases x)
  from deliver_list_at [OF Some [unfolded x]] obtain k i' c' where
    "k < length (snd c)" "deliver (snd c ! k) i' r (fst c) = Some (s', c', ds)" "ms' = (snd c)[k := c']"
    by blast
  moreover from this(3) Some x have "answer i r c = (s', (snd c)[k := c'] @ ds)"
    by (auto simp: answer_def split: prod.splits)
  ultimately show ?thesis
    using that(2) by blast
qed

section \<open>Obligations\<close>

text \<open>
  \<open>obeys ok may G m Q\<close>: a program that holds the tokens \<open>G\<close> changes the state and its tokens
  only as \<open>may\<close> permits, holds tokens that satisfy \<open>ok\<close> while it is suspended (\<open>ok None\<close> for
  the tokens that a caller of \<open>Promise.all\<close> keeps), and holds \<open>Q\<close> when it has finished.
\<close>

inductive obeys ::
  "('q option \<Rightarrow> 't multiset \<Rightarrow> bool) \<Rightarrow> ('s \<Rightarrow> 't multiset \<Rightarrow> 's \<Rightarrow> 't multiset \<Rightarrow> bool) \<Rightarrow>
   't multiset \<Rightarrow> ('s, 'q, 'r, 'e, 'a) async \<Rightarrow> 't multiset \<Rightarrow> bool"
  for ok :: "'q option \<Rightarrow> 't multiset \<Rightarrow> bool"
    and may :: "'s \<Rightarrow> 't multiset \<Rightarrow> 's \<Rightarrow> 't multiset \<Rightarrow> bool" where
  obeys_Ret: "obeys ok may Q (Ret a) Q"
| obeys_Stop: "obeys ok may {#} Stop Q"
| obeys_Thr: "obeys ok may Q (Thr e) Q"
| obeys_Act: "(\<And>s. \<exists>G'. may s G (fst (f s)) G' \<and> obeys ok may G' (snd (f s)) Q) \<Longrightarrow>
    obeys ok may G (Act f) Q"
| obeys_Await: "ok (Some q) G \<Longrightarrow> (\<And>r. obeys ok may G (k r) Q) \<Longrightarrow> obeys ok may G (Await q k) Q"
| obeys_All: "list_all2 (\<lambda>G c. obeys ok may G c {#}) Gs cs \<Longrightarrow> ok None P \<Longrightarrow>
    obeys ok may P k Q \<Longrightarrow> (\<And>e. obeys ok may P (h e) Q) \<Longrightarrow>
    obeys ok may (sum_list Gs + P) (All cs k h) Q"

inductive_cases obeys_RetE: "obeys ok may G (Ret a) Q"
inductive_cases obeys_StopE: "obeys ok may G Stop Q"
inductive_cases obeys_ThrE: "obeys ok may G (Thr e) Q"
inductive_cases obeys_AwaitE: "obeys ok may G (Await q k) Q"
inductive_cases obeys_AllE: "obeys ok may G (All cs k h) Q"

lemma obeys_void: "obeys ok may {#} (case_sum Thr (\<lambda>_. Stop) r) {#}"
  by (cases r) (auto intro: obeys_Stop obeys_Thr)

lemma sum_list_empties [simp]: "sum_list (replicate n {#}) = {#}"
  by (induction n) auto

lemma not_in_nth:
  assumes "g \<notin># sum_list Gs" and "i < length Gs"
  shows "g \<notin># Gs ! i"
  using assms by (induction Gs arbitrary: i) (auto simp: less_Suc_eq_0_disj)

lemma obeys_handle:
  fixes m :: "('s, 'q, 'r, 'e, 'a) async" and k :: "'e + 'a \<Rightarrow> ('s, 'q, 'r, 'e, 'b) async"
  assumes "obeys ok may G m Q" and "\<And>r. obeys ok may Q (k r) R"
  shows "obeys ok may G (handle m k) R"
  using assms
proof (induction arbitrary: k R rule: obeys.induct)
  case (obeys_Act G f Q)
  show ?case
    unfolding handle.simps
  proof (rule obeys.obeys_Act)
    fix s
    from obeys_Act.IH [of s] obeys_Act.prems
    show "\<exists>G'. may s G (fst (map_prod id (\<lambda>m. handle m k) (f s))) G' \<and>
        obeys ok may G' (snd (map_prod id (\<lambda>m. handle m k) (f s))) R"
      by (cases "f s") fastforce
  qed
next
  case (obeys_All Gs cs P kk Q h)
  have "list_all2 (\<lambda>G c. obeys ok may G
      (handle c (case_sum Thr (\<lambda>_. Stop)) :: ('s, 'q, 'r, 'e, 'b) async) {#}) Gs cs"
    using obeys_All.IH(1) by (rule list_all2_mono) (use obeys_void in blast)
  then show ?case
    unfolding handle.simps
    by (intro obeys.obeys_All)
      (auto simp: list_all2_map2 intro: obeys_All.IH obeys_All.hyps obeys_All.prems)
qed (auto intro: obeys.intros)

lemma obeys_andThen [obeys_intro]:
  "obeys ok may G m Q \<Longrightarrow> (\<And>a. obeys ok may Q (f a) Q) \<Longrightarrow> obeys ok may G (andThen m f) Q"
  by (auto simp: andThen_def intro!: obeys_handle obeys_Thr split: sum.splits)

lemma obeys_seqThen [obeys_intro]:
  "obeys ok may G m Q \<Longrightarrow> obeys ok may Q n Q \<Longrightarrow> obeys ok may G (seqThen m n) Q"
  by (simp add: seqThen_def obeys_andThen)

lemma obeys_void_of [obeys_intro]:
  "obeys ok may G m Q \<Longrightarrow> obeys ok may G (void m) Q"
  by (simp add: void_def obeys_seqThen obeys_Ret)

lemma obeys_catching [obeys_intro]:
  "obeys ok may G m Q \<Longrightarrow> (\<And>e. obeys ok may Q (h e) Q) \<Longrightarrow> obeys ok may G (catching m h) Q"
  by (auto simp: catching_def intro!: obeys_handle obeys_Ret split: sum.splits)

lemma obeys_finallyDo:
  "obeys ok may G m Q \<Longrightarrow> (\<And>s. may s Q (f s) R) \<Longrightarrow> obeys ok may G (finallyDo m f) R"
  unfolding finallyDo_def
  by (erule obeys_handle, rule obeys_Act, rule exI [of _ R])
    (auto intro: obeys_Ret obeys_Thr split: sum.splits)

lemma obeys_modify: "(\<And>s. may s G (f s) Q) \<Longrightarrow> obeys ok may G (modify f) Q"
  unfolding modify_def by (rule obeys_Act) (auto intro: obeys_Ret)

lemma seqThen_modify: "seqThen (modify f) n = Act (\<lambda>s. (f s, n))"
  by (simp add: async_defs)

lemma obeys_modify_seq:
  "(\<And>s. may s G (f s) G') \<Longrightarrow> obeys ok may G' n Q \<Longrightarrow> obeys ok may G (seqThen (modify f) n) Q"
  unfolding seqThen_modify by (rule obeys_Act) auto

lemma obeys_reading [obeys_intro]:
  "(\<And>s. may s G s G) \<Longrightarrow> (\<And>s. obeys ok may G (f s) Q) \<Longrightarrow> obeys ok may G (reading f) Q"
  unfolding reading_def by (rule obeys_Act) auto

lemma obeys_promiseAll [obeys_intro]:
  assumes "list_all (\<lambda>m. obeys ok may {#} m {#}) ms" and "ok None Q"
  shows "obeys ok may Q (promiseAll ms) Q"
proof -
  have "list_all2 (\<lambda>G c. obeys ok may G c {#}) (replicate (length ms) {#})
      (map (\<lambda>m. seqThen m Stop) ms)"
    using assms(1)
    by (induction ms) (auto simp: seqThen_def andThen_def intro!: obeys_handle
        intro: obeys_Stop obeys_Thr split: sum.splits)
  then have "obeys ok may (sum_list (replicate (length ms) {#}) + Q) (promiseAll ms) Q"
    unfolding promiseAll_def by (rule obeys_All) (auto intro: assms(2) obeys_Ret obeys_Thr)
  then show ?thesis
    by simp
qed

lemma obeys_if [obeys_intro]:
  "(b \<Longrightarrow> obeys ok may G m Q) \<Longrightarrow> (\<not> b \<Longrightarrow> obeys ok may G n Q) \<Longrightarrow>
    obeys ok may G (if b then m else n) Q"
  by simp

lemma obeys_case_option [obeys_intro]:
  "(x = None \<Longrightarrow> obeys ok may G m Q) \<Longrightarrow> (\<And>y. x = Some y \<Longrightarrow> obeys ok may G (n y) Q) \<Longrightarrow>
    obeys ok may G (case x of None \<Rightarrow> m | Some y \<Rightarrow> n y) Q"
  by (cases x) simp_all

subsection \<open>Soundness\<close>

text \<open>
  The interface between a shared state and the programs that run over it: \<open>Inv\<close> relates the
  state to the tokens of all running programs, and a permitted change of one program keeps it
  whatever the others hold. Then every reachable configuration satisfies \<open>Inv\<close>.
\<close>

locale obligations =
  fixes ok :: "'q option \<Rightarrow> 't multiset \<Rightarrow> bool"
    and may :: "'s \<Rightarrow> 't multiset \<Rightarrow> 's \<Rightarrow> 't multiset \<Rightarrow> bool"
    and Inv :: "'s \<Rightarrow> 't multiset \<Rightarrow> bool"
  assumes may_Inv: "may s G s' G' \<Longrightarrow> Inv s (G + F) \<Longrightarrow> Inv s' (G' + F)"
begin

definition owns :: "'t multiset list \<Rightarrow> ('s, 'q, 'r, 'e, 'a) async list \<Rightarrow> bool" where
  "owns Gs cs \<longleftrightarrow> list_all2 (\<lambda>G c. obeys ok may G c {#}) Gs cs"

definition kept :: "'t multiset \<Rightarrow> 't multiset \<Rightarrow> ('s, 'q, 'r, 'e, 'a) started \<Rightarrow> bool" where
  "kept Q F = (\<lambda>(s, m, ds). \<exists>G Gs. obeys ok may G m Q \<and> owns Gs ds \<and> Inv s (G + sum_list Gs + F))"

definition kept_list ::
  "'t multiset \<Rightarrow> 's \<times> ('s, 'q, 'r, 'e, 'a) async list \<times> ('s, 'q, 'r, 'e, 'a) async list \<Rightarrow> bool" where
  "kept_list F = (\<lambda>(s, cs, ds). \<exists>Gs Hs. owns Gs cs \<and> owns Hs ds \<and>
     Inv s (sum_list Gs + sum_list Hs + F))"

lemma keptI:
  "obeys ok may G m Q \<Longrightarrow> owns Gs ds \<Longrightarrow> Inv s (G + sum_list Gs + F) \<Longrightarrow> kept Q F (s, m, ds)"
  by (auto simp: kept_def)

lemma keptE:
  assumes "kept Q F (s, m, ds)"
  obtains G Gs where "obeys ok may G m Q" "owns Gs ds" "Inv s (G + sum_list Gs + F)"
  using assms by (auto simp: kept_def)

lemma owns_Nil [simp]: "owns [] []"
  by (simp add: owns_def)

lemma owns_Cons: "obeys ok may G c {#} \<Longrightarrow> owns Gs cs \<Longrightarrow> owns (G # Gs) (c # cs)"
  by (simp add: owns_def)

lemma owns_append: "owns Gs cs \<Longrightarrow> owns Hs ds \<Longrightarrow> owns (Gs @ Hs) (cs @ ds)"
  by (simp add: owns_def list_all2_appendI)

lemma finished_empty: "obeys ok may G c {#} \<Longrightarrow> finished c \<Longrightarrow> G = {#}"
  by (cases c) (auto elim: obeys_RetE obeys_StopE obeys_ThrE)

lemma owns_running:
  "owns Gs cs \<Longrightarrow> \<exists>Hs. owns Hs (filter (\<lambda>c. \<not> finished c) cs) \<and> sum_list Hs = sum_list Gs"
  unfolding owns_def
proof (induction rule: list_all2_induct)
  case (Cons G Gs c cs)
  then obtain Hs where Hs: "list_all2 (\<lambda>G c. obeys ok may G c {#}) Hs (filter (\<lambda>c. \<not> finished c) cs)"
    "sum_list Hs = sum_list Gs"
    by blast
  show ?case
  proof (cases "finished c")
    case True
    with Cons.hyps(1) finished_empty have "G = {#}"
      by blast
    with True Hs show ?thesis by auto
  next
    case False
    with Hs Cons.hyps(1) show ?thesis
      by (auto intro!: exI [of _ "G # Hs"])
  qed
qed simp

lemma owns_finished: "owns Gs cs \<Longrightarrow> list_all finished cs \<Longrightarrow> sum_list Gs = {#}"
  unfolding owns_def
  by (induction rule: list_all2_induct) (auto dest: finished_empty)

lemma kept_extend:
  assumes "kept Q (sum_list Hs + F) (s, m, ds')" and "owns Hs ds"
  shows "kept Q F (s, m, ds @ ds')"
proof -
  from assms(1) obtain G Gs where "obeys ok may G m Q" "owns Gs ds'"
    "Inv s (G + sum_list Gs + (sum_list Hs + F))"
    by (rule keptE)
  moreover from this assms(2) have "owns (Hs @ Gs) (ds @ ds')"
    "Inv s (G + sum_list (Hs @ Gs) + F)"
    by (auto intro!: owns_append simp: ac_simps)
  ultimately show ?thesis
    by (blast intro: keptI)
qed

lemma settle_kept:
  assumes own: "owns Gs cs" "owns Hs ds" and inv: "Inv s (sum_list Gs + sum_list Hs + (P + F))"
    and k: "\<And>s F. Inv s (P + F) \<Longrightarrow> kept Q F (go_k s)" "obeys ok may P k Q"
    and h: "\<And>e s F. Inv s (P + F) \<Longrightarrow> kept Q F (go_h e s)" "\<And>e. obeys ok may P (h e) Q"
    and ok: "ok None P"
  shows "kept Q F (settle go_k go_h k h (s, cs, ds))"
proof (cases "rejection cs")
  case (Some e)
  from owns_running [OF own(1)] obtain Rs
    where Rs: "owns Rs (filter (\<lambda>c. \<not> finished c) cs)" "sum_list Rs = sum_list Gs"
    by blast
  from inv have "Inv s (P + (sum_list (Hs @ Rs) + F))"
    by (simp add: Rs(2) ac_simps)
  from h(1) [OF this, of e] have "kept Q (sum_list (Hs @ Rs) + F) (go_h e s)" .
  moreover from own(2) Rs(1) have "owns (Hs @ Rs) (ds @ filter (\<lambda>c. \<not> finished c) cs)"
    by (rule owns_append)
  ultimately show ?thesis
    using Some kept_extend by (fastforce simp: settle_def split: prod.splits simp del: sum_list_append)
next
  case None
  show ?thesis
  proof (cases "list_all finished cs")
    case True
    with own(1) owns_finished inv have "Inv s (P + (sum_list Hs + F))"
      by (fastforce simp: ac_simps)
    from k(1) [OF this] own(2) None True kept_extend show ?thesis
      by (fastforce simp: settle_def split: prod.splits)
  next
    case False
    have "obeys ok may (sum_list Gs + P) (All cs k h) Q"
      using own(1) ok k(2) h(2) unfolding owns_def by (rule obeys_All)
    moreover from inv have "Inv s (sum_list Gs + P + sum_list Hs + F)"
      by (simp add: ac_simps)
    ultimately show ?thesis
      using None False own(2) by (auto simp: settle_def intro: keptI)
  qed
qed

lemma start_list_kept:
  assumes "list_all2 (\<lambda>G c. \<forall>s F. Inv s (G + F) \<longrightarrow> kept {#} F (start c s)) Gs cs"
    and "Inv s (sum_list Gs + F)"
  shows "case start_list (map start cs) s of (s', cs', ds) \<Rightarrow>
    \<exists>Gs Hs. owns Gs cs' \<and> owns Hs ds \<and> Inv s' (sum_list Gs + sum_list Hs + F)"
  using assms
proof (induction arbitrary: s F rule: list_all2_induct)
  case Nil
  then show ?case by (auto intro!: exI [of _ "[]"])
next
  case (Cons G Gs c cs)
  obtain s1 m ds where st: "start c s = (s1, m, ds)"
    by (cases "start c s")
  from Cons.prems have "Inv s (G + (sum_list Gs + F))"
    by (simp add: ac_simps)
  with Cons.hyps(1) st obtain G1 H1 where one: "obeys ok may G1 m {#}" "owns H1 ds"
    "Inv s1 (G1 + sum_list H1 + (sum_list Gs + F))"
    by (metis keptE)
  obtain s2 ms ds' where rest: "start_list (map start cs) s1 = (s2, ms, ds')"
    by (cases "start_list (map start cs) s1")
  from one(3) have "Inv s1 (sum_list Gs + (G1 + sum_list H1 + F))"
    by (simp add: ac_simps)
  from Cons.IH [OF this] rest obtain Gs' Hs where "owns Gs' ms" "owns Hs ds'"
    "Inv s2 (sum_list Gs' + sum_list Hs + (G1 + sum_list H1 + F))"
    by auto
  with one have "owns (G1 # Gs') (m # ms)" "owns (H1 @ Hs) (ds @ ds')"
    "Inv s2 (sum_list (G1 # Gs') + sum_list (H1 @ Hs) + F)"
    by (auto intro: owns_Cons owns_append simp: ac_simps)
  with st rest show ?case
    by (auto simp del: sum_list_append sum_list.Cons)
qed

lemma start_kept:
  assumes "obeys ok may G m Q" and "Inv s (G + F)"
  shows "kept Q F (start m s)"
  using assms
proof (induction arbitrary: s F rule: obeys.induct)
  case (obeys_Act G f Q)
  from obeys_Act.IH [of s] obtain G' where "may s G (fst (f s)) G'"
    and IH: "\<And>s' F. Inv s' (G' + F) \<Longrightarrow> kept Q F (start (snd (f s)) s')"
    by blast
  with obeys_Act.prems have "Inv (fst (f s)) (G' + F)"
    by (blast intro: may_Inv)
  from IH [OF this] show ?case
    by (cases "f s") simp
next
  case (obeys_All Gs cs P k Q h)
  from obeys_All.IH(1) have
    "list_all2 (\<lambda>G c. \<forall>s F. Inv s (G + F) \<longrightarrow> kept {#} F (start c s)) Gs cs"
    by (rule list_all2_mono) blast
  from start_list_kept [OF this, of s "P + F"] obeys_All.prems
  obtain s' cs' ds Gs' Hs where st: "start_list (map start cs) s = (s', cs', ds)"
    and own: "owns Gs' cs'" "owns Hs ds" "Inv s' (sum_list Gs' + sum_list Hs + (P + F))"
    by (auto simp: ac_simps split: prod.splits)
  show ?case
    unfolding start_All st
    by (rule settle_kept [OF own]) (auto intro: obeys_All.IH obeys_All.hyps)
qed (auto intro!: keptI [where Gs = "[]"] intro: obeys.intros)

lemma deliver_list_kept:
  assumes "list_all2 (\<lambda>G c. obeys ok may G c {#} \<and>
      (\<forall>i s F x. Inv s (G + F) \<longrightarrow> deliver c i r s = Some x \<longrightarrow> kept {#} F x)) Gs cs"
    and "Inv s (sum_list Gs + F)"
    and "deliver_list (map (\<lambda>c. (c, length (waits c), deliver c)) cs) i r s = Some (s', cs', ds)"
  shows "\<exists>Gs Hs. owns Gs cs' \<and> owns Hs ds \<and> Inv s' (sum_list Gs + sum_list Hs + F)"
  using assms
proof (induction arbitrary: s F i cs' rule: list_all2_induct)
  case (Cons G Gs c cs)
  have own: "owns Gs cs"
    using Cons.hyps(2) unfolding owns_def by (rule list_all2_mono) blast
  show ?case
  proof (cases "i < length (waits c)")
    case True
    with Cons.prems(2) obtain c' where d: "deliver c i r s = Some (s', c', ds)" "cs' = c' # cs"
      by (auto simp: comp_def split: option.splits)
    from Cons.prems(1) have "Inv s (G + (sum_list Gs + F))"
      by (simp add: ac_simps)
    with d(1) Cons.hyps(1) obtain G1 Hs where "obeys ok may G1 c' {#}" "owns Hs ds"
      "Inv s' (G1 + sum_list Hs + (sum_list Gs + F))"
      by (metis keptE)
    with own d(2) have "owns (G1 # Gs) cs'" "Inv s' (sum_list (G1 # Gs) + sum_list Hs + F)"
      by (auto intro: owns_Cons simp: ac_simps)
    with \<open>owns Hs ds\<close> show ?thesis by blast
  next
    case False
    with Cons.prems(2) obtain cs1 where cs1: "cs' = c # cs1"
      "deliver_list (map (\<lambda>c. (c, length (waits c), deliver c)) cs) (i - length (waits c)) r s =
        Some (s', cs1, ds)"
      by (auto split: option.splits)
    from Cons.prems(1) have "Inv s (sum_list Gs + (G + F))"
      by (simp add: ac_simps)
    from Cons.IH [OF this cs1(2)] obtain Gs' Hs where own: "owns Gs' cs1" "owns Hs ds"
      "Inv s' (sum_list Gs' + sum_list Hs + (G + F))"
      by blast
    with Cons.hyps(1) cs1(1) have "owns (G # Gs') cs'"
      "Inv s' (sum_list (G # Gs') + sum_list Hs + F)"
      by (auto intro: owns_Cons simp: ac_simps)
    with own(2) show ?thesis by blast
  qed
qed simp

lemma deliver_kept:
  assumes "obeys ok may G m Q" and "Inv s (G + F)" and "deliver m i r s = Some x"
  shows "kept Q F x"
  using assms
proof (induction arbitrary: s F i x rule: obeys.induct)
  case (obeys_Await q G k Q)
  then show ?case
    by (auto intro: start_kept split: if_splits)
next
  case (obeys_All Gs cs P k Q h)
  from obeys_All.prems(2) obtain s' cs' ds where
    d: "deliver_list (map (\<lambda>c. (c, length (waits c), deliver c)) cs) i r s = Some (s', cs', ds)"
    and x: "x = settle (start k) (\<lambda>e. start (h e)) k h (s', cs', ds)"
    by auto
  from obeys_All.IH(1) have "list_all2 (\<lambda>G c. obeys ok may G c {#} \<and>
      (\<forall>i s F x. Inv s (G + F) \<longrightarrow> deliver c i r s = Some x \<longrightarrow> kept {#} F x)) Gs cs"
    by (rule list_all2_mono) blast
  from deliver_list_kept [OF this _ d, of "P + F"] obeys_All.prems(1)
  obtain Gs' Hs where own: "owns Gs' cs'" "owns Hs ds"
    "Inv s' (sum_list Gs' + sum_list Hs + (P + F))"
    by (auto simp: ac_simps)
  show ?case
    unfolding x by (rule settle_kept [OF own]) (auto intro: obeys_All.hyps start_kept)
qed auto

definition accounted :: "('s, 'q, 'r, 'e, 'a) config \<Rightarrow> bool" where
  "accounted c \<longleftrightarrow> (\<exists>Gs. owns Gs (snd c) \<and> Inv (fst c) (sum_list Gs))"

lemma accounted_call_holding:
  assumes "owns Gs ms" and "Inv s (G + sum_list Gs)" and "obeys ok may G m {#}"
  shows "accounted (call m (s, ms))"
proof -
  obtain s' m' ds where st: "start m s = (s', m', ds)"
    by (cases "start m s")
  from start_kept [OF assms(3,2)] st obtain G' Hs
    where "obeys ok may G' m' {#}" "owns Hs ds" "Inv s' (G' + sum_list Hs + sum_list Gs)"
    by (auto elim: keptE)
  with assms(1) have "owns (Gs @ G' # Hs) (ms @ m' # ds)" "Inv s' (sum_list (Gs @ G' # Hs))"
    by (auto intro!: owns_append owns_Cons simp: ac_simps)
  with st show ?thesis
    by (auto simp: accounted_def call_def simp del: sum_list_append sum_list.Cons)
qed

lemma accounted_answer:
  assumes "accounted c"
  shows "accounted (answer i r c)"
proof -
  obtain s ms where c: "c = (s, ms)"
    by (cases c)
  from assms c obtain Gs where own: "owns Gs ms" "Inv s (sum_list Gs + {#})"
    by (auto simp: accounted_def)
  show ?thesis
  proof (cases "deliver_list (map (\<lambda>c. (c, length (waits c), deliver c)) ms) i r s")
    case None
    with assms c show ?thesis by (simp add: answer_def)
  next
    case (Some x)
    obtain s' ms' ds where x: "x = (s', ms', ds)"
      by (cases x)
    have "list_all2 (\<lambda>G c. obeys ok may G c {#} \<and>
        (\<forall>i s F x. Inv s (G + F) \<longrightarrow> deliver c i r s = Some x \<longrightarrow> kept {#} F x)) Gs ms"
      using own(1) unfolding owns_def by (rule list_all2_mono) (blast intro: deliver_kept)
    from deliver_list_kept [OF this own(2) Some [unfolded x]] obtain Gs' Hs
      where "owns Gs' ms'" "owns Hs ds" "Inv s' (sum_list Gs' + sum_list Hs)"
      by auto
    then have "owns (Gs' @ Hs) (ms' @ ds)" "Inv s' (sum_list (Gs' @ Hs))"
      by (auto intro: owns_append)
    with Some x c show ?thesis
      by (auto simp: accounted_def answer_def simp del: sum_list_append)
  qed
qed

text \<open>
  A call may take its first tokens in the code that runs before its first suspension: \<open>m1\<close> is the
  rest of the call after that code, and \<open>s1\<close> the state it left.
\<close>

lemma reachable_accounted_entry:
  assumes "reachable may_call s0 c"
    and "Inv s0 {#}"
    and entry: "\<And>s m T. may_call s m \<Longrightarrow> Inv s T \<Longrightarrow>
      \<exists>s1 m1 G. start m s = start m1 s1 \<and> Inv s1 (G + T) \<and> obeys ok may G m1 {#}"
  shows "accounted c"
  using assms(1)
proof induction
  case reach_init
  with assms(2) show ?case
    by (auto simp: accounted_def intro!: exI [of _ "[]"])
next
  case (reach_call c m)
  obtain s ms where c: "c = (s, ms)"
    by (cases c)
  with reach_call.IH obtain Gs where own: "owns Gs ms" "Inv s (sum_list Gs)"
    by (auto simp: accounted_def)
  with entry reach_call.hyps(2) c obtain s1 m1 G
    where e: "start m s = start m1 s1" "Inv s1 (G + sum_list Gs)" "obeys ok may G m1 {#}"
    by fastforce
  then have "call m c = call m1 (s1, ms)"
    by (simp add: c call_def)
  with accounted_call_holding [OF own(1) e(2,3)] show ?case
    by simp
next
  case (reach_answer c i r)
  then show ?case
    by (simp add: accounted_answer)
qed

lemma reachable_accounted:
  assumes "reachable may_call s0 c"
    and "Inv s0 {#}"
    and "\<And>s m. may_call s m \<Longrightarrow> obeys ok may {#} m {#}"
  shows "accounted c"
proof (rule reachable_accounted_entry [OF assms(1,2)])
  fix s m T
  assume "may_call s m" "Inv s T"
  with assms(3) show "\<exists>s1 m1 G. start m s = start m1 s1 \<and> Inv s1 (G + T) \<and> obeys ok may G m1 {#}"
    by (intro exI [of _ s] exI [of _ m] exI [of _ "{#}"]) auto
qed

lemma idle_Inv: "accounted c \<Longrightarrow> idle c \<Longrightarrow> Inv (fst c) {#}"
  by (auto simp: accounted_def idle_def dest: owns_finished)

end

subsection \<open>Suspended programs and counted tokens\<close>

text \<open>After \<open>start\<close> and \<open>deliver\<close> every program has finished or waits for an answer.\<close>

primrec suspended :: "('s, 'q, 'r, 'e, 'a) async \<Rightarrow> bool" where
  "suspended (Ret a) = True"
| "suspended Stop = True"
| "suspended (Thr e) = True"
| "suspended (Act f) = False"
| "suspended (Await q k) = True"
| "suspended (All cs k h) = list_all suspended cs"

definition all_suspended :: "('s, 'q, 'r, 'e, 'a) started \<Rightarrow> bool" where
  "all_suspended = (\<lambda>(s, m, ds). suspended m \<and> list_all suspended ds)"

lemma settle_suspended:
  assumes "list_all suspended cs" and "list_all suspended ds"
    and "\<And>s. all_suspended (go_k s)" and "\<And>e s. all_suspended (go_h e s)"
  shows "all_suspended (settle go_k go_h k h (s, cs, ds))"
proof (cases "rejection cs")
  case (Some e)
  obtain s' m ds' where go: "go_h e s = (s', m, ds')"
    by (cases "go_h e s")
  with assms(4) [of e s] have "suspended m" "list_all suspended ds'"
    by (auto simp: all_suspended_def)
  with Some go assms(1,2) show ?thesis
    by (auto simp: settle_def all_suspended_def list_all_iff)
next
  case None
  obtain s' m ds' where go: "go_k s = (s', m, ds')"
    by (cases "go_k s")
  with assms(3) [of s] have "suspended m" "list_all suspended ds'"
    by (auto simp: all_suspended_def)
  with None go assms(1,2) show ?thesis
    by (simp add: settle_def all_suspended_def)
qed

lemma start_list_suspended:
  assumes "\<And>c s. c \<in> set cs \<Longrightarrow> all_suspended (start c s)"
  shows "case start_list (map start cs) s of (s', cs', ds) \<Rightarrow>
    list_all suspended cs' \<and> list_all suspended ds"
  using assms
proof (induction cs arbitrary: s)
  case (Cons c cs)
  obtain s1 m ds where st: "start c s = (s1, m, ds)"
    by (cases "start c s")
  with Cons.prems [of c s] have "suspended m" "list_all suspended ds"
    by (auto simp: all_suspended_def)
  with st Cons.IH [of s1] Cons.prems show ?case
    by (auto split: prod.splits)
qed simp

lemma start_suspended: "all_suspended (start m s)"
proof (induction m arbitrary: s)
  case (Act f)
  obtain s' m where f: "f s = (s', m)"
    by (cases "f s")
  then have "all_suspended (start m s')"
    by (intro Act [of "f s"]) (metis rangeI, simp)
  with f show ?case by simp
next
  case (All cs k h)
  obtain s' cs' ds where st: "start_list (map start cs) s = (s', cs', ds)"
    by (cases "start_list (map start cs) s")
  with start_list_suspended [of cs s] All(1) have "list_all suspended cs'" "list_all suspended ds"
    by auto
  then show ?case
    unfolding start_All st by (rule settle_suspended) (auto intro: All)
qed (auto simp: all_suspended_def)

lemma deliver_list_suspended:
  assumes "\<And>c i s x. c \<in> set cs \<Longrightarrow> deliver c i r s = Some x \<Longrightarrow> all_suspended x"
    and "list_all suspended cs"
    and "deliver_list (map (\<lambda>c. (c, length (waits c), deliver c)) cs) i r s = Some (s', cs', ds)"
  shows "list_all suspended cs' \<and> list_all suspended ds"
  using assms
proof (induction cs arbitrary: i cs')
  case (Cons c cs)
  show ?case
  proof (cases "i < length (waits c)")
    case True
    with Cons.prems(3) obtain c' where "deliver c i r s = Some (s', c', ds)" "cs' = c' # cs"
      by (auto simp: comp_def split: option.splits)
    with Cons.prems(1) [of c] Cons.prems(2) show ?thesis
      by (auto simp: all_suspended_def)
  next
    case False
    with Cons.prems(3) obtain cs1 where cs1: "cs' = c # cs1"
      "deliver_list (map (\<lambda>c. (c, length (waits c), deliver c)) cs) (i - length (waits c)) r s =
        Some (s', cs1, ds)"
      by (auto split: option.splits)
    have "list_all suspended cs1 \<and> list_all suspended ds"
    proof (rule Cons.IH [OF _ _ cs1(2)])
      show "all_suspended x" if "d \<in> set cs" "deliver d j r t = Some x" for d j t x
        using that by (intro Cons.prems(1) [of d j t x]) auto
      show "list_all suspended cs"
        using Cons.prems(2) by simp
    qed
    with Cons.prems(2) cs1(1) show ?thesis by simp
  qed
qed simp

lemma deliver_suspended:
  "deliver m i r s = Some x \<Longrightarrow> suspended m \<Longrightarrow> all_suspended x"
proof (induction m arbitrary: i s x)
  case (All cs k h)
  from All.prems(1) obtain s' cs' ds where
    d: "deliver_list (map (\<lambda>c. (c, length (waits c), deliver c)) cs) i r s = Some (s', cs', ds)"
    and x: "x = settle (start k) (\<lambda>e. start (h e)) k h (s', cs', ds)"
    by auto
  from d have "list_all suspended cs' \<and> list_all suspended ds"
    by (rule deliver_list_suspended [rotated 2]) (use All in \<open>auto simp: list_all_iff\<close>)
  then show ?case
    unfolding x by (auto intro: settle_suspended start_suspended)
next
  case (Await q k)
  then show ?case
    using start_suspended [of "k r" s] by (auto split: if_splits)
qed auto

lemma answer_suspended: "list_all suspended (snd c) \<Longrightarrow> list_all suspended (snd (answer i r c))"
  using deliver_list_suspended [of "snd c" r i "fst c"] deliver_suspended
  by (fastforce simp: answer_def list_all_iff split: option.splits prod.splits)

lemma call_suspended: "list_all suspended (snd c) \<Longrightarrow> list_all suspended (snd (call m c))"
  using start_suspended [of m "fst c"]
  by (auto simp: call_def all_suspended_def split: prod.splits)

lemma reachable_suspended: "reachable may_call s0 c \<Longrightarrow> list_all suspended (snd c)"
  by (induction rule: reachable.induct) (auto intro: answer_suspended call_suspended)

text \<open>
  When \<open>ok\<close> bounds an additive measure of the tokens from below by a weight of the query, the
  tokens of a reachable configuration are bounded by the weights of its suspended queries. A caller
  of \<open>Promise.all\<close> that keeps tokens of its own does not harm the lower bound.
\<close>

locale measured_obligations = obligations +
  fixes lo :: "'a \<Rightarrow> nat" and mu :: "'b multiset \<Rightarrow> nat"
  assumes mu_add: "mu (A + B) = mu A + mu B"
    and ok_lower: "ok (Some q) G \<Longrightarrow> lo q \<le> mu G"
begin

lemma mu_empty [simp]: "mu {#} = 0"
  using mu_add [of "{#}" "{#}"] by simp

lemma tokens_lower:
  assumes "obeys ok may G m Q" and "suspended m"
  shows "sum_list (map lo (waits m)) \<le> mu G"
  using assms
proof (induction rule: obeys.induct)
  case (obeys_All Gs cs P k Q h)
  have "sum_list (map lo (concat (map waits cs))) \<le> mu (sum_list Gs)"
    using obeys_All.IH(1) obeys_All.prems
    by (induction rule: list_all2_induct) (fastforce simp: mu_add)+
  then show ?case by (simp add: mu_add)
qed (use ok_lower in auto)

lemma owns_lower:
  "owns Gs ms \<Longrightarrow> list_all suspended ms \<Longrightarrow>
    sum_list (map lo (concat (map waits ms))) \<le> mu (sum_list Gs)"
  unfolding owns_def
  by (induction rule: list_all2_induct) (auto simp: mu_add dest!: tokens_lower)

lemma accounted_lower:
  "accounted c \<Longrightarrow> list_all suspended (snd c) \<Longrightarrow>
    \<exists>T. Inv (fst c) T \<and> sum_list (map lo (pool_waits c)) \<le> mu T"
  by (auto simp: accounted_def pool_waits_def dest: owns_lower)

end

locale weighted_obligations = measured_obligations ok may Inv lo size
  for ok :: "'a option \<Rightarrow> 'b multiset \<Rightarrow> bool"
    and may :: "'c \<Rightarrow> 'b multiset \<Rightarrow> 'c \<Rightarrow> 'b multiset \<Rightarrow> bool"
    and Inv :: "'c \<Rightarrow> 'b multiset \<Rightarrow> bool" and lo :: "'a \<Rightarrow> nat"
begin

lemma reachable_lower:
  assumes "reachable may_call s0 c" and "Inv s0 {#}"
    and "\<And>s m. may_call s m \<Longrightarrow> obeys ok may {#} m {#}"
  shows "\<exists>T. Inv (fst c) T \<and> sum_list (map lo (pool_waits c)) \<le> size T"
  by (rule accounted_lower [OF reachable_accounted [OF assms] reachable_suspended [OF assms(1)]])

end

locale counted_obligations = weighted_obligations +
  fixes hi :: "'a \<Rightarrow> nat"
  assumes ok_upper: "ok (Some q) G \<Longrightarrow> size G \<le> hi q"
    and ok_None: "ok None P \<Longrightarrow> P = {#}"
begin

lemma tokens_upper:
  assumes "obeys ok may G m Q" and "Q = {#}" and "suspended m"
  shows "size G \<le> sum_list (map hi (waits m))"
  using assms
proof (induction rule: obeys.induct)
  case (obeys_All Gs cs P k Q h)
  have "size (sum_list Gs) \<le> sum_list (map hi (concat (map waits cs)))"
    using obeys_All.IH(1) obeys_All.prems(2)
    by (induction rule: list_all2_induct) fastforce+
  with ok_None [OF obeys_All.hyps(1)] show ?case
    by simp
qed (use ok_upper in auto)

lemma owns_upper:
  "owns Gs ms \<Longrightarrow> list_all suspended ms \<Longrightarrow>
    size (sum_list Gs) \<le> sum_list (map hi (concat (map waits ms)))"
  unfolding owns_def
proof (induction rule: list_all2_induct)
  case (Cons G Gs m ms)
  then show ?case
    using tokens_upper [OF Cons.hyps(1) refl] by fastforce
qed simp

lemma reachable_bounded:
  assumes "reachable may_call s0 c" and "Inv s0 {#}"
    and "\<And>s m. may_call s m \<Longrightarrow> obeys ok may {#} m {#}"
  shows "\<exists>T. Inv (fst c) T \<and> sum_list (map lo (pool_waits c)) \<le> size T \<and>
    size T \<le> sum_list (map hi (pool_waits c))"
proof -
  have "accounted c"
    by (rule reachable_accounted [OF assms(1,2)]) (rule assms(3))
  then show ?thesis
    using reachable_suspended [OF assms(1)]
    by (auto simp: accounted_def pool_waits_def dest: owns_lower owns_upper)
qed

end

section \<open>State invariants\<close>

text \<open>The special case without tokens: an invariant of the state that every step keeps.\<close>

definition keeps :: "('s \<Rightarrow> bool) \<Rightarrow> 's \<Rightarrow> unit multiset \<Rightarrow> 's \<Rightarrow> unit multiset \<Rightarrow> bool" where
  "keeps J s G s' G' \<longleftrightarrow> (J s \<longrightarrow> J s')"

definition anywhere :: "'q option \<Rightarrow> 't multiset \<Rightarrow> bool" where
  "anywhere q G \<longleftrightarrow> True"

lemma anywhere_I [obeys_intro]: "anywhere q G"
  by (simp add: anywhere_def)

lemma keeps_modify [obeys_intro]:
  "(\<And>s. J s \<Longrightarrow> J (f s)) \<Longrightarrow> obeys anywhere (keeps J) {#} (modify f) {#}"
  by (rule obeys_modify) (simp add: keeps_def)

lemma keeps_reading [obeys_intro]:
  "(\<And>s. obeys anywhere (keeps J) {#} (f s) {#}) \<Longrightarrow> obeys anywhere (keeps J) {#} (reading f) {#}"
  by (rule obeys_reading) (simp_all add: keeps_def)

lemma keeps_finallyDo [obeys_intro]:
  "obeys anywhere (keeps J) {#} m {#} \<Longrightarrow> (\<And>s. J s \<Longrightarrow> J (f s)) \<Longrightarrow>
    obeys anywhere (keeps J) {#} (finallyDo m f) {#}"
  by (rule obeys_finallyDo) (simp_all add: keeps_def)

lemma keeps_withFlag [obeys_intro]:
  "obeys anywhere (keeps J) {#} m {#} \<Longrightarrow> (\<And>b s. J s \<Longrightarrow> J (up b s)) \<Longrightarrow>
    obeys anywhere (keeps J) {#} (withFlag up m) {#}"
  unfolding withFlag_def by (intro obeys_seqThen keeps_modify keeps_finallyDo)

text \<open>
  An invariant of all reachable states, from the obligation of each program that may be called.
\<close>

locale state_invariant =
  fixes J :: "'s \<Rightarrow> bool" and may_call :: "'s \<Rightarrow> ('s, 'q, 'r, 'e, 'a) async \<Rightarrow> bool"
  assumes callable_keeps: "may_call s m \<Longrightarrow> obeys anywhere (keeps J) {#} m {#}"
begin

sublocale steps: obligations "anywhere :: 'q option \<Rightarrow> unit multiset \<Rightarrow> bool" "keeps J" "\<lambda>s T. J s"
  by unfold_locales (simp add: keeps_def)

lemma reachable_invariant:
  assumes "reachable may_call s0 c" and "J s0"
  shows "J (fst c)"
  using steps.reachable_accounted [OF assms callable_keeps] by (auto simp: steps.accounted_def)

end

section \<open>Flags\<close>

text \<open>
  A flag that is set before some work and reset in a \<open>finally\<close> clause: the token of a flag is
  held by every program that has set it and not yet reset it. Programs may overlap, and the first
  one that ends resets the flag of the others, so a flag that is set has a holder, while a holder
  may find its flag reset.
\<close>

definition flag_inv :: "('t \<Rightarrow> 's \<Rightarrow> bool) \<Rightarrow> 's \<Rightarrow> 't multiset \<Rightarrow> bool" where
  "flag_inv flag s T \<longleftrightarrow> (\<forall>f. flag f s \<longrightarrow> f \<in># T)"

definition flag_may ::
  "('t \<Rightarrow> 's \<Rightarrow> bool) \<Rightarrow> 's \<Rightarrow> 't multiset \<Rightarrow> 's \<Rightarrow> 't multiset \<Rightarrow> bool" where
  "flag_may flag s G s' G' \<longleftrightarrow>
     (\<forall>f. flag f s' \<longrightarrow> f \<in># G' \<or> flag f s \<and> (f \<in># G \<longrightarrow> f \<in># G'))"

lemma flag_modify [obeys_intro]:
  "(\<And>s f. flag f (g s) \<Longrightarrow> flag f s) \<Longrightarrow> obeys anywhere (flag_may flag) G (modify g) G"
  by (rule obeys_modify) (auto simp: flag_may_def)

lemma flag_reading [obeys_intro]:
  "(\<And>s. obeys anywhere (flag_may flag) G (p s) Q) \<Longrightarrow> obeys anywhere (flag_may flag) G (reading p) Q"
  by (rule obeys_reading) (auto simp: flag_may_def)

lemma flag_finallyDo [obeys_intro]:
  "obeys anywhere (flag_may flag) G m Q \<Longrightarrow> (\<And>s f. flag f (g s) \<Longrightarrow> flag f s) \<Longrightarrow>
    obeys anywhere (flag_may flag) G (finallyDo m g) Q"
  by (rule obeys_finallyDo) (auto simp: flag_may_def)

lemma flag_withFlag:
  assumes "obeys anywhere (flag_may flag) (add_mset f G) m (add_mset f G)"
    and "\<And>s g. flag g (up True s) \<Longrightarrow> g = f \<or> flag g s"
    and "\<And>s g. flag g (up False s) \<Longrightarrow> g \<noteq> f \<and> flag g s"
  shows "obeys anywhere (flag_may flag) G (withFlag up m) G"
  unfolding withFlag_def
  by (rule obeys_modify_seq [where G' = "add_mset f G"], use assms(2) in \<open>force simp: flag_may_def\<close>,
      rule obeys_finallyDo [OF assms(1)], use assms(3) in \<open>force simp: flag_may_def\<close>)

locale flagged =
  fixes flag :: "'t \<Rightarrow> 's \<Rightarrow> bool" and may_call :: "'s \<Rightarrow> ('s, 'q, 'r, 'e, 'a) async \<Rightarrow> bool"
  assumes callable_flags: "may_call s m \<Longrightarrow> obeys anywhere (flag_may flag) {#} m {#}"
begin

sublocale holders: obligations "anywhere :: 'q option \<Rightarrow> 't multiset \<Rightarrow> bool" "flag_may flag" "flag_inv flag"
  by unfold_locales (fastforce simp: flag_may_def flag_inv_def)

lemma idle_flags:
  assumes "reachable may_call s0 c" and "\<And>f. \<not> flag f s0" and "idle c"
  shows "\<not> flag f (fst c)"
proof -
  have "holders.accounted c"
    by (rule holders.reachable_accounted [OF assms(1)]) (auto simp: flag_inv_def assms(2) callable_flags)
  from holders.idle_Inv [OF this assms(3)] show ?thesis
    by (simp add: flag_inv_def)
qed

end

section \<open>Exclusive work\<close>

text \<open>
  \<open>if (blocked) return; flag = true; try ... finally { flag = false }\<close>, where \<open>blocked\<close> covers the
  flag: the work of at most one such call is running, so the queries that only this work issues
  (\<open>critical\<close>) are never in flight twice.
\<close>

definition exclusively ::
  "('s \<Rightarrow> bool) \<Rightarrow> (bool \<Rightarrow> 's \<Rightarrow> 's) \<Rightarrow> ('s, 'q, 'r, 'e, unit) async \<Rightarrow> ('s, 'q, 'r, 'e, unit) async" where
  "exclusively blocked up m = Act (\<lambda>s.
     if blocked s then (s, Ret ()) else (up True s, finallyDo m (up False)))"

declare exclusively_def [js_eval]

definition excl_ok :: "('q \<Rightarrow> bool) \<Rightarrow> 'q option \<Rightarrow> unit multiset \<Rightarrow> bool" where
  "excl_ok critical q G \<longleftrightarrow> (case q of None \<Rightarrow> True | Some x \<Rightarrow> critical x \<longrightarrow> G \<noteq> {#})"

definition excl_inv :: "('s \<Rightarrow> bool) \<Rightarrow> 's \<Rightarrow> unit multiset \<Rightarrow> bool" where
  "excl_inv busy s T \<longleftrightarrow> size T = of_bool (busy s)"

definition excl_may :: "('s \<Rightarrow> bool) \<Rightarrow> 's \<Rightarrow> unit multiset \<Rightarrow> 's \<Rightarrow> unit multiset \<Rightarrow> bool" where
  "excl_may busy s G s' G' \<longleftrightarrow> (\<forall>F. excl_inv busy s (G + F) \<longrightarrow> excl_inv busy s' (G' + F))"

lemma excl_may_same: "busy s' = busy s \<Longrightarrow> excl_may busy s G s' G"
  by (simp add: excl_may_def excl_inv_def)

lemma obeys_exclusively:
  assumes "obeys ok (excl_may busy) {#()#} m {#()#}"
    and "\<And>s. busy s \<Longrightarrow> blocked s" and "\<And>s. busy (up True s)" and "\<And>s. \<not> busy (up False s)"
  shows "obeys ok (excl_may busy) {#} (exclusively blocked up m) {#}"
  unfolding exclusively_def
proof (rule obeys_Act)
  fix s
  have free: "excl_may busy s {#()#} (up False s) {#}" for s
    using assms(4) [of s] by (auto simp: excl_may_def excl_inv_def)
  show "\<exists>G'. excl_may busy s {#} (fst (if blocked s then (s, Ret ())
        else (up True s, finallyDo m (up False)))) G' \<and>
      obeys ok (excl_may busy) G' (snd (if blocked s then (s, Ret ())
        else (up True s, finallyDo m (up False)))) {#}"
  proof (cases "blocked s")
    case True
    then show ?thesis
      by (auto intro: excl_may_same obeys_Ret)
  next
    case False
    with assms(2,3) have "excl_may busy s {#} (up True s) {#()#}"
      by (auto simp: excl_may_def excl_inv_def)
    with False show ?thesis
      using obeys_finallyDo [OF assms(1) free] by auto
  qed
qed

lemma obeys_exclusively_same:
  assumes "\<And>s. may s G s G" and "\<And>b s. may s G (up b s) G" and "obeys ok may G m G"
  shows "obeys ok may G (exclusively blocked up m) G"
  unfolding exclusively_def
  by (rule obeys_Act, rule exI [of _ G])
    (use assms in \<open>auto intro: obeys_Ret obeys_finallyDo\<close>)

locale exclusive_work =
  fixes busy :: "'s \<Rightarrow> bool" and critical :: "'q \<Rightarrow> bool"
    and may_call :: "'s \<Rightarrow> ('s, 'q, 'r, 'e, 'a) async \<Rightarrow> bool"
  assumes callable_excl: "may_call s m \<Longrightarrow> obeys (excl_ok critical) (excl_may busy) {#} m {#}"
begin

sublocale work: weighted_obligations "excl_ok critical" "excl_may busy" "excl_inv busy"
    "\<lambda>q. of_bool (critical q)"
proof unfold_locales
  show "of_bool (critical q) \<le> size G" if "excl_ok critical (Some q) G" for q G
    using that by (cases "G = {#}") (auto simp: excl_ok_def nonempty_has_size)
qed (simp_all add: excl_may_def)

lemma reachable_exclusive:
  assumes "reachable may_call s0 c" and "\<not> busy s0"
  shows "length (filter critical (pool_waits c)) \<le> of_bool (busy (fst c))"
proof -
  have "excl_inv busy s0 {#}"
    using assms(2) by (simp add: excl_inv_def)
  moreover have "sum_list (map (\<lambda>q. of_bool (critical q)) qs) = length (filter critical qs)" for qs
    by (induction qs) auto
  ultimately show ?thesis
    using work.reachable_lower [OF assms(1) _ callable_excl] by (fastforce simp: excl_inv_def)
qed

lemma idle_not_busy:
  assumes "reachable may_call s0 c" and "\<not> busy s0" and "idle c"
  shows "\<not> busy (fst c)"
proof -
  have "excl_inv busy s0 {#}"
    using assms(2) by (simp add: excl_inv_def)
  then have "work.accounted c"
    by (rule work.reachable_accounted [OF assms(1)]) (rule callable_excl)
  from work.idle_Inv [OF this assms(3)] show ?thesis
    by (simp add: excl_inv_def)
qed

end

section \<open>One entry at a time\<close>

text \<open>
  A handler that may start only while the counter \<open>pending\<close> of requests is zero, and that counts its
  first request before it suspends: its request (\<open>critical\<close>) is never in flight twice. Every counted
  request has a token, and \<open>True\<close> is the token of such an entry. No step turns another token into
  one of an entry.
\<close>

definition entry_ok :: "('q \<Rightarrow> bool) \<Rightarrow> 'q option \<Rightarrow> bool multiset \<Rightarrow> bool" where
  "entry_ok critical q G \<longleftrightarrow> (case q of None \<Rightarrow> True | Some x \<Rightarrow> critical x \<longrightarrow> True \<in># G)"

definition entry_may :: "('s \<Rightarrow> int) \<Rightarrow> 's \<Rightarrow> bool multiset \<Rightarrow> 's \<Rightarrow> bool multiset \<Rightarrow> bool" where
  "entry_may pending s G s' G' \<longleftrightarrow>
     pending s' - pending s = int (size G') - int (size G) \<and> count G' True \<le> count G True"

definition entry_inv :: "('s \<Rightarrow> int) \<Rightarrow> 's \<Rightarrow> bool multiset \<Rightarrow> bool" where
  "entry_inv pending s T \<longleftrightarrow> pending s = int (size T) \<and> count T True \<le> 1"

abbreviation entry_obeys ::
  "('s \<Rightarrow> int) \<Rightarrow> ('q \<Rightarrow> bool) \<Rightarrow> bool multiset \<Rightarrow> ('s, 'q, 'r, 'e, 'a) async \<Rightarrow> bool multiset \<Rightarrow> bool" where
  "entry_obeys pending critical \<equiv> obeys (entry_ok critical) (entry_may pending)"

lemma entry_ok_simps [simp]:
  "entry_ok critical None G" "\<not> critical q \<Longrightarrow> entry_ok critical (Some q) G"
  "entry_ok critical (Some q) {#True#}"
  by (simp_all add: entry_ok_def)

lemma entry_modify [obeys_intro]:
  "(\<And>s. pending (f s) = pending s) \<Longrightarrow> entry_obeys pending critical G (modify f) G"
  by (rule obeys_modify) (simp add: entry_may_def)

lemma entry_reading [obeys_intro]:
  "(\<And>s. entry_obeys pending critical G (f s) Q) \<Longrightarrow> entry_obeys pending critical G (reading f) Q"
  by (rule obeys_reading) (simp_all add: entry_may_def)

lemma entry_finallyDo:
  "entry_obeys pending critical G m Q \<Longrightarrow> (\<And>s. pending (f s) = pending s) \<Longrightarrow>
    entry_obeys pending critical G (finallyDo m f) Q"
  by (erule obeys_finallyDo) (simp add: entry_may_def)

lemma entry_withFlag [obeys_intro]:
  "entry_obeys pending critical G m G \<Longrightarrow> (\<And>b s. pending (up b s) = pending s) \<Longrightarrow>
    entry_obeys pending critical G (withFlag up m) G"
  unfolding withFlag_def by (intro obeys_seqThen entry_modify entry_finallyDo)

lemma entry_release:
  "entry_obeys pending critical {#b#} m {#b#} \<Longrightarrow> (\<And>s. pending (down s) = pending s - 1) \<Longrightarrow>
    entry_obeys pending critical {#b#} (finallyDo m down) {#}"
  by (rule obeys_finallyDo) (auto simp: entry_may_def)

lemma entry_counted:
  "entry_obeys pending critical {#False#} m {#False#} \<Longrightarrow> (\<And>s. pending (up s) = pending s + 1) \<Longrightarrow>
    (\<And>s. pending (down s) = pending s - 1) \<Longrightarrow>
    entry_obeys pending critical {#} (seqThen (modify up) (finallyDo m down)) {#}"
  by (rule obeys_modify_seq [where G' = "{#False#}"]) (auto simp: entry_may_def intro!: entry_release)

text \<open>The code of a call before its first suspension.\<close>

lemma start_reading: "start (reading f) s = start (f s) s"
  by (simp add: async_defs)

lemma start_catching_modify:
  "start (andThen (catching (andThen (seqThen (modify f) m) k) h) l) s =
     start (andThen (catching (andThen m k) h) l) (f s)"
  by (simp add: async_defs)

definition may_enter ::
  "('s \<Rightarrow> int) \<Rightarrow> ('q \<Rightarrow> bool) \<Rightarrow> 's \<Rightarrow> ('s, 'q, 'r, 'e, 'a) async \<Rightarrow> bool" where
  "may_enter pending critical s m \<longleftrightarrow>
     entry_obeys pending critical {#} m {#} \<or>
     pending s \<le> 0 \<and> (\<exists>s1 m1. start m s = start m1 s1 \<and> pending s1 = pending s + 1 \<and>
       entry_obeys pending critical {#True#} m1 {#})"

lemma enters_never: "entry_obeys pending critical {#} m {#} \<Longrightarrow> may_enter pending critical s m"
  by (simp add: may_enter_def)

lemma enters_first:
  "pending s \<le> 0 \<Longrightarrow> start m s = start m1 s1 \<Longrightarrow> pending s1 = pending s + 1 \<Longrightarrow>
    entry_obeys pending critical {#True#} m1 {#} \<Longrightarrow> may_enter pending critical s m"
  by (auto simp: may_enter_def)

locale single_entry =
  fixes pending :: "'s \<Rightarrow> int" and critical :: "'q \<Rightarrow> bool"
    and may_call :: "'s \<Rightarrow> ('s, 'q, 'r, 'e, 'a) async \<Rightarrow> bool"
  assumes callable_enters: "may_call s m \<Longrightarrow> may_enter pending critical s m"
begin

sublocale entries: measured_obligations "entry_ok critical" "entry_may pending" "entry_inv pending"
    "\<lambda>q. of_bool (critical q)" "\<lambda>T. count T True"
  by unfold_locales (auto simp: entry_may_def entry_inv_def entry_ok_def Suc_le_eq)

lemma call_entry:
  assumes "may_call s m" and "entry_inv pending s T"
  shows "\<exists>s1 m1 G. start m s = start m1 s1 \<and> entry_inv pending s1 (G + T) \<and>
    entry_obeys pending critical G m1 {#}"
proof (cases "entry_obeys pending critical {#} m {#}")
  case True
  with assms(2) show ?thesis
    by (intro exI [of _ s] exI [of _ m] exI [of _ "{#}"]) simp
next
  case False
  with callable_enters [OF assms(1)] obtain s1 m1 where e: "pending s \<le> 0" "start m s = start m1 s1"
    "pending s1 = pending s + 1" "entry_obeys pending critical {#True#} m1 {#}"
    by (auto simp: may_enter_def)
  with assms(2) have "entry_inv pending s1 ({#True#} + T)"
    by (simp add: entry_inv_def)
  with e show ?thesis
    by metis
qed

lemma reachable_single:
  assumes "reachable may_call s0 c" and "pending s0 = 0"
  shows "length (filter critical (pool_waits c)) \<le> 1"
proof -
  have "entry_inv pending s0 {#}"
    using assms(2) by (simp add: entry_inv_def)
  then have "entries.accounted c"
    by (rule entries.reachable_accounted_entry [OF assms(1)]) (rule call_entry)
  moreover have "sum_list (map (\<lambda>q. of_bool (critical q)) qs) = length (filter critical qs)" for qs
    by (induction qs) auto
  ultimately show ?thesis
    using entries.accounted_lower [OF _ reachable_suspended [OF assms(1)]]
    by (fastforce simp: entry_inv_def)
qed

end

section \<open>Outcomes of a program that runs alone\<close>

text \<open>
  \<open>ensures m P n s\<close>: whatever its queries are answered, \<open>m\<close> started in \<open>s\<close> ends after at most
  \<open>n\<close> answers, in a state and with a result that satisfy \<open>P\<close>; \<open>P\<close> also gets the number of
  answers left. It is for programs without \<open>Promise.all\<close>.
\<close>

primrec ensures ::
  "('s, 'q, 'r, 'e, 'a) async \<Rightarrow> (nat \<Rightarrow> 's \<Rightarrow> 'e + 'a \<Rightarrow> bool) \<Rightarrow> nat \<Rightarrow> 's \<Rightarrow> bool" where
  "ensures (Ret a) = (\<lambda>P n s. P n s (Inr a))"
| "ensures Stop = (\<lambda>P n s. False)"
| "ensures (Thr e) = (\<lambda>P n s. P n s (Inl e))"
| "ensures (Act f) = (\<lambda>P n s. case map_prod id ensures (f s) of (s', g) \<Rightarrow> g P n s')"
| "ensures (Await q k) = (\<lambda>P n s. 0 < n \<and> (\<forall>r. ensures (k r) P (n - 1) s))"
| "ensures (All cs k h) = (\<lambda>P n s. False)"

fun outcome :: "('s, 'q, 'r, 'e, 'a) async \<Rightarrow> ('e + 'a) option" where
  "outcome (Ret a) = Some (Inr a)"
| "outcome (Thr e) = Some (Inl e)"
| "outcome _ = None"

lemma ensures_handle [simp]:
  "ensures (handle m k) P n s \<longleftrightarrow> ensures m (\<lambda>n s r. ensures (k r) P n s) n s"
proof (induction m arbitrary: s n)
  case (Act f)
  obtain s' m' where f: "f s = (s', m')"
    by (cases "f s")
  then have "ensures (handle m' k) P n s' \<longleftrightarrow> ensures m' (\<lambda>n s r. ensures (k r) P n s) n s'"
    by (intro Act [of "f s"]) (metis rangeI, simp)
  with f show ?case by simp
qed auto

lemma ensures_start:
  "ensures m P n s \<Longrightarrow> start m s = (s', m', ds) \<Longrightarrow> ds = [] \<and> suspended m' \<and> ensures m' P n s'"
proof (induction m arbitrary: s)
  case (Act f)
  obtain s1 m1 where f: "f s = (s1, m1)"
    by (cases "f s")
  with Act.prems have "ensures m1 P n s1" "start m1 s1 = (s', m', ds)"
    by auto
  then show ?case
    using f by (intro Act.IH [of "f s" m1 s1]) (metis rangeI, simp_all)
qed auto

lemma ensures_feed:
  assumes "ensures m (\<lambda>_. P) n s" and "suspended m" and "n \<le> length rs"
  shows "\<exists>qs s' m' r. feed rs (s, [m]) = (qs, s', [m']) \<and> outcome m' = Some r \<and> P s' r"
  using assms
proof (induction rs arbitrary: m s n)
  case Nil
  then show ?case
    by (cases m) auto
next
  case (Cons r rs)
  show ?case
  proof (cases m)
    case (Await q k)
    obtain s1 m1 ds where st: "start (k r) s = (s1, m1, ds)"
      by (cases "start (k r) s")
    from Await Cons.prems have e: "ensures (k r) (\<lambda>_. P) (n - 1) s" and n: "n - 1 \<le> length rs"
      by auto
    from ensures_start [OF e st] have d: "ds = []" and s: "suspended m1"
      and e': "ensures m1 (\<lambda>_. P) (n - 1) s1"
      by simp_all
    from Cons.IH [OF e' s n] obtain qs s' m' r'
      where "feed rs (s1, [m1]) = (qs, s', [m'])" "outcome m' = Some r'" "P s' r'"
      by blast
    with Await st d show ?thesis
      by (simp add: answer_def pool_waits_def)
  qed (use Cons.prems in \<open>auto simp: pool_waits_def\<close>)
qed

lemma ensures_run:
  assumes "ensures m (\<lambda>_. P) n s" and "n \<le> length rs"
  obtains qs s' m' r where "run m rs s = (qs, s', [m'])" "outcome m' = Some r" "P s' r"
proof -
  obtain s1 m1 ds where st: "start m s = (s1, m1, ds)"
    by (cases "start m s")
  from ensures_start [OF assms(1) st] have "ds = []" and "suspended m1"
    and "ensures m1 (\<lambda>_. P) n s1"
    by simp_all
  with ensures_feed [OF this(3,2) assms(2)] st that show thesis
    by (auto simp: run_def call_def)
qed

lemma ensures_outcome:
  assumes "ensures m (\<lambda>_. P) n s" and "n \<le> length rs" and "\<And>s' r. P s' r \<Longrightarrow> Q s' r"
  shows "\<exists>qs s' m' r. run m rs s = (qs, s', [m']) \<and> outcome m' = Some r \<and> Q s' r"
  using ensures_run [OF assms(1,2)] assms(3) by metis

lemma ensures_mono:
  "ensures m P n s \<Longrightarrow> (\<And>n s r. P n s r \<Longrightarrow> Q n s r) \<Longrightarrow> ensures m Q n s"
proof (induction m arbitrary: n s)
  case (Act f)
  obtain s' m' where f: "f s = (s', m')"
    by (cases "f s")
  with Act.prems have "ensures m' P n s'" by simp
  then have "ensures m' Q n s'"
    using f Act.prems(2) by (intro Act.IH [of "f s" m' n s']) (metis rangeI, simp_all)
  with f show ?case by simp
qed auto

lemma ensures_more:
  "ensures m P n s \<Longrightarrow> ensures m (\<lambda>n' s r. \<exists>j. n' = j + k \<and> P j s r) (n + k) s"
proof (induction m arbitrary: n s)
  case (Act f)
  obtain s' m' where f: "f s = (s', m')"
    by (cases "f s")
  with Act.prems have "ensures m' P n s'" by simp
  then have "ensures m' (\<lambda>n' s r. \<exists>j. n' = j + k \<and> P j s r) (n + k) s'"
    using f by (intro Act.IH [of "f s" m' n s']) (metis rangeI, simp_all)
  with f show ?case by simp
next
  case (Await q c)
  have "ensures (c r) (\<lambda>n' s r. \<exists>j. n' = j + k \<and> P j s r) (n - 1 + k) s" for r
    by (rule Await.IH) (use Await.prems in auto)
  with Await.prems show ?case
    by simp
qed auto

text \<open>Rewriting rules that run the combinators.\<close>

lemma ensures_final: "ensures (case_sum Thr Ret r) P n s \<longleftrightarrow> P n s r"
  by (cases r) simp_all

lemma ensures_bound:
  "ensures (case_sum Thr f r) P n s \<longleftrightarrow>
     (case r of Inl e \<Rightarrow> P n s (Inl e) | Inr a \<Rightarrow> ensures (f a) P n s)"
  by (cases r) simp_all

lemma ensures_caught:
  "ensures (case_sum h Ret r) P n s \<longleftrightarrow>
     (case r of Inl e \<Rightarrow> ensures (h e) P n s | Inr a \<Rightarrow> P n s (Inr a))"
  by (cases r) simp_all

lemmas ensures_unfold = ensures_handle ensures.simps map_prod_simp prod.case id_apply

lemma ensures_andThen [simp]:
  "ensures (andThen m f) P n s \<longleftrightarrow>
     ensures m (\<lambda>n s r. case r of Inl e \<Rightarrow> P n s (Inl e) | Inr a \<Rightarrow> ensures (f a) P n s) n s"
  by (simp only: andThen_def ensures_unfold ensures_bound)

lemma ensures_seqThen [simp]:
  "ensures (seqThen m m') P n s \<longleftrightarrow>
     ensures m (\<lambda>n s r. case r of Inl e \<Rightarrow> P n s (Inl e) | Inr a \<Rightarrow> ensures m' P n s) n s"
  by (simp only: seqThen_def ensures_andThen)

lemma ensures_catching [simp]:
  "ensures (catching m h) P n s \<longleftrightarrow>
     ensures m (\<lambda>n s r. case r of Inl e \<Rightarrow> ensures (h e) P n s | Inr a \<Rightarrow> P n s (Inr a)) n s"
  by (simp only: catching_def ensures_unfold ensures_caught)

lemma ensures_modify [simp]: "ensures (modify g) P n s \<longleftrightarrow> P n (g s) (Inr ())"
  by (simp only: modify_def ensures_unfold)

lemma ensures_reading [simp]: "ensures (reading p) P n s \<longleftrightarrow> ensures (p s) P n s"
  by (simp only: reading_def ensures_unfold)

lemma ensures_void [simp]:
  "ensures (void m) P n s \<longleftrightarrow>
     ensures m (\<lambda>n s r. case r of Inl e \<Rightarrow> P n s (Inl e) | Inr a \<Rightarrow> P n s (Inr ())) n s"
  by (simp only: void_def ensures_seqThen ensures.simps)

lemma ensures_finallyDo [simp]:
  "ensures (finallyDo m g) P n s \<longleftrightarrow> ensures m (\<lambda>n s r. P n (g s) r) n s"
  by (simp only: finallyDo_def ensures_unfold ensures_final)

lemma ensures_withFlag [simp]:
  "ensures (withFlag up m) P n s \<longleftrightarrow> ensures m (\<lambda>n s r. P n (up False s) r) n (up True s)"
  by (simp add: withFlag_def)

lemma ensures_exclusively [simp]:
  "ensures (exclusively blocked up m) P n s \<longleftrightarrow>
     (if blocked s then P n s (Inr ()) else ensures m (\<lambda>n s r. P n (up False s) r) n (up True s))"
  by (simp add: exclusively_def)

text \<open>Evaluation of a concrete run.\<close>

lemmas exec_defs = run_def call_def answer_def pool_waits_def settle_def

end
