(* ===== verification/Wire.thy ===== *)
theory Wire
  imports Portal_Types Js_String Async
begin

text \<open>
  What the portal exchanges with the outside: HTTP requests and responses, JSON bodies, the
  queries on which its async functions suspend and the answers that resume them, and the
  messages it shows. The server, the network, the confirmation dialogue, the router and the
  clipboard are the environment: every query may get any answer of its kind.

  A response body is one value of \<open>payload\<close>, which has a constructor for every type that the
  code asserts with \<open>as T\<close>. The code does not check these assertions, and the model assumes that
  the body of a successful response has the declared type. A body that does not parse is the
  answer \<open>Rejected\<close>; a payload of another constructor, or none at all (status 204), makes the
  first access to it fail with a \<open>TypeError\<close>, whose text is not modelled.
  Messages are named by their meaning; \<open>M_status\<close> is the text made of the status line and
  \<open>M_native\<close> the text of an error of the platform.
\<close>

section \<open>Messages and errors\<close>

datatype message =
    M_status nat jsstr
  | M_native jsstr
  | M_request_failed
  | M_admin_login_first
  | M_admin_session_expired
  | M_admin_enter_credential
  | M_admin_credential_invalid
  | M_admin_entered
  | M_admin_exited
  | M_directory_refreshed
  | M_data_refreshed
  | M_user_login_first
  | M_user_login_expired
  | M_user_enter_credentials
  | M_user_bad_credentials
  | M_user_profile_after_login
  | M_user_logged_in
  | M_user_login_failed
  | M_user_logged_out
  | M_user_profile_unreadable
  | M_contact_saved
  | M_contact_failed
  | M_enter_passwords
  | M_password_changed
  | M_password_failed
  | M_domain_updated
  | M_domain_created
  | M_domains_refreshed
  | M_key_no_clipboard
  | M_key_copied
  | M_key_copy_failed
  | M_client_enter_name
  | M_client_enter_uri
  | M_client_updated
  | M_client_created
  | M_client_enabled
  | M_client_disabled
  | M_client_deleted
  | M_clients_refreshed
  | M_secret_no_clipboard
  | M_secret_copied
  | M_secret_copy_failed
  | M_ou_not_empty
  | M_ou_updated
  | M_ou_created
  | M_ou_deleted
  | M_user_updated
  | M_user_created
  | M_user_deleted
  | M_group_updated
  | M_group_created
  | M_password_reset
  | M_auth_invalid_request
  | M_auth_server_error
  | M_auth_unreadable nat
  | M_auth_unreachable

datatype toast = Success message | Failure message | Warning message

text \<open>A thrown value: an \<open>Error\<close> with its message, or something else.\<close>

datatype js_error = JsError message | NonError

definition error_message :: "js_error \<Rightarrow> message \<Rightarrow> message" where
  "error_message e fallback = (case e of JsError m \<Rightarrow> m | NonError \<Rightarrow> fallback)"

section \<open>HTTP\<close>

datatype http_method = GET | HEAD | OPTIONS | POST | PUT | PATCH | DELETE

type_synonym headers = "(jsstr \<times> jsstr) list"

record request =
  rq_path :: jsstr
  rq_method :: http_method
  rq_headers :: headers
  rq_body :: "json option"

text \<open>The second argument of \<open>fetch\<close>; \<open>method\<close> defaults to GET.\<close>

record request_init =
  in_method :: "http_method option"
  in_body :: "json option"
  in_headers :: headers

definition init0 :: request_init where
  "init0 = \<lparr>in_method = None, in_body = None, in_headers = []\<rparr>"

definition init_of :: "http_method \<Rightarrow> request_init" where
  "init_of m = init0\<lparr>in_method := Some m\<rparr>"

definition init_body :: "http_method \<Rightarrow> json \<Rightarrow> request_init" where
  "init_body m b = init0\<lparr>in_method := Some m, in_body := Some b\<rparr>"

text \<open>Object spread: a later property replaces an earlier one of the same name.\<close>

fun set_header :: "jsstr \<Rightarrow> jsstr \<Rightarrow> headers \<Rightarrow> headers" where
  "set_header k v [] = [(k, v)]"
| "set_header k v ((k', v') # hs) = (if k = k' then (k, v) # hs else (k', v') # set_header k v hs)"

definition spread :: "headers \<Rightarrow> headers \<Rightarrow> headers" where
  "spread xs ys = fold (\<lambda>(k, v). set_header k v) ys xs"

lemma map_of_set_header: "map_of (set_header k v hs) = (map_of hs)(k \<mapsto> v)"
  by (induction hs) auto

lemma map_of_spread: "map_of (spread xs ys) = map_of xs ++ map_of (rev ys)"
proof (induction ys arbitrary: xs)
  case (Cons y ys)
  obtain k v where "y = (k, v)"
    by (cases y)
  then show ?case
    using Cons [of "set_header k v xs"]
    by (simp add: spread_def map_of_set_header map_add_upd_left) (simp add: map_add_def fun_eq_iff split: option.splits)
qed (simp add: spread_def)

record response =
  rs_status :: nat
  rs_statusText :: jsstr

definition response_ok :: "response \<Rightarrow> bool" where
  "response_ok r \<longleftrightarrow> 200 \<le> rs_status r \<and> rs_status r \<le> 299"

definition status_message :: "response \<Rightarrow> message" where
  "status_message r = M_status (rs_status r) (rs_statusText r)"

datatype payload =
    P_csrf jsstr
  | P_domains "Domain list" DomainAttributeDefaults
  | P_ous "OrganizationalUnit list"
  | P_users "UserRecord list"
  | P_groups "GroupRecord list"
  | P_sync "SyncDomain list"
  | P_clients "OAuthClient list"
  | P_client_created OAuthClientCreateResponse
  | P_client OAuthClient
  | P_secret OAuthClientSecretResponse
  | P_domain_saved DomainMutationResponse
  | P_employee_id jsstr
  | P_login UserLoginResponse
  | P_profile UserProfile
  | P_contact UserContactUpdateResponse
  | P_password PasswordChangeResponse
  | P_error "jsstr option"
  | P_context OidcAuthorizationContext
  | P_other

section \<open>Queries and answers\<close>

datatype query =
    Fetch request
  | ReadJson
  | Confirm
  | WriteClipboard jsstr
  | NavigateTo jsstr "(jsstr \<times> jsstr) list"

datatype answer =
    Responded response
  | Json payload
  | Confirmed bool
  | Done
  | Rejected js_error

type_synonym ('s, 'a) prog = "('s, query, answer, js_error, 'a) async"

definition fetch :: "request \<Rightarrow> ('s, response) prog" where
  "fetch rq = Await (Fetch rq) (\<lambda>a. case a of
     Responded r \<Rightarrow> Ret r | Rejected e \<Rightarrow> Thr e | _ \<Rightarrow> Thr NonError)"

definition readJson :: "('s, payload) prog" where
  "readJson = Await ReadJson (\<lambda>a. case a of
     Json p \<Rightarrow> Ret p | Rejected e \<Rightarrow> Thr e | _ \<Rightarrow> Thr NonError)"

definition askConfirm :: "('s, bool) prog" where
  "askConfirm = Await Confirm (\<lambda>a. case a of
     Confirmed b \<Rightarrow> Ret b | Rejected e \<Rightarrow> Thr e | _ \<Rightarrow> Thr NonError)"

definition writeClipboard :: "jsstr \<Rightarrow> ('s, unit) prog" where
  "writeClipboard t = Await (WriteClipboard t) (\<lambda>a. case a of
     Done \<Rightarrow> Ret () | Rejected e \<Rightarrow> Thr e | _ \<Rightarrow> Thr NonError)"

definition navigateTo :: "jsstr \<Rightarrow> (jsstr \<times> jsstr) list \<Rightarrow> ('s, unit) prog" where
  "navigateTo path query = Await (NavigateTo path query) (\<lambda>a. case a of
     Done \<Rightarrow> Ret () | Rejected e \<Rightarrow> Thr e | _ \<Rightarrow> Thr NonError)"

text \<open>\<open>value as T\<close> and the access to its properties, where \<open>sel\<close> selects the values of type \<open>T\<close>.\<close>

definition type_error :: js_error where
  "type_error = JsError (M_native (lit ''TypeError''))"

definition asType :: "('p \<Rightarrow> 'x option) \<Rightarrow> 'p \<Rightarrow> ('s, 'x) prog" where
  "asType sel p = (case sel p of Some x \<Rightarrow> Ret x | None \<Rightarrow> Thr type_error)"

lemmas wire_defs [js_eval] =
  fetch_def readJson_def askConfirm_def writeClipboard_def navigateTo_def asType_def type_error_def
  init0_def init_of_def init_body_def response_ok_def status_message_def error_message_def

lemma obeys_fetch [obeys_intro]:
  "ok (Some (Fetch rq)) G \<Longrightarrow> obeys ok may G (fetch rq) G"
  unfolding fetch_def by (rule obeys_Await) (auto intro: obeys.intros split: answer.splits)

lemma obeys_readJson [obeys_intro]:
  "ok (Some ReadJson) G \<Longrightarrow> obeys ok may G readJson G"
  unfolding readJson_def by (rule obeys_Await) (auto intro: obeys.intros split: answer.splits)

lemma obeys_askConfirm [obeys_intro]:
  "ok (Some Confirm) G \<Longrightarrow> obeys ok may G askConfirm G"
  unfolding askConfirm_def by (rule obeys_Await) (auto intro: obeys.intros split: answer.splits)

lemma obeys_writeClipboard [obeys_intro]:
  "ok (Some (WriteClipboard t)) G \<Longrightarrow> obeys ok may G (writeClipboard t) G"
  unfolding writeClipboard_def by (rule obeys_Await) (auto intro: obeys.intros split: answer.splits)

lemma obeys_navigateTo [obeys_intro]:
  "ok (Some (NavigateTo p q)) G \<Longrightarrow> obeys ok may G (navigateTo p q) G"
  unfolding navigateTo_def by (rule obeys_Await) (auto intro: obeys.intros split: answer.splits)

lemma obeys_asType [obeys_intro]: "obeys ok may G (asType sel p) G"
  by (auto simp: asType_def intro: obeys.intros split: option.splits)

lemmas obeys_ends [obeys_intro] = obeys_Ret obeys_Thr

text \<open>Outcomes of the queries, whatever the answer.\<close>

lemma all_answers:
  "(\<forall>a. Q a) \<longleftrightarrow> (\<forall>r. Q (Responded r)) \<and> (\<forall>p. Q (Json p)) \<and> (\<forall>b. Q (Confirmed b)) \<and> Q Done \<and>
     (\<forall>e. Q (Rejected e))"
  by (metis answer.exhaust)

lemma ensures_fetch [simp]:
  "ensures (fetch rq) P n s \<longleftrightarrow>
     0 < n \<and> (\<forall>r. P (n - 1) s (Inr r)) \<and> (\<forall>e. P (n - 1) s (Inl e))"
  by (auto simp: fetch_def all_answers)

lemma ensures_readJson [simp]:
  "ensures readJson P n s \<longleftrightarrow>
     0 < n \<and> (\<forall>p. P (n - 1) s (Inr p)) \<and> (\<forall>e. P (n - 1) s (Inl e))"
  by (auto simp: readJson_def all_answers)

lemma ensures_askConfirm [simp]:
  "ensures askConfirm P n s \<longleftrightarrow>
     0 < n \<and> (\<forall>b. P (n - 1) s (Inr b)) \<and> (\<forall>e. P (n - 1) s (Inl e))"
  by (auto simp: askConfirm_def all_answers)

lemma ensures_writeClipboard [simp]:
  "ensures (writeClipboard t) P n s \<longleftrightarrow>
     0 < n \<and> P (n - 1) s (Inr ()) \<and> (\<forall>e. P (n - 1) s (Inl e))"
  by (auto simp: writeClipboard_def all_answers)

lemma ensures_navigateTo [simp]:
  "ensures (navigateTo p q) P n s \<longleftrightarrow>
     0 < n \<and> P (n - 1) s (Inr ()) \<and> (\<forall>e. P (n - 1) s (Inl e))"
  by (auto simp: navigateTo_def all_answers)

lemma ensures_asType [simp]:
  "ensures (asType sel p) P n s \<longleftrightarrow>
     (case sel p of Some x \<Rightarrow> P n s (Inr x) | None \<Rightarrow> P n s (Inl type_error))"
  by (simp add: asType_def split: option.splits)

end
