(* ===== verification/User_Api.thy ===== *)
theory User_Api
  imports Wire Forms
begin

text \<open>
  \<open>portal/web/app/composables/useUserApi.ts\<close>: the session of an ordinary user. The shared
  state (\<open>useState\<close>) and the one \<open>localStorage\<close> item are a record, \<open>import.meta.client\<close> is
  its first field, and the notifications are the list of toasts shown so far. Every function
  that the composable returns is a definition; the async ones are programs of \<open>Async\<close>.
\<close>

section \<open>State\<close>

record user_api =
  usr_client :: bool
  usr_accessToken :: jsstr
  usr_profile :: "UserProfile option"
  usr_pending :: int
  usr_storage :: "jsstr option"
  usr_toasts :: "toast list"

definition user_requestErrorMessage :: "js_error \<Rightarrow> message \<Rightarrow> message" where
  "user_requestErrorMessage e fallback = error_message e fallback"

definition user_notify :: "toast \<Rightarrow> 'z user_api_scheme \<Rightarrow> 'z user_api_scheme" where
  "user_notify t s = s\<lparr>usr_toasts := usr_toasts s @ [t]\<rparr>"

definition user_tokenReady :: "'z user_api_scheme \<Rightarrow> bool" where
  "user_tokenReady s \<longleftrightarrow> 0 < length (trim (usr_accessToken s))"

definition user_loading :: "'z user_api_scheme \<Rightarrow> bool" where
  "user_loading s \<longleftrightarrow> 0 < usr_pending s"

section \<open>Operations\<close>

definition loadToken :: "'z user_api_scheme \<Rightarrow> 'z user_api_scheme \<times> jsstr" where
  "loadToken s =
     (if \<not> usr_client s then (s, [])
      else
        (let storedToken = (case usr_storage s of None \<Rightarrow> [] | Some t \<Rightarrow> t)
         in (s\<lparr>usr_accessToken := storedToken\<rparr>, storedToken)))"

definition clearToken :: "'z user_api_scheme \<Rightarrow> 'z user_api_scheme" where
  "clearToken s =
     (let s1 = s\<lparr>usr_accessToken := [], usr_profile := None\<rparr>
      in if usr_client s1 then s1\<lparr>usr_storage := None\<rparr> else s1)"

definition user_trackRequest :: "('z user_api_scheme, 'a) prog \<Rightarrow> ('z user_api_scheme, 'a) prog" where
  "user_trackRequest request =
     seqThen (modify (\<lambda>s. s\<lparr>usr_pending := usr_pending s + 1\<rparr>))
       (finallyDo request (\<lambda>s. s\<lparr>usr_pending := usr_pending s - 1\<rparr>))"

definition user_logout :: "bool \<Rightarrow> ('z user_api_scheme, unit) prog" where
  "user_logout showMessage =
     finallyDo
       (catching
         (seqThen
           (user_trackRequest (fetch \<lparr>rq_path = lit ''/api/auth/logout'', rq_method = POST,
              rq_headers = [], rq_body = None\<rparr>))
           (Ret ()))
         (\<lambda>_. Ret ()))
       (\<lambda>s. if showMessage then user_notify (Success M_user_logged_out) (clearToken s)
            else clearToken s)"

definition json_content :: headers where
  "json_content = [(lit ''content-type'', lit ''application/json'')]"

definition userFetch :: "jsstr \<Rightarrow> request_init \<Rightarrow> ('z user_api_scheme, payload) prog" where
  "userFetch path init = reading (\<lambda>s.
     if \<not> user_tokenReady s then Thr (JsError M_user_login_first)
     else
       user_trackRequest (reading (\<lambda>s.
         andThen
           (fetch \<lparr>rq_path = path,
              rq_method = (case in_method init of None \<Rightarrow> GET | Some m \<Rightarrow> m),
              rq_headers =
                spread
                  (spread [(lit ''authorization'', lit ''Bearer '' @ trim (usr_accessToken s))]
                    (case in_body init of None \<Rightarrow> [] | Some _ \<Rightarrow> json_content))
                  (in_headers init),
              rq_body = in_body init\<rparr>)
           (\<lambda>resp.
              if \<not> response_ok resp then
                if rs_status resp = 401 \<or> rs_status resp = 403 then
                  seqThen (modify clearToken) (Thr (JsError M_user_login_expired))
                else Thr (JsError (status_message resp))
              else readJson))))"

definition sel_profile :: "payload \<Rightarrow> UserProfile option" where
  "sel_profile p = (case p of P_profile x \<Rightarrow> Some x | _ \<Rightarrow> None)"

definition sel_login :: "payload \<Rightarrow> UserLoginResponse option" where
  "sel_login p = (case p of P_login x \<Rightarrow> Some x | _ \<Rightarrow> None)"

definition sel_contact :: "payload \<Rightarrow> UserContactUpdateResponse option" where
  "sel_contact p = (case p of P_contact x \<Rightarrow> Some x | _ \<Rightarrow> None)"

definition loadMe :: "bool \<Rightarrow> ('z user_api_scheme, bool) prog" where
  "loadMe showError =
     catching
       (andThen (userFetch (lit ''/api/me'') init0) (\<lambda>p.
        andThen (asType sel_profile p) (\<lambda>x.
        seqThen (modify (\<lambda>s. s\<lparr>usr_profile := Some x\<rparr>)) (Ret True))))
       (\<lambda>e. seqThen (modify (\<lambda>s.
              if showError
              then user_notify (Failure (user_requestErrorMessage e M_user_profile_unreadable)) (clearToken s)
              else clearToken s))
            (Ret False))"

definition login_request :: "jsstr \<Rightarrow> jsstr \<Rightarrow> request" where
  "login_request username password =
     \<lparr>rq_path = lit ''/api/auth/login'', rq_method = POST, rq_headers = json_content,
      rq_body = Some (JObj [(lit ''username'', JStr username), (lit ''password'', JStr password)])\<rparr>"

definition login_body :: "jsstr \<Rightarrow> jsstr \<Rightarrow> ('z user_api_scheme, bool) prog" where
  "login_body username password =
     andThen
       (user_trackRequest
         (andThen (fetch (login_request username password)) (\<lambda>resp.
            if \<not> response_ok resp then
              Thr (JsError
                (if rs_status resp = 401 \<or> rs_status resp = 403 then M_user_bad_credentials
                 else status_message resp))
            else andThen readJson (asType sel_login))))
       (\<lambda>login.
          seqThen
            (modify (\<lambda>s.
               let s1 = s\<lparr>usr_accessToken := lr_access_token login\<rparr>
               in if usr_client s1 then s1\<lparr>usr_storage := Some (lr_access_token login)\<rparr> else s1))
            (andThen (loadMe False) (\<lambda>profileLoaded.
               if \<not> profileLoaded then Thr (JsError M_user_profile_after_login)
               else seqThen (modify (user_notify (Success M_user_logged_in))) (Ret True))))"

definition login :: "jsstr \<Rightarrow> jsstr \<Rightarrow> ('z user_api_scheme, bool) prog" where
  "login username password =
     (let trimmedUsername = trim username in
      if trimmedUsername = [] \<or> password = [] then
        seqThen (modify (user_notify (Failure M_user_enter_credentials))) (Ret False)
      else
        catching (login_body trimmedUsername password)
          (\<lambda>e. seqThen (modify (\<lambda>s.
                  user_notify (Failure (user_requestErrorMessage e M_user_login_failed)) (clearToken s)))
                (Ret False)))"

definition json_opt :: "jsstr option \<Rightarrow> json" where
  "json_opt x = (case x of None \<Rightarrow> JNull | Some t \<Rightarrow> JStr t)"

definition updateContact :: "jsstr option \<Rightarrow> jsstr option \<Rightarrow> ('z user_api_scheme, bool) prog" where
  "updateContact email mobile =
     catching
       (reading (\<lambda>s.
          andThen
            (userFetch (lit ''/api/me/contact'')
              (init_body PATCH (JObj
                [(lit ''email'', json_opt email), (lit ''mobile'', json_opt mobile),
                 (lit ''telephone'', json_opt (Option.bind (usr_profile s) up_telephone))])))
            (\<lambda>p. andThen (asType sel_contact p) (\<lambda>r.
               seqThen (modify (\<lambda>s. user_notify (Success M_contact_saved)
                 (s\<lparr>usr_profile := Some (cu_profile r)\<rparr>))) (Ret True)))))
       (\<lambda>e. seqThen (modify (user_notify (Failure (user_requestErrorMessage e M_contact_failed))))
              (Ret False))"

definition changePassword :: "jsstr \<Rightarrow> jsstr \<Rightarrow> ('z user_api_scheme, bool) prog" where
  "changePassword currentPassword newPassword =
     (if currentPassword = [] \<or> newPassword = [] then
        seqThen (modify (user_notify (Failure M_enter_passwords))) (Ret False)
      else
        catching
          (seqThen
            (userFetch (lit ''/api/me/password'')
              (init_body POST (JObj
                [(lit ''current_password'', JStr currentPassword),
                 (lit ''new_password'', JStr newPassword)])))
            (seqThen (modify (user_notify (Success M_password_changed))) (Ret True)))
          (\<lambda>e. seqThen (modify (user_notify (Failure (user_requestErrorMessage e M_password_failed))))
                 (Ret False)))"

lemmas user_api_defs [js_eval] =
  user_requestErrorMessage_def user_notify_def user_tokenReady_def clearToken_def loadToken_def
  user_trackRequest_def user_logout_def userFetch_def loadMe_def login_request_def login_body_def
  login_def updateContact_def changePassword_def
  sel_profile_def sel_login_def sel_contact_def json_content_def

lemma user_notify_fields [simp]:
  "usr_client (user_notify t s) = usr_client s"
  "usr_accessToken (user_notify t s) = usr_accessToken s"
  "usr_profile (user_notify t s) = usr_profile s"
  "usr_pending (user_notify t s) = usr_pending s"
  "usr_storage (user_notify t s) = usr_storage s"
  "usr_toasts (user_notify t s) = usr_toasts s @ [t]"
  by (simp_all add: user_notify_def)

lemma clearToken_fields [simp]:
  "usr_client (clearToken s) = usr_client s"
  "usr_accessToken (clearToken s) = []"
  "usr_profile (clearToken s) = None"
  "usr_pending (clearToken s) = usr_pending s"
  "usr_toasts (clearToken s) = usr_toasts s"
  by (simp_all add: clearToken_def Let_def)

lemma clearToken_storage [simp]: "usr_client s \<Longrightarrow> usr_storage (clearToken s) = None"
  by (simp add: clearToken_def Let_def)

lemma loadToken_fields [simp]:
  "usr_client (fst (loadToken s)) = usr_client s"
  "usr_profile (fst (loadToken s)) = usr_profile s"
  "usr_pending (fst (loadToken s)) = usr_pending s"
  "usr_storage (fst (loadToken s)) = usr_storage s"
  "usr_toasts (fst (loadToken s)) = usr_toasts s"
  by (simp_all add: loadToken_def Let_def)

section \<open>Requests in flight\<close>

text \<open>
  One token per tracked request: \<open>pending\<close> counts the tokens, and a program holds its token
  exactly while it waits for the response or for its body.
\<close>

fun tracked_weight :: "query \<Rightarrow> nat" where
  "tracked_weight (Fetch rq) = 1"
| "tracked_weight ReadJson = 1"
| "tracked_weight _ = 0"

definition user_ok :: "query option \<Rightarrow> unit multiset \<Rightarrow> bool" where
  "user_ok q G \<longleftrightarrow> size G = (case q of None \<Rightarrow> 0 | Some x \<Rightarrow> tracked_weight x)"

definition user_may ::
  "'z user_api_scheme \<Rightarrow> unit multiset \<Rightarrow> 'z user_api_scheme \<Rightarrow> unit multiset \<Rightarrow> bool" where
  "user_may s G s' G' \<longleftrightarrow> usr_pending s' - usr_pending s = int (size G') - int (size G)"

definition user_pending_inv :: "'z user_api_scheme \<Rightarrow> unit multiset \<Rightarrow> bool" where
  "user_pending_inv s T \<longleftrightarrow> usr_pending s = int (size T)"

interpretation user_requests:
  counted_obligations user_ok user_may user_pending_inv tracked_weight tracked_weight
  by unfold_locales (auto simp: user_may_def user_pending_inv_def user_ok_def)

lemma user_obeys_same [obeys_intro]:
  "(\<And>s. usr_pending (f s) = usr_pending s) \<Longrightarrow> obeys user_ok user_may G (modify f) G"
  by (rule obeys_modify) (simp add: user_may_def)

lemma user_obeys_reading [obeys_intro]:
  "(\<And>s. obeys user_ok user_may G (f s) Q) \<Longrightarrow> obeys user_ok user_may G (reading f) Q"
  by (rule obeys_reading) (simp_all add: user_may_def)

lemma user_obeys_track [obeys_intro]:
  "obeys user_ok user_may {#()#} m {#()#} \<Longrightarrow> obeys user_ok user_may {#} (user_trackRequest m) {#}"
  unfolding user_trackRequest_def
  by (rule obeys_modify_seq [where G' = "{#()#}"])
    (auto simp: user_may_def intro!: obeys_finallyDo)

lemma user_ok_simps [simp]:
  "user_ok (Some (Fetch rq)) {#()#}" "user_ok (Some ReadJson) {#()#}" "user_ok None {#}"
  "user_ok (Some Confirm) {#}" "user_ok (Some (WriteClipboard t)) {#}"
  "user_ok (Some (NavigateTo p q)) {#}"
  by (simp_all add: user_ok_def)

lemma obeys_userFetch [obeys_intro]: "obeys user_ok user_may {#} (userFetch path init) {#}"
  unfolding userFetch_def by (auto intro!: obeys_intro)

lemma obeys_loadMe [obeys_intro]: "obeys user_ok user_may {#} (loadMe b) {#}"
  unfolding loadMe_def by (auto intro!: obeys_intro)

lemma obeys_user_logout [obeys_intro]: "obeys user_ok user_may {#} (user_logout b) {#}"
  unfolding user_logout_def
  by (rule obeys_finallyDo [where Q = "{#}"]) (auto simp: user_may_def intro!: obeys_intro)

lemma obeys_login [obeys_intro]: "obeys user_ok user_may {#} (login u p) {#}"
  unfolding login_def login_body_def Let_def by (auto simp: Let_def intro!: obeys_intro)

lemma obeys_updateContact [obeys_intro]: "obeys user_ok user_may {#} (updateContact e m) {#}"
  unfolding updateContact_def by (auto intro!: obeys_intro)

lemma obeys_changePassword [obeys_intro]: "obeys user_ok user_may {#} (changePassword a b) {#}"
  unfolding changePassword_def by (auto intro!: obeys_intro)

section \<open>Token and storage\<close>

text \<open>
  On the client, a non-empty access token is always the stored one, whatever requests are in
  flight: the two are only ever written together.
\<close>

definition token_stored :: "'z user_api_scheme \<Rightarrow> bool" where
  "token_stored s \<longleftrightarrow> usr_client s \<longrightarrow> usr_accessToken s \<noteq> [] \<longrightarrow> usr_storage s = Some (usr_accessToken s)"

lemma token_stored_steps [simp]:
  "token_stored (clearToken s)"
  "token_stored (user_notify t s) = token_stored s"
  "token_stored (s\<lparr>usr_pending := n\<rparr>) = token_stored s"
  "token_stored (s\<lparr>usr_profile := p\<rparr>) = token_stored s"
  "token_stored (fst (loadToken s))"
  "token_stored (s\<lparr>usr_accessToken := a, usr_storage := Some a\<rparr>)"
  "\<not> usr_client s \<Longrightarrow> token_stored (s\<lparr>usr_accessToken := a\<rparr>)"
  by (auto simp: token_stored_def clearToken_def user_notify_def loadToken_def Let_def split: option.splits)

section \<open>What the pages may call\<close>

text \<open>
  Any function of the composable, at any time and with any arguments, while others are still
  running. Results are dropped, so that all running programs have one type.
\<close>

inductive user_calls :: "'z user_api_scheme \<Rightarrow> ('z user_api_scheme, unit) prog \<Rightarrow> bool" where
  "user_calls s (modify (\<lambda>s. fst (loadToken s)))"
| "user_calls s (modify clearToken)"
| "user_calls s (user_logout b)"
| "user_calls s (void (login u p))"
| "user_calls s (void (loadMe b))"
| "user_calls s (void (updateContact e m))"
| "user_calls s (void (changePassword a b))"

lemma user_calls_obey: "user_calls s m \<Longrightarrow> obeys user_ok user_may {#} m {#}"
  by (induction rule: user_calls.induct) (auto intro!: obeys_intro)

lemma user_calls_keep: "user_calls s m \<Longrightarrow> obeys anywhere (keeps token_stored) {#} m {#}"
  by (induction rule: user_calls.induct)
    (auto simp: user_logout_def login_def login_body_def loadMe_def updateContact_def
      changePassword_def userFetch_def user_trackRequest_def Let_def
      intro!: obeys_intro keeps_modify keeps_finallyDo)

interpretation user_token: state_invariant token_stored user_calls
  by unfold_locales (rule user_calls_keep)

section \<open>Pages above the session\<close>

text \<open>
  A page extends the state by its own fields. The functions of the composable do not touch them:
  whatever a page keeps track of in \<open>J\<close> is only changed by the page itself. \<open>critical\<close> are the
  requests for which the page gives a guarantee; they are among the two updates of the account.
\<close>

definition contact_path :: jsstr where
  "contact_path = lit ''/api/me/contact''"

definition password_path :: jsstr where
  "password_path = lit ''/api/me/password''"

locale user_frame =
  fixes ok :: "query option \<Rightarrow> 't multiset \<Rightarrow> bool"
    and may :: "'z user_api_scheme \<Rightarrow> 't multiset \<Rightarrow> 'z user_api_scheme \<Rightarrow> 't multiset \<Rightarrow> bool"
    and J :: "'z user_api_scheme \<Rightarrow> 'j" and critical :: "request \<Rightarrow> bool"
  assumes step: "J s' = J s \<Longrightarrow> may s G s' G"
    and ok_read: "ok (Some ReadJson) G"
    and ok_fetch: "\<not> critical rq \<Longrightarrow> ok (Some (Fetch rq)) G"
    and critical_paths: "critical rq \<Longrightarrow> rq_path rq = contact_path \<or> rq_path rq = password_path"
    and blind:
      "J (s\<lparr>usr_accessToken := a\<rparr>) = J s" "J (s\<lparr>usr_profile := p\<rparr>) = J s"
      "J (s\<lparr>usr_pending := n\<rparr>) = J s" "J (s\<lparr>usr_storage := st\<rparr>) = J s" "J (s\<lparr>usr_toasts := ts\<rparr>) = J s"
begin

lemma frame_modify: "(\<And>s. J (f s) = J s) \<Longrightarrow> obeys ok may G (modify f) G"
  by (rule obeys_modify) (rule step)

lemma frame_reading: "(\<And>s. obeys ok may G (f s) Q) \<Longrightarrow> obeys ok may G (reading f) Q"
  by (rule obeys_reading) (simp_all add: step)

lemma frame_finallyDo:
  "obeys ok may G m Q \<Longrightarrow> (\<And>s. J (f s) = J s) \<Longrightarrow> obeys ok may G (finallyDo m f) Q"
  by (erule obeys_finallyDo) (rule step)

lemma blind_ops [simp]:
  "J (user_notify t s) = J s" "J (clearToken s) = J s" "J (fst (loadToken s)) = J s"
  by (simp_all add: user_notify_def clearToken_def loadToken_def Let_def blind)

lemmas frame_rules = frame_modify frame_reading frame_finallyDo ok_read

lemma frame_track: "obeys ok may G m G \<Longrightarrow> obeys ok may G (user_trackRequest m) G"
  unfolding user_trackRequest_def by (auto simp: blind intro!: obeys_intro frame_rules)

lemma frame_userFetch:
  "(\<And>rq. rq_path rq = path \<Longrightarrow> ok (Some (Fetch rq)) G) \<Longrightarrow> obeys ok may G (userFetch path init) G"
  unfolding userFetch_def by (auto intro!: obeys_intro frame_rules frame_track)

lemma ok_other: "rq_path rq \<noteq> contact_path \<Longrightarrow> rq_path rq \<noteq> password_path \<Longrightarrow> ok (Some (Fetch rq)) G"
  using critical_paths ok_fetch by blast

lemma frame_loadMe: "obeys ok may G (loadMe b) G"
  unfolding loadMe_def
  by (auto simp: blind contact_path_def password_path_def
      intro!: obeys_intro frame_rules frame_userFetch ok_other)

lemma frame_logout: "obeys ok may G (user_logout b) G"
  unfolding user_logout_def
  by (auto simp: contact_path_def password_path_def
      intro!: obeys_intro frame_rules frame_track ok_other)

lemma frame_login: "obeys ok may G (login u p) G"
  unfolding login_def login_body_def login_request_def Let_def
  by (auto simp: blind contact_path_def password_path_def
      intro!: obeys_intro frame_rules frame_track frame_loadMe ok_other)

lemma frame_updates:
  assumes "\<And>rq. ok (Some (Fetch rq)) G"
  shows "obeys ok may G (updateContact e m) G" and "obeys ok may G (changePassword a b) G"
  unfolding updateContact_def changePassword_def
  by (auto simp: blind intro!: obeys_intro frame_rules frame_userFetch assms)

lemmas frame_ops = frame_modify frame_reading frame_loadMe frame_logout frame_login frame_updates

end

section \<open>Outcomes\<close>

text \<open>The state of a user who is signed in with token \<open>t\<close> and of one who is not.\<close>

definition signed_in :: "jsstr \<Rightarrow> 'z user_api_scheme \<Rightarrow> bool" where
  "signed_in t s \<longleftrightarrow> usr_accessToken s = t \<and> trim t \<noteq> [] \<and> usr_profile s \<noteq> None \<and>
     (usr_client s \<longrightarrow> usr_storage s = Some t)"

definition signed_out :: "'z user_api_scheme \<Rightarrow> bool" where
  "signed_out s \<longleftrightarrow> usr_accessToken s = [] \<and> usr_profile s = None \<and>
     (usr_client s \<longrightarrow> usr_storage s = None)"

text \<open>The state after a token and a profile have been obtained.\<close>

definition establish :: "jsstr \<Rightarrow> UserProfile \<Rightarrow> 'z user_api_scheme \<Rightarrow> 'z user_api_scheme" where
  "establish t p s = s\<lparr>usr_accessToken := t, usr_profile := Some p,
     usr_storage := (if usr_client s then Some t else usr_storage s)\<rparr>"

lemma establish_steps [simp]:
  "usr_client s \<Longrightarrow> s\<lparr>usr_accessToken := t, usr_storage := Some t, usr_profile := Some p\<rparr> = establish t p s"
  "\<not> usr_client s \<Longrightarrow> s\<lparr>usr_accessToken := t, usr_profile := Some p\<rparr> = establish t p s"
  by (simp_all add: establish_def)

lemma signed_in_establish: "trim t \<noteq> [] \<Longrightarrow> signed_in t (user_notify m (establish t p s))"
  by (simp add: signed_in_def establish_def)

lemma signed_out_clear [simp]: "signed_out (user_notify t (clearToken s))" "signed_out (clearToken s)"
  by (simp_all add: signed_out_def)

lemma clearToken_absorbs [simp]:
  "clearToken (clearToken s) = clearToken s"
  "clearToken (s\<lparr>usr_accessToken := a\<rparr>) = clearToken s"
  "clearToken (s\<lparr>usr_profile := x\<rparr>) = clearToken s"
  "usr_client s \<Longrightarrow> clearToken (s\<lparr>usr_storage := st\<rparr>) = clearToken s"
  by (simp_all add: clearToken_def Let_def)

lemma clearToken_pending: "clearToken s\<lparr>usr_pending := n\<rparr> = clearToken (s\<lparr>usr_pending := n\<rparr>)"
  by (simp add: clearToken_def Let_def)

lemma userFetch_ensures:
  "ensures (userFetch path init) (\<lambda>_ s' r.
     s' = s \<and> user_tokenReady s \<and> (\<exists>p. r = Inr p) \<or>
     s' = s \<and> (\<exists>e. r = Inl e) \<or>
     s' = clearToken s \<and> user_tokenReady s \<and> r = Inl (JsError M_user_login_expired)) 2 s"
  by (auto simp: userFetch_def user_trackRequest_def clearToken_pending)

lemma loadMe_ensures:
  "ensures (loadMe b) (\<lambda>_ s' r.
     (\<exists>x. r = Inr True \<and> user_tokenReady s \<and> s' = s\<lparr>usr_profile := Some x\<rparr>) \<or>
     r = Inr False \<and>
       (if b then \<exists>f. s' = user_notify (Failure f) (clearToken s) else s' = clearToken s)) 2 s"
  by (auto simp: loadMe_def split: option.splits intro!: ensures_mono [OF userFetch_ensures])

lemma login_ensures:
  assumes "trim u \<noteq> []" and "p \<noteq> []"
  shows "ensures (login u p) (\<lambda>_ s' r.
    (\<exists>t x. r = Inr True \<and> trim t \<noteq> [] \<and> s' = user_notify (Success M_user_logged_in) (establish t x s)) \<or>
    (\<exists>f. r = Inr False \<and> s' = user_notify (Failure f) (clearToken s))) 4 s"
  using assms
  by (auto simp: login_def login_body_def user_trackRequest_def Let_def user_tokenReady_def
      intro!: ensures_mono [OF loadMe_ensures] split: option.splits) blast+

lemma user_logout_ensures:
  "ensures (user_logout b) (\<lambda>_ s' r. r = Inr () \<and>
     s' = (if b then user_notify (Success M_user_logged_out) (clearToken s) else clearToken s)) 1 s"
  by (auto simp: user_logout_def user_trackRequest_def)

lemma updateContact_ensures:
  "ensures (updateContact e m) (\<lambda>_ s' r.
    (\<exists>x. r = Inr True \<and> user_tokenReady s \<and>
       s' = user_notify (Success M_contact_saved) (s\<lparr>usr_profile := Some x\<rparr>)) \<or>
    (\<exists>f. r = Inr False \<and> s' = user_notify (Failure f) s) \<or>
    r = Inr False \<and> s' = user_notify (Failure M_user_login_expired) (clearToken s)) 2 s"
  by (auto simp: updateContact_def user_requestErrorMessage_def error_message_def split: option.splits
      intro!: ensures_mono [OF userFetch_ensures])

lemma changePassword_ensures:
  "ensures (changePassword a b) (\<lambda>_ s' r.
    (r = Inr True \<and> a \<noteq> [] \<and> b \<noteq> [] \<and> user_tokenReady s \<and>
       s' = user_notify (Success M_password_changed) s) \<or>
    (\<exists>f. r = Inr False \<and> s' = user_notify (Failure f) s) \<or>
    r = Inr False \<and> s' = user_notify (Failure M_user_login_expired) (clearToken s)) 2 s"
  by (auto simp: changePassword_def user_requestErrorMessage_def error_message_def split: option.splits
      intro!: ensures_mono [OF userFetch_ensures])

section \<open>Properties\<close>

definition user_api0 :: user_api where
  "user_api0 = \<lparr>usr_client = True, usr_accessToken = [], usr_profile = None, usr_pending = 0,
     usr_storage = None, usr_toasts = []\<rparr>"

text \<open>
  C24: \<open>login\<close> with a user name and a password always ends, after at most four answers (two
  requests and their bodies), and never throws. It returns true exactly when the user is signed
  in: the token is kept and, in the browser, stored, the profile is loaded and one success
  message is shown. Otherwise it returns false with token, profile and stored token cleared and
  one error message shown. The rest of the state, \<open>pending\<close> included, is as before. \<open>logout\<close> always
  ends after one answer and never throws: whether the server answers or is unreachable, token,
  profile and stored token are cleared, and the message is shown exactly when asked for.
\<close>

theorem login_logout_outcome:
  assumes "trim u \<noteq> []" and "p \<noteq> []" and "4 \<le> length rs"
  shows "(\<exists>qs s' m r. run (login u p) rs s = (qs, s', [m]) \<and> outcome m = Some r \<and>
      ((\<exists>t x. r = Inr True \<and> signed_in t s' \<and>
          s' = user_notify (Success M_user_logged_in) (establish t x s)) \<or>
       (\<exists>f. r = Inr False \<and> signed_out s' \<and> s' = user_notify (Failure f) (clearToken s)))) \<and>
    (\<exists>qs s' m r. run (user_logout b) rs s = (qs, s', [m]) \<and> outcome m = Some r \<and>
      r = Inr () \<and> signed_out s' \<and>
      s' = (if b then user_notify (Success M_user_logged_out) (clearToken s) else clearToken s))"
proof
  show "\<exists>qs s' m r. run (login u p) rs s = (qs, s', [m]) \<and> outcome m = Some r \<and>
      ((\<exists>t x. r = Inr True \<and> signed_in t s' \<and>
          s' = user_notify (Success M_user_logged_in) (establish t x s)) \<or>
       (\<exists>f. r = Inr False \<and> signed_out s' \<and> s' = user_notify (Failure f) (clearToken s)))"
    by (rule ensures_outcome [OF login_ensures [OF assms(1,2)] assms(3)])
      (auto intro: signed_in_establish)
  show "\<exists>qs s' m r. run (user_logout b) rs s = (qs, s', [m]) \<and> outcome m = Some r \<and>
      r = Inr () \<and> signed_out s' \<and>
      s' = (if b then user_notify (Success M_user_logged_out) (clearToken s) else clearToken s)"
    by (rule ensures_outcome [OF user_logout_ensures]) (use assms(3) in simp_all)
qed

theorem login_logout_outcome_witness:
  "(\<exists>qs s' m. run (login (lit ''a'') (lit ''b'')) (replicate 4 (Rejected NonError)) user_api0 = (qs, s', [m]) \<and>
     outcome m \<noteq> None \<and> (signed_out s' \<or> (\<exists>t. signed_in t s'))) \<and>
   (\<exists>qs s' m. run (user_logout True) (replicate 4 (Rejected NonError)) user_api0 = (qs, s', [m]) \<and> signed_out s')"
proof -
  have "trim (lit ''a'') \<noteq> []" "lit ''b'' \<noteq> []" "4 \<le> length (replicate 4 (Rejected NonError))"
    by (simp_all add: trim_eval)
  from login_logout_outcome [OF this, of user_api0 True] show ?thesis
    by (metis option.distinct(1))
qed

text \<open>
  C3: at every moment, whatever calls overlap and in whatever order they are answered, \<open>pending\<close>
  is exactly the number of requests that wait for their response or its body. So \<open>loading\<close>
  is true iff some request is in flight, and \<open>pending\<close> is never negative.
\<close>

theorem user_pending_exact:
  assumes "reachable user_calls s0 c" and "usr_pending s0 = 0"
  shows "usr_pending (fst c) = int (sum_list (map tracked_weight (pool_waits c)))
    \<and> (user_loading (fst c) \<longleftrightarrow> (\<exists>q \<in> set (pool_waits c). tracked_weight q = 1))"
proof -
  have "user_pending_inv s0 {#}"
    using assms(2) by (simp add: user_pending_inv_def)
  from user_requests.reachable_bounded [OF assms(1) this user_calls_obey]
  have p: "usr_pending (fst c) = int (sum_list (map tracked_weight (pool_waits c)))"
    by (force simp: user_pending_inv_def)
  have "0 < sum_list (map tracked_weight qs) \<longleftrightarrow> (\<exists>q \<in> set qs. tracked_weight q = 1)" for qs
  proof (induction qs)
    case (Cons q qs)
    then show ?case by (cases q) auto
  qed simp
  with p show ?thesis
    by (simp add: user_loading_def)
qed

theorem user_pending_exact_witness:
  "usr_pending (fst (call (user_logout True) (call (void (loadMe True)) (user_api0\<lparr>usr_accessToken := lit ''t''\<rparr>, [])))) = 2"
proof -
  let ?s = "user_api0\<lparr>usr_accessToken := lit ''t''\<rparr>"
  let ?c = "call (user_logout True) (call (void (loadMe True)) (?s, []))"
  have "reachable user_calls ?s ?c"
    by (intro reachable.intros user_calls.intros)
  moreover have "trim (lit ''t'') \<noteq> []"
    by (simp add: trim_eval)
  then have "map tracked_weight (pool_waits ?c) = [1, 1]"
    by (simp add: js_eval exec_defs user_api0_def)
  ultimately show ?thesis
    using user_pending_exact [of ?s ?c] by (simp add: user_api0_def)
qed

text \<open>
  C25: in the browser, a non-empty access token is always the stored one, at every moment and
  whatever calls overlap: a reload never finds another token than the one in use.
\<close>

theorem token_always_stored:
  assumes "reachable user_calls s0 c" and "token_stored s0"
  shows "token_stored (fst c)"
  using assms by (rule user_token.reachable_invariant)

theorem token_always_stored_witness:
  "token_stored (fst (call (void (login (lit ''a'') (lit ''b''))) (user_api0, [])))"
  by (rule token_always_stored [of user_api0])
    (auto simp: token_stored_def user_api0_def intro!: reachable.intros user_calls.intros)

lemma userFetch_authorized:
  assumes "lit ''authorization'' \<notin> fst ` set (in_headers init)"
  shows "case call (userFetch path init) (s, []) of (s', ms) \<Rightarrow>
    if user_tokenReady s then
      usr_pending s' = usr_pending s + 1 \<and>
      (\<exists>rq. pool_waits (s', ms) = [Fetch rq] \<and> rq_path rq = path \<and> rq_body rq = in_body init \<and>
         map_of (rq_headers rq) (lit ''authorization'') = Some (lit ''Bearer '' @ trim (usr_accessToken s)))
    else s' = s \<and> pool_waits (s', ms) = []"
proof -
  have "map_of (rev (in_headers init)) (lit ''authorization'') = None"
    using assms by (simp add: map_of_eq_None_iff)
  then show ?thesis
    by (auto simp: userFetch_def user_trackRequest_def fetch_def async_defs call_def pool_waits_def
        map_of_spread json_content_def map_add_def split: option.splits)
qed

text \<open>
  C35: a contact update that is answered after the user has logged out puts the profile back. A
  signed-in user sends an update of the contact data and logs out before it is answered; whatever
  the logout is answered, token, stored token and profile are then gone and only the update is still
  in flight. Its answer ends the call and shows the profile of the former session again, although
  nobody is signed in.
\<close>

theorem late_contact_update_restores_profile:
  assumes "user_tokenReady s" and "usr_client s" and "response_ok k" and "rs_status k \<noteq> 204"
  shows "let c1 = call (void (updateContact email mobile)) (s, []);
      c2 = answer 1 r (call (user_logout b) c1);
      c3 = schedule [(0, Responded k), (0, Json (P_contact x))] c2
    in reachable user_calls s c3 \<and>
      (\<exists>rq. pool_waits c1 = [Fetch rq] \<and> rq_method rq = PATCH \<and> rq_path rq = lit ''/api/me/contact'' \<and>
         pool_waits c2 = [Fetch rq]) \<and>
      usr_accessToken (fst c2) = [] \<and> usr_storage (fst c2) = None \<and> usr_profile (fst c2) = None \<and>
      idle c3 \<and> usr_accessToken (fst c3) = [] \<and> usr_storage (fst c3) = None \<and>
      usr_profile (fst c3) = Some (cu_profile x)"
proof -
  let ?c = "schedule [(0, Responded k), (0, Json (P_contact x))]
    (answer 1 r (call (user_logout b) (call (void (updateContact email mobile)) (s, []))))"
  have "reachable user_calls s ?c"
    by (intro reachable_schedule reachable.intros user_calls.intros)
  with assms show ?thesis
    by (cases r) (auto simp: js_eval exec_defs Let_def idle_def response_ok_def)
qed

theorem late_contact_update_restores_profile_witness:
  "let s = user_api0\<lparr>usr_accessToken := lit ''t'', usr_storage := Some (lit ''t'')\<rparr>;
       k = \<lparr>rs_status = 200, rs_statusText = []\<rparr>
   in \<forall>x. usr_profile (fst (schedule [(0, Responded k), (0, Json (P_contact x))]
        (answer 1 (Responded k) (call (user_logout True) (call (void (updateContact None None)) (s, [])))))) =
      Some (cu_profile x)"
proof -
  let ?s = "user_api0\<lparr>usr_accessToken := lit ''t'', usr_storage := Some (lit ''t'')\<rparr>"
  let ?k = "\<lparr>rs_status = 200, rs_statusText = []\<rparr>"
  have "user_tokenReady ?s" "usr_client ?s" "response_ok ?k" "rs_status ?k \<noteq> 204"
    by (simp_all add: user_tokenReady_def user_api0_def trim_eval response_ok_def)
  from late_contact_update_restores_profile [OF this, of None None "Responded ?k" True] show ?thesis
    unfolding Let_def by blast
qed

end
