(* ===== verification/Admin_Api.thy ===== *)
theory Admin_Api
  imports Wire User_Api
begin

text \<open>
  \<open>portal/web/app/composables/useAdminApi.ts\<close>: the administration session, its data and their
  loading flags. The shared state is a record, \<open>adm_toasts\<close> the notifications shown so far. Every
  function that the composable returns is a definition. All requests are sent with the default
  credentials mode \<open>same-origin\<close>, which is left implicit.
\<close>

section \<open>State\<close>

record admin_api =
  adm_csrfToken :: jsstr
  adm_authenticated :: bool
  adm_pending :: int
  adm_domains :: "Domain list"
  adm_domainAttributeDefaults :: DomainAttributeDefaults
  adm_organizationalUnits :: "OrganizationalUnit list"
  adm_users :: "UserRecord list"
  adm_groups :: "GroupRecord list"
  adm_syncDomains :: "SyncDomain list"
  adm_oauthClients :: "OAuthClient list"
  adm_ousLoading :: bool
  adm_usersLoading :: bool
  adm_groupsLoading :: bool
  adm_domainsLoading :: bool
  adm_syncLoading :: bool
  adm_clientsLoading :: bool
  adm_toasts :: "toast list"

definition admin_requestErrorMessage :: "js_error \<Rightarrow> message \<Rightarrow> message" where
  "admin_requestErrorMessage e fallback = error_message e fallback"

definition admin_notify :: "toast \<Rightarrow> 'z admin_api_scheme \<Rightarrow> 'z admin_api_scheme" where
  "admin_notify t s = s\<lparr>adm_toasts := adm_toasts s @ [t]\<rparr>"

definition admin_tokenReady :: "'z admin_api_scheme \<Rightarrow> bool" where
  "admin_tokenReady s \<longleftrightarrow> adm_authenticated s \<and> 0 < length (adm_csrfToken s)"

definition directoryLoading :: "'z admin_api_scheme \<Rightarrow> bool" where
  "directoryLoading s \<longleftrightarrow> adm_ousLoading s \<or> adm_usersLoading s \<or> adm_groupsLoading s"

section \<open>Session and requests\<close>

definition resetData :: "'z admin_api_scheme \<Rightarrow> 'z admin_api_scheme" where
  "resetData s = s\<lparr>adm_domains := [], adm_organizationalUnits := [], adm_users := [], adm_groups := [],
     adm_syncDomains := [], adm_oauthClients := []\<rparr>"

definition clearSession :: "'z admin_api_scheme \<Rightarrow> 'z admin_api_scheme" where
  "clearSession s = resetData (s\<lparr>adm_csrfToken := [], adm_authenticated := False\<rparr>)"

definition admin_trackRequest :: "('z admin_api_scheme, 'a) prog \<Rightarrow> ('z admin_api_scheme, 'a) prog" where
  "admin_trackRequest request =
     seqThen (modify (\<lambda>s. s\<lparr>adm_pending := adm_pending s + 1\<rparr>))
       (finallyDo request (\<lambda>s. s\<lparr>adm_pending := adm_pending s - 1\<rparr>))"

definition csrf_header :: jsstr where
  "csrf_header = lit ''x-adscope-csrf-token''"

text \<open>The result is the parsed body, or \<open>None\<close> (undefined) for a response without content.\<close>

definition adminFetch :: "jsstr \<Rightarrow> request_init \<Rightarrow> ('z admin_api_scheme, payload option) prog" where
  "adminFetch path init = reading (\<lambda>s.
     if \<not> admin_tokenReady s then Thr (JsError M_admin_login_first)
     else
       (let method = (case in_method init of None \<Rightarrow> GET | Some m \<Rightarrow> m) in
        admin_trackRequest (reading (\<lambda>s.
          andThen
            (fetch \<lparr>rq_path = path, rq_method = method,
               rq_headers =
                 spread
                   (spread (case in_body init of None \<Rightarrow> [] | Some _ \<Rightarrow> json_content)
                     (if method = GET \<or> method = HEAD \<or> method = OPTIONS then []
                      else [(csrf_header, adm_csrfToken s)]))
                   (in_headers init),
               rq_body = in_body init\<rparr>)
            (\<lambda>resp.
               if \<not> response_ok resp then
                 if rs_status resp = 401 then
                   seqThen (modify clearSession) (Thr (JsError M_admin_session_expired))
                 else Thr (JsError (status_message resp))
               else if rs_status resp = 204 then Ret None
               else andThen readJson (\<lambda>p. Ret (Some p)))))))"

definition runAction ::
  "('z admin_api_scheme, unit) prog \<Rightarrow> message option \<Rightarrow> ('z admin_api_scheme, unit) prog" where
  "runAction action successMessage =
     catching
       (seqThen action
         (modify (\<lambda>s. case successMessage of None \<Rightarrow> s | Some m \<Rightarrow> admin_notify (Success m) s)))
       (\<lambda>e. modify (admin_notify (Failure (admin_requestErrorMessage e M_request_failed))))"

section \<open>Loading\<close>

definition bodyAs :: "(payload \<Rightarrow> 'x option) \<Rightarrow> payload option \<Rightarrow> ('s, 'x) prog" where
  "bodyAs sel p = asType (\<lambda>p. Option.bind p sel) p"

definition loadDomains :: "('z admin_api_scheme, unit) prog" where
  "loadDomains = withFlag (\<lambda>b s. s\<lparr>adm_domainsLoading := b\<rparr>)
     (andThen (adminFetch (lit ''/api/admin/domains'') init0) (\<lambda>p.
      andThen (bodyAs (\<lambda>p. case p of P_domains ds df \<Rightarrow> Some (ds, df) | _ \<Rightarrow> None) p) (\<lambda>(ds, df).
        modify (\<lambda>s. s\<lparr>adm_domains := ds, adm_domainAttributeDefaults := df\<rparr>))))"

definition loadOus :: "('z admin_api_scheme, unit) prog" where
  "loadOus = withFlag (\<lambda>b s. s\<lparr>adm_ousLoading := b\<rparr>)
     (andThen (adminFetch (lit ''/api/admin/ous/tree'') init0) (\<lambda>p.
      andThen (bodyAs (\<lambda>p. case p of P_ous xs \<Rightarrow> Some xs | _ \<Rightarrow> None) p) (\<lambda>xs.
        modify (\<lambda>s. s\<lparr>adm_organizationalUnits := xs\<rparr>))))"

definition loadUsers :: "('z admin_api_scheme, unit) prog" where
  "loadUsers = withFlag (\<lambda>b s. s\<lparr>adm_usersLoading := b\<rparr>)
     (andThen (adminFetch (lit ''/api/admin/users'') init0) (\<lambda>p.
      andThen (bodyAs (\<lambda>p. case p of P_users xs \<Rightarrow> Some xs | _ \<Rightarrow> None) p) (\<lambda>xs.
        modify (\<lambda>s. s\<lparr>adm_users := xs\<rparr>))))"

definition loadGroups :: "('z admin_api_scheme, unit) prog" where
  "loadGroups = withFlag (\<lambda>b s. s\<lparr>adm_groupsLoading := b\<rparr>)
     (andThen (adminFetch (lit ''/api/admin/groups'') init0) (\<lambda>p.
      andThen (bodyAs (\<lambda>p. case p of P_groups xs \<Rightarrow> Some xs | _ \<Rightarrow> None) p) (\<lambda>xs.
        modify (\<lambda>s. s\<lparr>adm_groups := xs\<rparr>))))"

definition loadSyncDomains :: "('z admin_api_scheme, unit) prog" where
  "loadSyncDomains = withFlag (\<lambda>b s. s\<lparr>adm_syncLoading := b\<rparr>)
     (andThen (adminFetch (lit ''/api/admin/sync/domains'') init0) (\<lambda>p.
      andThen (bodyAs (\<lambda>p. case p of P_sync xs \<Rightarrow> Some xs | _ \<Rightarrow> None) p) (\<lambda>xs.
        modify (\<lambda>s. s\<lparr>adm_syncDomains := xs\<rparr>))))"

definition loadOAuthClients :: "('z admin_api_scheme, unit) prog" where
  "loadOAuthClients = withFlag (\<lambda>b s. s\<lparr>adm_clientsLoading := b\<rparr>)
     (andThen (adminFetch (lit ''/api/admin/oauth-clients'') init0) (\<lambda>p.
      andThen (bodyAs (\<lambda>p. case p of P_clients xs \<Rightarrow> Some xs | _ \<Rightarrow> None) p) (\<lambda>xs.
        modify (\<lambda>s. s\<lparr>adm_oauthClients := xs\<rparr>))))"

definition loadDirectory :: "('z admin_api_scheme, unit) prog" where
  "loadDirectory = promiseAll [loadOus, loadUsers, loadGroups]"

definition loadAll :: "('z admin_api_scheme, unit) prog" where
  "loadAll = promiseAll [loadDirectory, loadDomains, loadSyncDomains, loadOAuthClients]"

definition refreshDirectory :: "('z admin_api_scheme, unit) prog" where
  "refreshDirectory =
     runAction (promiseAll [loadOus, loadUsers, loadGroups, loadSyncDomains]) (Some M_directory_refreshed)"

definition refreshAll :: "('z admin_api_scheme, unit) prog" where
  "refreshAll = runAction loadAll (Some M_data_refreshed)"

section \<open>Signing in and out\<close>

definition sel_csrf :: "payload \<Rightarrow> jsstr option" where
  "sel_csrf p = (case p of P_csrf t \<Rightarrow> Some t | _ \<Rightarrow> None)"

definition session_path :: jsstr where
  "session_path = lit ''/api/admin/session''"

text \<open>The common end of the two ways in: keep the token of the body and load all data.\<close>

definition enter_session :: "('z admin_api_scheme, unit) prog" where
  "enter_session =
     andThen readJson (\<lambda>p. andThen (asType sel_csrf p) (\<lambda>t.
       seqThen (modify (\<lambda>s. s\<lparr>adm_csrfToken := t, adm_authenticated := True\<rparr>)) loadAll))"

definition restoreSession :: "('z admin_api_scheme, bool) prog" where
  "restoreSession =
     catching
       (andThen
         (admin_trackRequest (fetch \<lparr>rq_path = session_path, rq_method = GET, rq_headers = [],
            rq_body = None\<rparr>))
         (\<lambda>resp.
            if \<not> response_ok resp then seqThen (modify clearSession) (Ret False)
            else seqThen enter_session (Ret True)))
       (\<lambda>_. seqThen (modify clearSession) (Ret False))"

definition authenticateToken :: "jsstr \<Rightarrow> bool \<Rightarrow> ('z admin_api_scheme, bool) prog" where
  "authenticateToken token showSuccess =
     (let trimmedToken = trim token in
      if trimmedToken = [] then
        seqThen (modify (admin_notify (Failure M_admin_enter_credential))) (Ret False)
      else
        catching
          (andThen
            (admin_trackRequest (fetch \<lparr>rq_path = session_path, rq_method = POST,
               rq_headers = json_content,
               rq_body = Some (JObj [(lit ''token'', JStr trimmedToken)])\<rparr>))
            (\<lambda>resp.
               if \<not> response_ok resp then
                 Thr (JsError
                   (if rs_status resp = 401 \<or> rs_status resp = 403 then M_admin_credential_invalid
                    else status_message resp))
               else
                 seqThen enter_session
                   (seqThen
                     (modify (\<lambda>s. if showSuccess then admin_notify (Success M_admin_entered) s else s))
                     (Ret True))))
          (\<lambda>e. seqThen
             (modify (\<lambda>s. admin_notify (Failure (admin_requestErrorMessage e M_admin_credential_invalid))
                (clearSession s)))
             (Ret False)))"

definition admin_logout :: "('z admin_api_scheme, bool) prog" where
  "admin_logout = reading (\<lambda>s.
     if \<not> adm_authenticated s then Ret True
     else
       seqThen
         (finallyDo
           (catching
             (seqThen
               (admin_trackRequest (fetch \<lparr>rq_path = session_path, rq_method = DELETE,
                  rq_headers = [(csrf_header, adm_csrfToken s)], rq_body = None\<rparr>))
               (Ret ()))
             (\<lambda>_. Ret ()))
           clearSession)
         (seqThen (modify (admin_notify (Success M_admin_exited))) (Ret True)))"

section \<open>OAuth clients\<close>

text \<open>
  A path with an encoded segment; \<open>encodeURIComponent\<close> throws an \<open>URIError\<close> on a lone surrogate.
\<close>

definition withSegment :: "jsstr \<Rightarrow> (jsstr \<Rightarrow> ('s, 'a) prog) \<Rightarrow> ('s, 'a) prog" where
  "withSegment x f = (case encodeURIComponent x of
     None \<Rightarrow> Thr (JsError (M_native (lit ''URIError''))) | Some e \<Rightarrow> f e)"

definition client_path :: "jsstr \<Rightarrow> jsstr" where
  "client_path encoded = lit ''/api/admin/oauth-clients/'' @ encoded"

definition scope_name :: "OAuthScope \<Rightarrow> jsstr" where
  "scope_name s = lit (case s of Openid \<Rightarrow> ''openid'' | Profile \<Rightarrow> ''profile'' | Email \<Rightarrow> ''email''
     | Phone \<Rightarrow> ''phone'')"

definition client_type_name :: "OAuthClientType \<Rightarrow> jsstr" where
  "client_type_name t = lit (case t of Web \<Rightarrow> ''web'' | Desktop \<Rightarrow> ''desktop'')"

definition create_request_json :: "CreateOAuthClientRequest \<Rightarrow> json" where
  "create_request_json r = JObj
     [(lit ''name'', JStr (cr_name r)), (lit ''client_type'', JStr (client_type_name (cr_client_type r))),
      (lit ''redirect_uris'', JArr (map JStr (cr_redirect_uris r))),
      (lit ''allowed_scopes'', JArr (map (JStr \<circ> scope_name) (cr_allowed_scopes r))),
      (lit ''enabled'', JBool (cr_enabled r))]"

definition update_request_json :: "UpdateOAuthClientRequest \<Rightarrow> json" where
  "update_request_json r = JObj
     [(lit ''name'', JStr (uq_name r)),
      (lit ''redirect_uris'', JArr (map JStr (uq_redirect_uris r))),
      (lit ''allowed_scopes'', JArr (map (JStr \<circ> scope_name) (uq_allowed_scopes r))),
      (lit ''enabled'', JBool (uq_enabled r))]"

definition createOAuthClient ::
  "CreateOAuthClientRequest \<Rightarrow> ('z admin_api_scheme, OAuthClientCreateResponse) prog" where
  "createOAuthClient request =
     andThen
       (adminFetch (lit ''/api/admin/oauth-clients'') (init_body POST (create_request_json request)))
       (\<lambda>p. andThen (bodyAs (\<lambda>p. case p of P_client_created r \<Rightarrow> Some r | _ \<Rightarrow> None) p) (\<lambda>r.
          seqThen (modify (\<lambda>s. s\<lparr>adm_oauthClients := adm_oauthClients s @ [ccr_client r]\<rparr>)) (Ret r)))"

definition replace_client :: "OAuthClient \<Rightarrow> OAuthClient list \<Rightarrow> OAuthClient list" where
  "replace_client response = map (\<lambda>client.
     if oc_client_id client = oc_client_id response then response else client)"

definition updateOAuthClient ::
  "jsstr \<Rightarrow> UpdateOAuthClientRequest \<Rightarrow> ('z admin_api_scheme, OAuthClient) prog" where
  "updateOAuthClient clientId request =
     withSegment clientId (\<lambda>c.
       andThen (adminFetch (client_path c) (init_body PATCH (update_request_json request)))
         (\<lambda>p. andThen (bodyAs (\<lambda>p. case p of P_client r \<Rightarrow> Some r | _ \<Rightarrow> None) p) (\<lambda>r.
            seqThen (modify (\<lambda>s. s\<lparr>adm_oauthClients := replace_client r (adm_oauthClients s)\<rparr>)) (Ret r))))"

definition deleteOAuthClient :: "jsstr \<Rightarrow> ('z admin_api_scheme, unit) prog" where
  "deleteOAuthClient clientId =
     withSegment clientId (\<lambda>c.
       seqThen (adminFetch (client_path c) (init_of DELETE))
         (modify (\<lambda>s. s\<lparr>adm_oauthClients :=
            filter (\<lambda>client. oc_client_id client \<noteq> clientId) (adm_oauthClients s)\<rparr>)))"

definition regenerateOAuthClientSecret ::
  "jsstr \<Rightarrow> ('z admin_api_scheme, OAuthClientSecretResponse) prog" where
  "regenerateOAuthClientSecret clientId =
     withSegment clientId (\<lambda>c.
       andThen (adminFetch (client_path c @ lit ''/secret'') (init_of POST))
         (bodyAs (\<lambda>p. case p of P_secret r \<Rightarrow> Some r | _ \<Rightarrow> None)))"

lemmas admin_ops =
  admin_trackRequest_def adminFetch_def runAction_def bodyAs_def loadDomains_def loadOus_def
  loadUsers_def loadGroups_def loadSyncDomains_def loadOAuthClients_def loadDirectory_def loadAll_def
  refreshDirectory_def refreshAll_def enter_session_def restoreSession_def authenticateToken_def
  admin_logout_def createOAuthClient_def updateOAuthClient_def deleteOAuthClient_def
  regenerateOAuthClientSecret_def

lemmas admin_api_defs [js_eval] =
  admin_ops admin_requestErrorMessage_def admin_notify_def admin_tokenReady_def resetData_def
  clearSession_def sel_csrf_def withSegment_def

lemma admin_notify_fields [simp]:
  "adm_csrfToken (admin_notify t s) = adm_csrfToken s"
  "adm_authenticated (admin_notify t s) = adm_authenticated s"
  "adm_pending (admin_notify t s) = adm_pending s"
  "adm_domains (admin_notify t s) = adm_domains s"
  "adm_organizationalUnits (admin_notify t s) = adm_organizationalUnits s"
  "adm_users (admin_notify t s) = adm_users s"
  "adm_groups (admin_notify t s) = adm_groups s"
  "adm_syncDomains (admin_notify t s) = adm_syncDomains s"
  "adm_oauthClients (admin_notify t s) = adm_oauthClients s"
  "adm_toasts (admin_notify t s) = adm_toasts s @ [t]"
  by (simp_all add: admin_notify_def)

lemma clearSession_fields [simp]:
  "adm_csrfToken (clearSession s) = []"
  "adm_authenticated (clearSession s) = False"
  "adm_pending (clearSession s) = adm_pending s"
  "adm_domains (clearSession s) = []"
  "adm_organizationalUnits (clearSession s) = []"
  "adm_users (clearSession s) = []"
  "adm_groups (clearSession s) = []"
  "adm_syncDomains (clearSession s) = []"
  "adm_oauthClients (clearSession s) = []"
  "adm_toasts (clearSession s) = adm_toasts s"
  by (simp_all add: clearSession_def resetData_def)

section \<open>Requests in flight\<close>

text \<open>
  A program holds a token while it waits for a response. While it reads a body it holds one in
  \<open>adminFetch\<close>, but not in \<open>restoreSession\<close> and \<open>authenticateToken\<close>, which read the body outside
  \<open>trackRequest\<close>.
\<close>

fun fetch_weight :: "query \<Rightarrow> nat" where
  "fetch_weight (Fetch rq) = 1"
| "fetch_weight _ = 0"

definition admin_ok :: "query option \<Rightarrow> unit multiset \<Rightarrow> bool" where
  "admin_ok q G \<longleftrightarrow> (case q of
     None \<Rightarrow> G = {#} | Some x \<Rightarrow> fetch_weight x \<le> size G \<and> size G \<le> tracked_weight x)"

definition admin_may ::
  "'z admin_api_scheme \<Rightarrow> unit multiset \<Rightarrow> 'z admin_api_scheme \<Rightarrow> unit multiset \<Rightarrow> bool" where
  "admin_may s G s' G' \<longleftrightarrow> adm_pending s' - adm_pending s = int (size G') - int (size G)"

definition admin_pending_inv :: "'z admin_api_scheme \<Rightarrow> unit multiset \<Rightarrow> bool" where
  "admin_pending_inv s T \<longleftrightarrow> adm_pending s = int (size T)"

interpretation admin_requests:
  counted_obligations admin_ok admin_may admin_pending_inv fetch_weight tracked_weight
  by unfold_locales (auto simp: admin_may_def admin_pending_inv_def admin_ok_def)

lemma admin_obeys_same [obeys_intro]:
  "(\<And>s. adm_pending (f s) = adm_pending s) \<Longrightarrow> obeys admin_ok admin_may G (modify f) G"
  by (rule obeys_modify) (simp add: admin_may_def)

lemma admin_obeys_reading [obeys_intro]:
  "(\<And>s. obeys admin_ok admin_may G (f s) Q) \<Longrightarrow> obeys admin_ok admin_may G (reading f) Q"
  by (rule obeys_reading) (simp_all add: admin_may_def)

lemma admin_obeys_finally [obeys_intro]:
  "obeys admin_ok admin_may G m Q \<Longrightarrow> (\<And>s. adm_pending (f s) = adm_pending s) \<Longrightarrow>
    obeys admin_ok admin_may G (finallyDo m f) Q"
  by (rule obeys_finallyDo) (simp_all add: admin_may_def)

lemma admin_obeys_withFlag [obeys_intro]:
  "obeys admin_ok admin_may G m G \<Longrightarrow> (\<And>b s. adm_pending (up b s) = adm_pending s) \<Longrightarrow>
    obeys admin_ok admin_may G (withFlag up m) G"
  unfolding withFlag_def by (intro obeys_seqThen admin_obeys_same admin_obeys_finally)

lemma admin_obeys_track [obeys_intro]:
  "obeys admin_ok admin_may {#()#} m {#()#} \<Longrightarrow> obeys admin_ok admin_may {#} (admin_trackRequest m) {#}"
  unfolding admin_trackRequest_def
  by (rule obeys_modify_seq [where G' = "{#()#}"])
    (auto simp: admin_may_def intro!: obeys_finallyDo)

lemma admin_ok_simps [simp]:
  "admin_ok (Some (Fetch rq)) {#()#}" "admin_ok (Some ReadJson) {#()#}" "admin_ok (Some ReadJson) {#}"
  "admin_ok None {#}" "admin_ok (Some Confirm) {#}" "admin_ok (Some (WriteClipboard t)) {#}"
  "admin_ok (Some (NavigateTo p q)) {#}"
  by (simp_all add: admin_ok_def)

lemma obeys_bodyAs [obeys_intro]: "obeys ok may G (bodyAs sel p) G"
  unfolding bodyAs_def by (rule obeys_asType)

lemma obeys_withSegment [obeys_intro]:
  "(\<And>e. obeys ok may G (f e) G) \<Longrightarrow> obeys ok may G (withSegment x f) G"
  by (auto simp: withSegment_def intro: obeys_Thr split: option.splits)

lemma obeys_case_prod [obeys_intro]:
  "(\<And>x y. obeys ok may G (f x y) G) \<Longrightarrow> obeys ok may G (case p of (x, y) \<Rightarrow> f x y) G"
  by (cases p) simp

lemma obeys_adminFetch [obeys_intro]: "obeys admin_ok admin_may {#} (adminFetch path init) {#}"
  unfolding adminFetch_def Let_def by (auto intro!: obeys_intro)

lemma obeys_runAction [obeys_intro]:
  "obeys admin_ok admin_may {#} m {#} \<Longrightarrow> obeys admin_ok admin_may {#} (runAction m msg) {#}"
  unfolding runAction_def by (auto intro!: obeys_intro split: option.splits)

lemma obeys_loads [obeys_intro]:
  "obeys admin_ok admin_may {#} loadDomains {#}"
  "obeys admin_ok admin_may {#} loadOus {#}"
  "obeys admin_ok admin_may {#} loadUsers {#}"
  "obeys admin_ok admin_may {#} loadGroups {#}"
  "obeys admin_ok admin_may {#} loadSyncDomains {#}"
  "obeys admin_ok admin_may {#} loadOAuthClients {#}"
  unfolding loadDomains_def loadOus_def loadUsers_def loadGroups_def loadSyncDomains_def
    loadOAuthClients_def
  by (auto intro!: obeys_intro)

lemma obeys_loadAll [obeys_intro]:
  "obeys admin_ok admin_may {#} loadDirectory {#}"
  "obeys admin_ok admin_may {#} loadAll {#}"
  unfolding loadAll_def loadDirectory_def by (auto intro!: obeys_intro)

lemma obeys_sessions [obeys_intro]:
  "obeys admin_ok admin_may {#} refreshDirectory {#}"
  "obeys admin_ok admin_may {#} refreshAll {#}"
  "obeys admin_ok admin_may {#} enter_session {#}"
  "obeys admin_ok admin_may {#} restoreSession {#}"
  "obeys admin_ok admin_may {#} (authenticateToken tok b) {#}"
  "obeys admin_ok admin_may {#} admin_logout {#}"
  unfolding refreshDirectory_def refreshAll_def enter_session_def restoreSession_def authenticateToken_def
    admin_logout_def Let_def
  by (auto intro!: obeys_intro)

lemma obeys_clients [obeys_intro]:
  "obeys admin_ok admin_may {#} (createOAuthClient r) {#}"
  "obeys admin_ok admin_may {#} (updateOAuthClient i u) {#}"
  "obeys admin_ok admin_may {#} (deleteOAuthClient i) {#}"
  "obeys admin_ok admin_may {#} (regenerateOAuthClientSecret i) {#}"
  unfolding createOAuthClient_def updateOAuthClient_def deleteOAuthClient_def
    regenerateOAuthClientSecret_def
  by (auto intro!: obeys_intro)

section \<open>Loading flags\<close>

datatype load_flag = L_domains | L_ous | L_users | L_groups | L_sync | L_clients

primrec load_flag_set :: "load_flag \<Rightarrow> 'z admin_api_scheme \<Rightarrow> bool" where
  "load_flag_set L_domains = adm_domainsLoading"
| "load_flag_set L_ous = adm_ousLoading"
| "load_flag_set L_users = adm_usersLoading"
| "load_flag_set L_groups = adm_groupsLoading"
| "load_flag_set L_sync = adm_syncLoading"
| "load_flag_set L_clients = adm_clientsLoading"

abbreviation loads_of :: "load_flag multiset \<Rightarrow> ('z admin_api_scheme, 'a) prog \<Rightarrow> bool" where
  "loads_of G m \<equiv> obeys anywhere (flag_may load_flag_set) G m G"

lemma load_flag_unchanged [simp]:
  "load_flag_set f (admin_notify t s) = load_flag_set f s"
  "load_flag_set f (clearSession s) = load_flag_set f s"
  "load_flag_set f (s\<lparr>adm_pending := n\<rparr>) = load_flag_set f s"
  "load_flag_set f (s\<lparr>adm_csrfToken := c, adm_authenticated := a\<rparr>) = load_flag_set f s"
  "load_flag_set f (s\<lparr>adm_domains := ds, adm_domainAttributeDefaults := df\<rparr>) = load_flag_set f s"
  "load_flag_set f (s\<lparr>adm_organizationalUnits := os\<rparr>) = load_flag_set f s"
  "load_flag_set f (s\<lparr>adm_users := us\<rparr>) = load_flag_set f s"
  "load_flag_set f (s\<lparr>adm_groups := gs\<rparr>) = load_flag_set f s"
  "load_flag_set f (s\<lparr>adm_syncDomains := sd\<rparr>) = load_flag_set f s"
  "load_flag_set f (s\<lparr>adm_oauthClients := oc\<rparr>) = load_flag_set f s"
  by (cases f; simp add: admin_notify_def clearSession_def resetData_def)+

lemma load_flag_update [simp]:
  "load_flag_set f (s\<lparr>adm_domainsLoading := b\<rparr>) = (if f = L_domains then b else load_flag_set f s)"
  "load_flag_set f (s\<lparr>adm_ousLoading := b\<rparr>) = (if f = L_ous then b else load_flag_set f s)"
  "load_flag_set f (s\<lparr>adm_usersLoading := b\<rparr>) = (if f = L_users then b else load_flag_set f s)"
  "load_flag_set f (s\<lparr>adm_groupsLoading := b\<rparr>) = (if f = L_groups then b else load_flag_set f s)"
  "load_flag_set f (s\<lparr>adm_syncLoading := b\<rparr>) = (if f = L_sync then b else load_flag_set f s)"
  "load_flag_set f (s\<lparr>adm_clientsLoading := b\<rparr>) = (if f = L_clients then b else load_flag_set f s)"
  by (cases f; simp)+

lemma load_withFlag_of:
  assumes "\<And>G. loads_of G m"
    and "\<And>g b s. load_flag_set g (up b s) = (if g = f then b else load_flag_set g s)"
  shows "loads_of G (withFlag up m)"
  by (rule flag_withFlag [where f = f, OF assms(1)]) (auto simp: assms(2) split: if_splits)

lemmas load_withFlag [obeys_intro] =
  load_withFlag_of [OF _ load_flag_update(1)] load_withFlag_of [OF _ load_flag_update(2)]
  load_withFlag_of [OF _ load_flag_update(3)] load_withFlag_of [OF _ load_flag_update(4)]
  load_withFlag_of [OF _ load_flag_update(5)] load_withFlag_of [OF _ load_flag_update(6)]

lemma loads_adminFetch [obeys_intro]: "loads_of G (adminFetch path init)"
  unfolding adminFetch_def admin_trackRequest_def Let_def by (auto intro!: obeys_intro)

lemma loads_runAction [obeys_intro]: "loads_of G m \<Longrightarrow> loads_of G (runAction m msg)"
  unfolding runAction_def by (auto intro!: obeys_intro split: option.splits)

lemma loads_loads [obeys_intro]:
  "loads_of G loadDomains" "loads_of G loadOus" "loads_of G loadUsers"
  "loads_of G loadGroups" "loads_of G loadSyncDomains" "loads_of G loadOAuthClients"
  unfolding loadDomains_def loadOus_def loadUsers_def loadGroups_def loadSyncDomains_def
    loadOAuthClients_def
  by (auto intro!: obeys_intro)

lemma loads_loadAll [obeys_intro]: "loads_of G loadDirectory" "loads_of G loadAll"
  unfolding loadAll_def loadDirectory_def by (auto intro!: obeys_intro)

lemma loads_sessions [obeys_intro]:
  "loads_of G refreshDirectory" "loads_of G refreshAll" "loads_of G enter_session"
  "loads_of G restoreSession" "loads_of G (authenticateToken tok b)" "loads_of G admin_logout"
  unfolding refreshDirectory_def refreshAll_def enter_session_def restoreSession_def authenticateToken_def
    admin_logout_def admin_trackRequest_def Let_def
  by (auto intro!: obeys_intro split: if_splits)

lemma loads_clients [obeys_intro]:
  "loads_of G (createOAuthClient r)" "loads_of G (updateOAuthClient i u)"
  "loads_of G (deleteOAuthClient i)" "loads_of G (regenerateOAuthClientSecret i)"
  unfolding createOAuthClient_def updateOAuthClient_def deleteOAuthClient_def
    regenerateOAuthClientSecret_def
  by (auto intro!: obeys_intro)

section \<open>Session\<close>

definition session_wf :: "'z admin_api_scheme \<Rightarrow> bool" where
  "session_wf s \<longleftrightarrow> (adm_csrfToken s \<noteq> [] \<longrightarrow> adm_authenticated s)"

lemma session_wf_steps [simp]:
  "session_wf (clearSession s)"
  "session_wf (admin_notify t s) = session_wf s"
  "session_wf (s\<lparr>adm_pending := n\<rparr>) = session_wf s"
  "session_wf (s\<lparr>adm_csrfToken := c, adm_authenticated := True\<rparr>)"
  "session_wf (s\<lparr>adm_domains := ds, adm_domainAttributeDefaults := df\<rparr>) = session_wf s"
  "session_wf (s\<lparr>adm_organizationalUnits := os\<rparr>) = session_wf s"
  "session_wf (s\<lparr>adm_users := us\<rparr>) = session_wf s"
  "session_wf (s\<lparr>adm_groups := gs\<rparr>) = session_wf s"
  "session_wf (s\<lparr>adm_syncDomains := sd\<rparr>) = session_wf s"
  "session_wf (s\<lparr>adm_oauthClients := oc\<rparr>) = session_wf s"
  "session_wf (s\<lparr>adm_domainsLoading := b\<rparr>) = session_wf s"
  "session_wf (s\<lparr>adm_ousLoading := b\<rparr>) = session_wf s"
  "session_wf (s\<lparr>adm_usersLoading := b\<rparr>) = session_wf s"
  "session_wf (s\<lparr>adm_groupsLoading := b\<rparr>) = session_wf s"
  "session_wf (s\<lparr>adm_syncLoading := b\<rparr>) = session_wf s"
  "session_wf (s\<lparr>adm_clientsLoading := b\<rparr>) = session_wf s"
  by (simp_all add: session_wf_def)

abbreviation wf_kept :: "('z admin_api_scheme, 'a) prog \<Rightarrow> bool" where
  "wf_kept m \<equiv> obeys anywhere (keeps session_wf) {#} m {#}"

lemma wf_adminFetch [obeys_intro]: "wf_kept (adminFetch path init)"
  unfolding adminFetch_def admin_trackRequest_def Let_def by (auto intro!: obeys_intro)

lemma wf_runAction [obeys_intro]: "wf_kept m \<Longrightarrow> wf_kept (runAction m msg)"
  unfolding runAction_def by (auto intro!: obeys_intro split: option.splits)

lemma wf_loads [obeys_intro]:
  "wf_kept loadDomains" "wf_kept loadOus" "wf_kept loadUsers"
  "wf_kept loadGroups" "wf_kept loadSyncDomains" "wf_kept loadOAuthClients"
  unfolding loadDomains_def loadOus_def loadUsers_def loadGroups_def loadSyncDomains_def
    loadOAuthClients_def
  by (auto intro!: obeys_intro)

lemma wf_loadAll [obeys_intro]: "wf_kept loadDirectory" "wf_kept loadAll"
  unfolding loadAll_def loadDirectory_def by (auto intro!: obeys_intro)

lemma wf_sessions [obeys_intro]:
  "wf_kept refreshDirectory" "wf_kept refreshAll" "wf_kept enter_session"
  "wf_kept restoreSession" "wf_kept (authenticateToken tok b)" "wf_kept admin_logout"
  unfolding refreshDirectory_def refreshAll_def enter_session_def restoreSession_def authenticateToken_def
    admin_logout_def admin_trackRequest_def Let_def
  by (auto intro!: obeys_intro split: if_splits)

lemma wf_clients [obeys_intro]:
  "wf_kept (createOAuthClient r)" "wf_kept (updateOAuthClient i u)"
  "wf_kept (deleteOAuthClient i)" "wf_kept (regenerateOAuthClientSecret i)"
  unfolding createOAuthClient_def updateOAuthClient_def deleteOAuthClient_def
    regenerateOAuthClientSecret_def
  by (auto intro!: obeys_intro)

section \<open>What the pages may call\<close>

inductive admin_calls :: "'z admin_api_scheme \<Rightarrow> ('z admin_api_scheme, unit) prog \<Rightarrow> bool" where
  "admin_calls s (void (adminFetch path init))"
| "admin_calls s (runAction (void (adminFetch path init)) msg)"
| "admin_calls s (void restoreSession)"
| "admin_calls s (void (authenticateToken t b))"
| "admin_calls s loadDomains"
| "admin_calls s loadOus"
| "admin_calls s loadUsers"
| "admin_calls s loadGroups"
| "admin_calls s loadSyncDomains"
| "admin_calls s loadOAuthClients"
| "admin_calls s loadDirectory"
| "admin_calls s loadAll"
| "admin_calls s refreshDirectory"
| "admin_calls s refreshAll"
| "admin_calls s (void (createOAuthClient r))"
| "admin_calls s (void (updateOAuthClient i u))"
| "admin_calls s (deleteOAuthClient i)"
| "admin_calls s (void (regenerateOAuthClientSecret i))"
| "admin_calls s (modify clearSession)"
| "admin_calls s (void admin_logout)"

lemma admin_calls_obey: "admin_calls s m \<Longrightarrow> obeys admin_ok admin_may {#} m {#}"
  by (induction rule: admin_calls.induct) (auto intro!: obeys_intro)

lemma admin_calls_loads: "admin_calls s m \<Longrightarrow> loads_of {#} m"
  by (induction rule: admin_calls.induct) (auto intro!: obeys_intro)

lemma admin_calls_keep: "admin_calls s m \<Longrightarrow> obeys anywhere (keeps session_wf) {#} m {#}"
  by (induction rule: admin_calls.induct) (auto intro!: obeys_intro)

section \<open>Pages above the session\<close>

text \<open>
  A page extends the state by its own fields, which the functions of the composable do not touch.
  \<open>critical\<close> are the requests for which a page gives a guarantee: they change data, so they are
  neither reads nor requests about the session itself.
\<close>

locale admin_frame =
  fixes ok :: "query option \<Rightarrow> 't multiset \<Rightarrow> bool"
    and may :: "'z admin_api_scheme \<Rightarrow> 't multiset \<Rightarrow> 'z admin_api_scheme \<Rightarrow> 't multiset \<Rightarrow> bool"
    and J :: "'z admin_api_scheme \<Rightarrow> 'j" and critical :: "request \<Rightarrow> bool"
  assumes step: "J s' = J s \<Longrightarrow> may s G s' G"
    and ok_read: "ok (Some ReadJson) G" and ok_all: "ok None G"
    and ok_fetch: "\<not> critical rq \<Longrightarrow> ok (Some (Fetch rq)) G"
    and critical_change: "critical rq \<Longrightarrow> rq_method rq \<noteq> GET \<and> rq_path rq \<noteq> session_path"
    and blind:
      "J (s\<lparr>adm_csrfToken := x0\<rparr>) = J s" "J (s\<lparr>adm_authenticated := x1\<rparr>) = J s"
      "J (s\<lparr>adm_pending := x2\<rparr>) = J s" "J (s\<lparr>adm_domains := x3\<rparr>) = J s"
      "J (s\<lparr>adm_domainAttributeDefaults := x4\<rparr>) = J s" "J (s\<lparr>adm_organizationalUnits := x5\<rparr>) = J s"
      "J (s\<lparr>adm_users := x6\<rparr>) = J s" "J (s\<lparr>adm_groups := x7\<rparr>) = J s"
      "J (s\<lparr>adm_syncDomains := x8\<rparr>) = J s" "J (s\<lparr>adm_oauthClients := x9\<rparr>) = J s"
      "J (s\<lparr>adm_ousLoading := x10\<rparr>) = J s" "J (s\<lparr>adm_usersLoading := x11\<rparr>) = J s"
      "J (s\<lparr>adm_groupsLoading := x12\<rparr>) = J s" "J (s\<lparr>adm_domainsLoading := x13\<rparr>) = J s"
      "J (s\<lparr>adm_syncLoading := x14\<rparr>) = J s" "J (s\<lparr>adm_clientsLoading := x15\<rparr>) = J s"
      "J (s\<lparr>adm_toasts := x16\<rparr>) = J s"
begin

lemma frame_modify: "(\<And>s. J (f s) = J s) \<Longrightarrow> obeys ok may G (modify f) G"
  by (rule obeys_modify) (rule step)

lemma frame_reading: "(\<And>s. obeys ok may G (f s) Q) \<Longrightarrow> obeys ok may G (reading f) Q"
  by (rule obeys_reading) (simp_all add: step)

lemma frame_finallyDo:
  "obeys ok may G m Q \<Longrightarrow> (\<And>s. J (f s) = J s) \<Longrightarrow> obeys ok may G (finallyDo m f) Q"
  by (erule obeys_finallyDo) (rule step)

lemma frame_withFlag:
  "obeys ok may G m G \<Longrightarrow> (\<And>b s. J (up b s) = J s) \<Longrightarrow> obeys ok may G (withFlag up m) G"
  unfolding withFlag_def by (intro obeys_seqThen frame_modify frame_finallyDo)

lemma blind_ops [simp]: "J (admin_notify t s) = J s" "J (clearSession s) = J s"
  by (simp_all add: admin_notify_def clearSession_def resetData_def blind)

lemmas frame_rules = frame_modify frame_reading frame_finallyDo frame_withFlag ok_read ok_all

lemma frame_track: "obeys ok may G m G \<Longrightarrow> obeys ok may G (admin_trackRequest m) G"
  unfolding admin_trackRequest_def by (auto simp: blind intro!: obeys_intro frame_rules)

lemma frame_adminFetch:
  assumes "\<And>rq. rq_path rq = path \<Longrightarrow> rq_method rq = (case in_method init of None \<Rightarrow> GET | Some m \<Rightarrow> m) \<Longrightarrow>
    ok (Some (Fetch rq)) G"
  shows "obeys ok may G (adminFetch path init) G"
  unfolding adminFetch_def Let_def by (auto intro!: obeys_intro frame_rules frame_track assms)

lemma frame_get: "obeys ok may G (adminFetch path init0) G"
  using critical_change ok_fetch by (fastforce simp: init0_def intro!: frame_adminFetch)

lemma frame_runAction: "obeys ok may G m G \<Longrightarrow> obeys ok may G (runAction m msg) G"
  unfolding runAction_def by (auto intro!: obeys_intro frame_rules split: option.splits)

lemma frame_loads:
  "obeys ok may G loadDomains G" "obeys ok may G loadOus G" "obeys ok may G loadUsers G"
  "obeys ok may G loadGroups G" "obeys ok may G loadSyncDomains G" "obeys ok may G loadOAuthClients G"
  unfolding loadDomains_def loadOus_def loadUsers_def loadGroups_def loadSyncDomains_def
    loadOAuthClients_def
  by (auto simp: blind intro!: obeys_intro frame_rules frame_get)

lemma frame_loadAll: "obeys ok may G loadDirectory G" "obeys ok may G loadAll G"
  unfolding loadAll_def loadDirectory_def by (auto intro!: obeys_intro frame_rules frame_loads)

lemma ok_session: "rq_path rq = session_path \<Longrightarrow> ok (Some (Fetch rq)) G"
  using critical_change ok_fetch by blast

lemma frame_sessions:
  "obeys ok may G refreshDirectory G" "obeys ok may G refreshAll G"
  "obeys ok may G restoreSession G" "obeys ok may G (authenticateToken tok b) G"
  "obeys ok may G admin_logout G"
  unfolding refreshDirectory_def refreshAll_def enter_session_def restoreSession_def authenticateToken_def
    admin_logout_def Let_def
  by (auto simp: blind intro!: obeys_intro frame_rules frame_loads frame_loadAll frame_runAction
      frame_track ok_session split: if_splits)

lemma frame_clients:
  assumes "\<And>rq. ok (Some (Fetch rq)) G"
  shows "obeys ok may G (createOAuthClient r) G" and "obeys ok may G (updateOAuthClient i u) G"
    and "obeys ok may G (deleteOAuthClient i) G" and "obeys ok may G (regenerateOAuthClientSecret i) G"
  unfolding createOAuthClient_def updateOAuthClient_def deleteOAuthClient_def
    regenerateOAuthClientSecret_def
  by (auto simp: blind intro!: obeys_intro frame_rules frame_adminFetch assms)

lemmas frame_ops = frame_modify frame_reading frame_runAction frame_get frame_loads frame_loadAll
  frame_sessions frame_clients ok_all

end

section \<open>Outcomes\<close>

lemma ensures_bodyAs [simp]:
  "ensures (bodyAs sel p) P n s \<longleftrightarrow>
     (case Option.bind p sel of Some x \<Rightarrow> P n s (Inr x) | None \<Rightarrow> P n s (Inl type_error))"
  by (simp add: bodyAs_def)

lemma same_pending [simp]: "s\<lparr>adm_pending := adm_pending s\<rparr> = s"
  by simp

lemma clearSession_pending: "clearSession s\<lparr>adm_pending := n\<rparr> = clearSession (s\<lparr>adm_pending := n\<rparr>)"
  by (simp add: clearSession_def resetData_def)

lemma adminFetch_ensures:
  "ensures (adminFetch path init) (\<lambda>n s' r.
     s' = s \<and> admin_tokenReady s \<and> (\<exists>p. r = Inr p) \<or>
     s' = s \<and> (\<exists>e. r = Inl e) \<or>
     s' = clearSession s \<and> admin_tokenReady s \<and> r = Inl (JsError M_admin_session_expired)) 2 s"
  by (auto simp: adminFetch_def admin_trackRequest_def Let_def clearSession_pending)

text \<open>The client list as a finite map from client ids, and the effect of each operation on it.\<close>

definition clients_map :: "OAuthClient list \<Rightarrow> jsstr \<rightharpoonup> OAuthClient" where
  "clients_map cs = map_of (map (\<lambda>c. (oc_client_id c, c)) cs)"

definition overwrite :: "('k \<rightharpoonup> 'v) \<Rightarrow> 'k \<Rightarrow> 'v \<Rightarrow> 'k \<rightharpoonup> 'v" where
  "overwrite m k v = (if k \<in> dom m then m(k \<mapsto> v) else m)"

lemma clients_map_append:
  "oc_client_id c \<notin> oc_client_id ` set cs \<Longrightarrow>
    clients_map (cs @ [c]) = (clients_map cs)(oc_client_id c \<mapsto> c)"
  by (induction cs) (auto simp: clients_map_def)

lemma dom_clients_map: "dom (clients_map cs) = oc_client_id ` set cs"
  by (simp add: clients_map_def dom_map_of_conv_image_fst image_image)

lemma clients_map_replace:
  "clients_map (replace_client r cs) = overwrite (clients_map cs) (oc_client_id r) r"
  unfolding overwrite_def dom_clients_map
  by (induction cs) (auto simp: clients_map_def replace_client_def fun_eq_iff)

lemma clients_map_delete:
  "clients_map (filter (\<lambda>c. oc_client_id c \<noteq> i) cs) = (clients_map cs)(i := None)"
  by (induction cs) (auto simp: clients_map_def fun_eq_iff)

lemma replace_client_ids [simp]: "map oc_client_id (replace_client r cs) = map oc_client_id cs"
  by (induction cs) (auto simp: replace_client_def)

definition failed_call :: "'z admin_api_scheme \<Rightarrow> 'z admin_api_scheme \<Rightarrow> js_error + 'a \<Rightarrow> bool" where
  "failed_call s s' r \<longleftrightarrow> (\<exists>e. r = Inl e) \<and> (s' = s \<or> s' = clearSession s)"

lemma createOAuthClient_ensures:
  "ensures (createOAuthClient req) (\<lambda>_ s' r.
     (\<exists>x. r = Inr x \<and> s' = s\<lparr>adm_oauthClients := adm_oauthClients s @ [ccr_client x]\<rparr>) \<or>
     failed_call s s' r) 2 s"
  by (auto simp: createOAuthClient_def failed_call_def split: option.splits
      intro!: ensures_mono [OF adminFetch_ensures])

lemma updateOAuthClient_ensures:
  "ensures (updateOAuthClient i u) (\<lambda>_ s' r.
     (\<exists>x. r = Inr x \<and> s' = s\<lparr>adm_oauthClients := replace_client x (adm_oauthClients s)\<rparr>) \<or>
     failed_call s s' r) 2 s"
  by (auto simp: updateOAuthClient_def withSegment_def failed_call_def split: option.splits
      intro!: ensures_mono [OF adminFetch_ensures])

lemma deleteOAuthClient_ensures:
  "ensures (deleteOAuthClient i) (\<lambda>_ s' r.
     r = Inr () \<and> s' = s\<lparr>adm_oauthClients := filter (\<lambda>c. oc_client_id c \<noteq> i) (adm_oauthClients s)\<rparr> \<or>
     failed_call s s' r) 2 s"
  by (auto simp: deleteOAuthClient_def withSegment_def failed_call_def split: option.splits
      intro!: ensures_mono [OF adminFetch_ensures])

lemma regenerate_ensures:
  "ensures (regenerateOAuthClientSecret i) (\<lambda>_ s' r.
     (\<exists>x. r = Inr x \<and> s' = s) \<or> failed_call s s' r) 2 s"
  by (auto simp: regenerateOAuthClientSecret_def withSegment_def failed_call_def split: option.splits
      intro!: ensures_mono [OF adminFetch_ensures])

definition admin_cleared :: "'z admin_api_scheme \<Rightarrow> bool" where
  "admin_cleared s \<longleftrightarrow> \<not> adm_authenticated s \<and> adm_csrfToken s = [] \<and> adm_domains s = [] \<and>
     adm_organizationalUnits s = [] \<and> adm_users s = [] \<and> adm_groups s = [] \<and>
     adm_syncDomains s = [] \<and> adm_oauthClients s = []"

lemma admin_logout_ensures:
  "ensures admin_logout (\<lambda>_ s' r. r = Inr True \<and> adm_pending s' = adm_pending s \<and>
     (if adm_authenticated s
      then admin_cleared s' \<and> adm_toasts s' = adm_toasts s @ [Success M_admin_exited]
      else s' = s)) 1 s"
  by (auto simp: admin_logout_def admin_trackRequest_def admin_cleared_def)

section \<open>Properties\<close>

definition admin_api0 :: admin_api where
  "admin_api0 = \<lparr>adm_csrfToken = [], adm_authenticated = False, adm_pending = 0, adm_domains = [],
     adm_domainAttributeDefaults = \<lparr>dad_employee_id_attribute = [], dad_managed_group_id_attribute = []\<rparr>,
     adm_organizationalUnits = [], adm_users = [], adm_groups = [], adm_syncDomains = [],
     adm_oauthClients = [], adm_ousLoading = False, adm_usersLoading = False, adm_groupsLoading = False,
     adm_domainsLoading = False, adm_syncLoading = False, adm_clientsLoading = False, adm_toasts = []\<rparr>"

lemma adminFetch_csrf:
  assumes "csrf_header \<notin> fst ` set (in_headers init)"
  shows "case call (adminFetch path init) (s, []) of (s', ms) \<Rightarrow>
    if admin_tokenReady s then
      adm_pending s' = adm_pending s + 1 \<and>
      (\<exists>rq. pool_waits (s', ms) = [Fetch rq] \<and> rq_path rq = path \<and> rq_body rq = in_body init \<and>
         map_of (rq_headers rq) csrf_header =
           (if rq_method rq \<in> {GET, HEAD, OPTIONS} then None else Some (adm_csrfToken s)))
    else s' = s \<and> pool_waits (s', ms) = []"
proof -
  have "map_of (rev (in_headers init)) csrf_header = None"
    using assms by (simp add: map_of_eq_None_iff)
  then show ?thesis
    by (auto simp: adminFetch_def admin_trackRequest_def fetch_def async_defs call_def pool_waits_def
        Let_def map_of_spread json_content_def csrf_header_def map_add_def split: option.splits)
qed

text \<open>
  C26: the operations on clients refine those on a map from client ids. Each ends after at most two
  answers, and unless it fails (then the list is unchanged or the session has been cleared):
  \<open>updateOAuthClient\<close> overwrites the entry of the client in the response and keeps order and number
  of the entries; \<open>createOAuthClient\<close> adds the created client at the end; \<open>deleteOAuthClient\<close>
  removes the entry of the id.
\<close>

theorem client_operations_refine_map:
  assumes "2 \<le> length rs"
  shows "(\<exists>qs s' m r. run (updateOAuthClient i u) rs s = (qs, s', [m]) \<and> outcome m = Some r \<and>
      (failed_call s s' r \<or>
       (\<exists>x. r = Inr x \<and> map oc_client_id (adm_oauthClients s') = map oc_client_id (adm_oauthClients s) \<and>
          clients_map (adm_oauthClients s') = overwrite (clients_map (adm_oauthClients s)) (oc_client_id x) x))) \<and>
    (\<exists>qs s' m r. run (createOAuthClient req) rs s = (qs, s', [m]) \<and> outcome m = Some r \<and>
      (failed_call s s' r \<or>
       (\<exists>x. r = Inr x \<and> adm_oauthClients s' = adm_oauthClients s @ [ccr_client x] \<and>
          (oc_client_id (ccr_client x) \<notin> dom (clients_map (adm_oauthClients s)) \<longrightarrow>
             clients_map (adm_oauthClients s') =
               (clients_map (adm_oauthClients s))(oc_client_id (ccr_client x) \<mapsto> ccr_client x))))) \<and>
    (\<exists>qs s' m r. run (deleteOAuthClient i) rs s = (qs, s', [m]) \<and> outcome m = Some r \<and>
      (failed_call s s' r \<or>
       r = Inr () \<and> clients_map (adm_oauthClients s') = (clients_map (adm_oauthClients s))(i := None)))"
proof (intro conjI)
  show "\<exists>qs s' m r. run (updateOAuthClient i u) rs s = (qs, s', [m]) \<and> outcome m = Some r \<and>
      (failed_call s s' r \<or>
       (\<exists>x. r = Inr x \<and> map oc_client_id (adm_oauthClients s') = map oc_client_id (adm_oauthClients s) \<and>
          clients_map (adm_oauthClients s') = overwrite (clients_map (adm_oauthClients s)) (oc_client_id x) x))"
    by (rule ensures_outcome [OF updateOAuthClient_ensures assms]) (auto simp: clients_map_replace)
  show "\<exists>qs s' m r. run (deleteOAuthClient i) rs s = (qs, s', [m]) \<and> outcome m = Some r \<and>
      (failed_call s s' r \<or>
       r = Inr () \<and> clients_map (adm_oauthClients s') = (clients_map (adm_oauthClients s))(i := None))"
    by (rule ensures_outcome [OF deleteOAuthClient_ensures assms]) (auto simp: clients_map_delete)
qed (rule ensures_outcome [OF createOAuthClient_ensures assms],
    auto simp: clients_map_append dom_clients_map)

theorem client_operations_refine_map_witness:
  "\<exists>qs s' m r. run (deleteOAuthClient (lit ''c'')) [Rejected NonError, Done] admin_api0 = (qs, s', [m]) \<and>
     outcome m = Some r"
proof -
  have "2 \<le> length [Rejected NonError, Done]"
    by simp
  from client_operations_refine_map [OF this, where i = "lit ''c''" and s = admin_api0] show ?thesis
    by blast
qed

text \<open>
  C27: \<open>authenticateToken\<close> sends the trimmed credential in one request. When the server accepts it
  with a CSRF token, the session is authenticated and all six collections are requested at once,
  in the order of \<open>loadAll\<close> and with their flags set. When these are answered as well, the call
  ends with true, all collections are those of the server, no flag is left set and nothing is
  pending.
\<close>

theorem authenticateToken_loads_everything:
  assumes "trim tok \<noteq> []" and "t \<noteq> []" and "response_ok k0"
    and "list_all (\<lambda>ok. response_ok ok \<and> rs_status ok \<noteq> 204) [k1, k2, k3, k4, k5, k6]"
  shows "(\<exists>rq s' m. run (authenticateToken tok b) [Responded k0, Json (P_csrf t)] s = ([Fetch rq, ReadJson], s', [m]) \<and>
      rq_path rq = session_path \<and> rq_method rq = POST \<and>
      rq_body rq = Some (JObj [(lit ''token'', JStr (trim tok))]) \<and>
      adm_csrfToken s' = t \<and> adm_authenticated s' \<and> adm_pending s' = adm_pending s + 6 \<and>
      (\<forall>f. load_flag_set f s') \<and>
      map (\<lambda>q. case q of Fetch rq \<Rightarrow> Some (rq_method rq, rq_path rq) | _ \<Rightarrow> None) (waits m) =
        map (\<lambda>p. Some (GET, lit p)) [''/api/admin/ous/tree'', ''/api/admin/users'', ''/api/admin/groups'',
          ''/api/admin/domains'', ''/api/admin/sync/domains'', ''/api/admin/oauth-clients'']) \<and>
    (\<exists>qs s' m. run (authenticateToken tok b) [Responded k0, Json (P_csrf t),
        Responded k1, Json (P_ous os), Responded k2, Json (P_users us), Responded k3, Json (P_groups gs),
        Responded k4, Json (P_domains ds df), Responded k5, Json (P_sync sd), Responded k6, Json (P_clients cs)] s =
          (qs, s', [m]) \<and>
      outcome m = Some (Inr True) \<and> adm_authenticated s' \<and> adm_csrfToken s' = t \<and>
      adm_pending s' = adm_pending s \<and> (\<forall>f. \<not> load_flag_set f s') \<and>
      adm_organizationalUnits s' = os \<and> adm_users s' = us \<and> adm_groups s' = gs \<and>
      adm_domains s' = ds \<and> adm_domainAttributeDefaults s' = df \<and> adm_syncDomains s' = sd \<and>
      adm_oauthClients s' = cs \<and>
      adm_toasts s' = adm_toasts s @ (if b then [Success M_admin_entered] else []))"
proof -
  have "200 \<le> rs_status k0 \<and> rs_status k0 \<le> 299"
    using assms(3) by (simp add: response_ok_def)
  moreover have "(\<forall>f. P f) \<longleftrightarrow> P L_domains \<and> P L_ous \<and> P L_users \<and> P L_groups \<and> P L_sync \<and> P L_clients" for P
    by (metis load_flag.exhaust)
  ultimately show ?thesis
    using assms(1,2,4) by (simp add: js_eval exec_defs Let_def)
qed

theorem authenticateToken_loads_everything_witness:
  "\<exists>qs s' m. run (authenticateToken (lit ''k'') True)
      (concat (map (\<lambda>p. [Responded \<lparr>rs_status = 200, rs_statusText = []\<rparr>, Json p])
        [P_csrf (lit ''t''), P_ous [], P_users [], P_groups [],
         P_domains [] (adm_domainAttributeDefaults admin_api0), P_sync [], P_clients []])) admin_api0 = (qs, s', [m]) \<and>
    outcome m = Some (Inr True) \<and> adm_authenticated s'"
proof -
  let ?k = "\<lparr>rs_status = 200, rs_statusText = []\<rparr>"
  have "trim (lit ''k'') \<noteq> []" "lit ''t'' \<noteq> []" "response_ok ?k"
    "list_all (\<lambda>ok. response_ok ok \<and> rs_status ok \<noteq> 204) [?k, ?k, ?k, ?k, ?k, ?k]"
    by (simp_all add: trim_eval response_ok_def)
  from conjunct2 [OF authenticateToken_loads_everything [OF this, of True admin_api0
      "[]" "[]" "[]" "[]" "adm_domainAttributeDefaults admin_api0" "[]" "[]"]] show ?thesis
    by auto
qed

text \<open>A credential that is missing, refused or not answered.\<close>

lemma authenticateToken_refused:
  assumes "\<And>ok. r = Responded ok \<Longrightarrow> \<not> response_ok ok"
  shows "\<exists>qs s' m f. run (authenticateToken tok b) [r] s = (qs, s', [m]) \<and>
    outcome m = Some (Inr False) \<and> adm_pending s' = adm_pending s \<and>
    adm_toasts s' = adm_toasts s @ [Failure f] \<and>
    (if trim tok = [] then qs = [] \<and> f = M_admin_enter_credential \<and> s' = admin_notify (Failure f) s
     else length qs = 1 \<and> admin_cleared s')"
proof (cases r)
  case (Responded ok)
  with assms have "\<not> (200 \<le> rs_status ok \<and> rs_status ok \<le> 299)"
    by (simp add: response_ok_def)
  with Responded show ?thesis
    by (auto simp: js_eval exec_defs Let_def admin_cleared_def)
qed (auto simp: js_eval exec_defs Let_def admin_cleared_def)

text \<open>
  C36: a 401 answer to one of the parallel loads clears the session, but the other loads are not
  cancelled: a list of users that arrives afterwards is kept and shown although nobody is
  signed in any more.
\<close>

theorem late_load_survives_clearSession:
  "\<exists>(s :: admin_api) c. reachable admin_calls s c \<and> admin_tokenReady s \<and> idle c \<and>
     \<not> adm_authenticated (fst c) \<and> adm_csrfToken (fst c) = [] \<and> adm_users (fst c) = us"
proof -
  let ?s = "admin_api0\<lparr>adm_authenticated := True, adm_csrfToken := lit ''t''\<rparr>"
  let ?c = "schedule [(0, Responded \<lparr>rs_status = 401, rs_statusText = []\<rparr>),
      (0, Responded \<lparr>rs_status = 200, rs_statusText = []\<rparr>), (0, Json (P_users us)),
      (0, Rejected NonError), (0, Rejected NonError)] (call refreshDirectory (?s, []))"
  have "reachable admin_calls ?s ?c"
    by (intro reachable_schedule reachable.intros admin_calls.intros)
  moreover have "admin_tokenReady ?s"
    by (simp add: admin_tokenReady_def)
  moreover have "idle ?c \<and> \<not> adm_authenticated (fst ?c) \<and> adm_csrfToken (fst ?c) = [] \<and> adm_users (fst ?c) = us"
    by (simp add: js_eval exec_defs admin_api0_def Let_def idle_def)
  ultimately show ?thesis
    by blast
qed

end
