(* ===== verification/Tables.thy ===== *)
theory Tables
  imports Json_Text User_Api Admin_Api
begin

text \<open>
  The tables of the console: \<open>DomainTable.vue\<close>, \<open>UserTable.vue\<close>, \<open>GroupTable.vue\<close> and
  \<open>OAuthClientTable.vue\<close>. Each of them passes the component \<open>Table\<close> of the component library its
  columns, its rows as records of fields, and slots for the cells that are not the plain field of
  the row, among them the one with the buttons. The rows are cast to \<open>Record<string, unknown>\<close>, so
  that no type checker relates columns, slots and fields; \<open>table_wf\<close> does. The events that a table
  can emit are \<open>table_emits\<close>: those of its enabled buttons, and of a click on a row where the table
  listens to it. Layout and the rendering of a cell are not modelled.
\<close>

section \<open>Columns, cells and events\<close>

record column =
  col_key :: jsstr
  col_title :: jsstr
  col_width :: "nat option"
  col_minWidth :: "nat option"
  col_ellipsis :: bool
  col_align :: "jsstr option"
  col_fixed :: "jsstr option"

definition column0 :: "jsstr \<Rightarrow> jsstr \<Rightarrow> column" where
  "column0 key title = \<lparr>col_key = key, col_title = title, col_width = None, col_minWidth = None,
     col_ellipsis = False, col_align = None, col_fixed = None\<rparr>"

datatype 'r table_emit = Emit_edit 'r | Emit_toggle 'r | Emit_resetPassword 'r | Emit_remove 'r

fun emit_row :: "'r table_emit \<Rightarrow> 'r" where
  "emit_row (Emit_edit r) = r"
| "emit_row (Emit_toggle r) = r"
| "emit_row (Emit_resetPassword r) = r"
| "emit_row (Emit_remove r) = r"

record 'r table_button =
  btn_icon :: jsstr
  btn_title :: jsstr
  btn_disabled :: bool
  btn_emit :: "'r table_emit"

text \<open>
  The cells of the slots: a text; a name above further lines or tags; a badge with its semantic; a
  text with a tooltip; and buttons.
\<close>

datatype 'r cell =
    Cell_text jsstr
  | Cell_named jsstr "jsstr list"
  | Cell_badge jsstr jsstr
  | Cell_titled jsstr jsstr
  | Cell_actions "'r table_button list"

record 'r table =
  tbl_columns :: "column list"
  tbl_emptyText :: jsstr
  tbl_rowKey :: jsstr
  tbl_fields :: "'r \<Rightarrow> (jsstr \<times> json) list"
  tbl_slots :: "'r \<Rightarrow> (jsstr \<times> 'r cell) list"
  tbl_rowClick :: "'r \<Rightarrow> 'r table_emit option"

definition action_button :: "bool \<Rightarrow> string \<Rightarrow> jsstr \<Rightarrow> 'r table_emit \<Rightarrow> 'r table_button" where
  "action_button busy icon title e =
     \<lparr>btn_icon = lit icon, btn_title = title, btn_disabled = busy, btn_emit = e\<rparr>"

fun cell_buttons :: "'r cell \<Rightarrow> 'r table_button list" where
  "cell_buttons (Cell_actions bs) = bs"
| "cell_buttons _ = []"

definition row_buttons :: "'r table \<Rightarrow> 'r \<Rightarrow> 'r table_button list" where
  "row_buttons t r = concat (map (\<lambda>(_, c). cell_buttons c) (tbl_slots t r))"

definition table_emits :: "'r table \<Rightarrow> 'r list \<Rightarrow> 'r table_emit list" where
  "table_emits t rows = concat (map (\<lambda>r.
     (case tbl_rowClick t r of None \<Rightarrow> [] | Some e \<Rightarrow> [e]) @
     map btn_emit (filter (\<lambda>b. \<not> btn_disabled b) (row_buttons t r))) rows)"

text \<open>
  Columns have different keys, every slot belongs to a column, a column without slot is a field of
  the row, and so is the key of the row.
\<close>

definition table_wf :: "'r table \<Rightarrow> 'r \<Rightarrow> bool" where
  "table_wf t r \<longleftrightarrow>
     distinct (map col_key (tbl_columns t)) \<and> distinct (map fst (tbl_slots t r)) \<and>
     distinct (map fst (tbl_fields t r)) \<and>
     list_all (\<lambda>(k, _). k \<in> set (map col_key (tbl_columns t))) (tbl_slots t r) \<and>
     list_all (\<lambda>c. col_key c \<in> set (map fst (tbl_slots t r)) \<or> col_key c \<in> set (map fst (tbl_fields t r)))
       (tbl_columns t) \<and>
     tbl_rowKey t \<in> set (map fst (tbl_fields t r))"

section \<open>What a table promises its page\<close>

locale data_table =
  fixes tab :: "bool \<Rightarrow> 'r table"
  assumes wf: "table_wf (tab busy) r"
    and click_row: "tbl_rowClick (tab busy) r = Some e \<Longrightarrow> emit_row e = r"
    and click_busy: "tbl_rowClick (tab busy) r = tbl_rowClick (tab busy') r"
    and button_row: "b \<in> set (row_buttons (tab busy) r) \<Longrightarrow> emit_row (btn_emit b) = r"
    and button_busy: "b \<in> set (row_buttons (tab busy) r) \<Longrightarrow> btn_disabled b = busy"
begin

lemma emits_rows: "e \<in> set (table_emits (tab busy) rows) \<Longrightarrow> emit_row e \<in> set rows"
  by (auto simp: table_emits_def click_row button_row split: option.splits)

lemma emits_busy: "e \<in> set (table_emits (tab True) rows) \<Longrightarrow> tbl_rowClick (tab True) (emit_row e) = Some e"
  by (auto simp: table_emits_def click_row button_busy split: option.splits)

lemma emits_mono: "set (table_emits (tab True) rows) \<subseteq> set (table_emits (tab False) rows)"
proof
  fix e
  assume e: "e \<in> set (table_emits (tab True) rows)"
  then have "tbl_rowClick (tab False) (emit_row e) = Some e"
    using emits_busy click_busy by metis
  with emits_rows [OF e] show "e \<in> set (table_emits (tab False) rows)"
    by (force simp: table_emits_def)
qed

end

section \<open>Fields of the rows\<close>

definition status_name :: "UserStatus \<Rightarrow> jsstr" where
  "status_name st = lit (case st of Active \<Rightarrow> ''active'' | Disabled \<Rightarrow> ''disabled'')"

definition domain_fields :: "Domain \<Rightarrow> (jsstr \<times> json) list" where
  "domain_fields d =
     [(lit ''id'', JStr (dom_id d)), (lit ''name'', JStr (dom_name d)),
      (lit ''enabled'', JBool (dom_enabled d)), (lit ''mirror_root_dn'', JStr (dom_mirror_root_dn d)),
      (lit ''quarantine_ou_dn'', JStr (dom_quarantine_ou_dn d)),
      (lit ''upn_suffix'', JStr (dom_upn_suffix d)),
      (lit ''employee_id_attribute'', JStr (dom_employee_id_attribute d)),
      (lit ''managed_group_id_attribute'', JStr (dom_managed_group_id_attribute d)),
      (lit ''applied_directory_revision'', JNum (dom_applied_directory_revision d)),
      (lit ''applied_credential_revision'', JNum (dom_applied_credential_revision d))]"

definition user_fields :: "UserRecord \<Rightarrow> (jsstr \<times> json) list" where
  "user_fields u =
     [(lit ''employee_id'', JStr (ur_employee_id u)), (lit ''username'', JStr (ur_username u)),
      (lit ''display_name'', JStr (ur_display_name u)), (lit ''surname'', JStr (ur_surname u)),
      (lit ''given_name'', JStr (ur_given_name u)), (lit ''email'', json_opt (ur_email u)),
      (lit ''mobile'', json_opt (ur_mobile u)), (lit ''telephone'', json_opt (ur_telephone u)),
      (lit ''organizational_unit_id'', JStr (ur_organizational_unit_id u)),
      (lit ''status'', JStr (status_name (ur_status u)))]"

definition group_fields :: "GroupRecord \<Rightarrow> (jsstr \<times> json) list" where
  "group_fields g =
     [(lit ''id'', JStr (gr_id g)), (lit ''name'', JStr (gr_name g)),
      (lit ''organizational_unit_id'', JStr (gr_organizational_unit_id g)),
      (lit ''member_employee_ids'', JArr (map JStr (gr_member_employee_ids g))),
      (lit ''changed_revision'', JNum (gr_changed_revision g))]"

definition client_fields :: "OAuthClient \<Rightarrow> (jsstr \<times> json) list" where
  "client_fields c =
     [(lit ''client_id'', JStr (oc_client_id c)), (lit ''name'', JStr (oc_name c)),
      (lit ''client_type'', JStr (client_type_name (oc_client_type c))),
      (lit ''redirect_uris'', JArr (map JStr (oc_redirect_uris c))),
      (lit ''allowed_scopes'', JArr (map (JStr \<circ> scope_name) (oc_allowed_scopes c))),
      (lit ''enabled'', JBool (oc_enabled c))]"

section \<open>\<open>DomainTable.vue\<close>\<close>

definition domain_columns :: "column list" where
  "domain_columns =
    [(column0 (lit ''domain'') [0x57DF])
       \<lparr>col_minWidth := Some 200, col_ellipsis := True\<rparr>,
     (column0 (lit ''upn_suffix'') (lit ''UPN '' @ [0x540E, 0x7F00]))
       \<lparr>col_width := Some 180, col_ellipsis := True\<rparr>,
     (column0 (lit ''mirror_root_dn'') ([0x955C, 0x50CF, 0x6839] @ lit '' DN''))
       \<lparr>col_minWidth := Some 220, col_ellipsis := True\<rparr>,
     (column0 (lit ''enabled'') [0x72B6, 0x6001])
       \<lparr>col_width := Some 96\<rparr>,
     (column0 (lit ''applied_directory_revision'') [0x76EE, 0x5F55, 0x7248, 0x672C])
       \<lparr>col_width := Some 108, col_align := Some (lit ''right'')\<rparr>,
     (column0 (lit ''applied_credential_revision'') [0x51ED, 0x636E, 0x7248, 0x672C])
       \<lparr>col_width := Some 108, col_align := Some (lit ''right'')\<rparr>,
     (column0 (lit ''actions'') [0x64CD, 0x4F5C])
       \<lparr>col_width := Some 72, col_align := Some (lit ''right''), col_fixed := Some (lit ''right'')\<rparr>]"

text \<open>The words for enabled and disabled objects, and the badge that shows them.\<close>

definition enabled_text :: jsstr where
  "enabled_text = [0x542F, 0x7528]"

definition stopped_text :: jsstr where
  "stopped_text = [0x505C, 0x7528]"

definition enabled_badge :: "bool \<Rightarrow> 'r cell" where
  "enabled_badge enabled =
     (if enabled then Cell_badge (lit ''success'') enabled_text else Cell_badge (lit ''warning'') stopped_text)"

definition domain_slots :: "bool \<Rightarrow> Domain \<Rightarrow> (jsstr \<times> Domain cell) list" where
  "domain_slots busy d =
     [(lit ''domain'', Cell_named (dom_name d) [dom_id d]),
      (lit ''enabled'', enabled_badge (dom_enabled d)),
      (lit ''actions'', Cell_actions
        [action_button busy ''ph:pencil-simple'' [0x7F16, 0x8F91, 0x57DF] (Emit_edit d)])]"

definition domainTable :: "bool \<Rightarrow> Domain table" where
  "domainTable busy = \<lparr>tbl_columns = domain_columns,
     tbl_emptyText = ([0x8FD8, 0x6CA1, 0x6709, 0x914D, 0x7F6E] @ lit '' AD '' @ [0x57DF]),
     tbl_rowKey = lit ''id'', tbl_fields = domain_fields, tbl_slots = domain_slots busy,
     tbl_rowClick = (\<lambda>d. Some (Emit_edit d))\<rparr>"

section \<open>\<open>UserTable.vue\<close>\<close>

definition user_columns :: "column list" where
  "user_columns =
    [(column0 (lit ''employee_id'') [0x5DE5, 0x53F7])
       \<lparr>col_width := Some 116, col_ellipsis := True\<rparr>,
     (column0 (lit ''username'') [0x767B, 0x5F55, 0x540D])
       \<lparr>col_width := Some 132, col_ellipsis := True\<rparr>,
     (column0 (lit ''display_name'') [0x663E, 0x793A, 0x540D])
       \<lparr>col_minWidth := Some 132, col_ellipsis := True\<rparr>,
     (column0 (lit ''email'') [0x90AE, 0x7BB1])
       \<lparr>col_minWidth := Some 160, col_ellipsis := True\<rparr>,
     (column0 (lit ''mobile'') [0x624B, 0x673A])
       \<lparr>col_width := Some 104, col_ellipsis := True\<rparr>,
     (column0 (lit ''status'') [0x72B6, 0x6001])
       \<lparr>col_width := Some 84\<rparr>,
     (column0 (lit ''actions'') [0x64CD, 0x4F5C])
       \<lparr>col_width := Some 112, col_align := Some (lit ''right''), col_fixed := Some (lit ''right'')\<rparr>]"

definition user_slots :: "bool \<Rightarrow> UserRecord \<Rightarrow> (jsstr \<times> UserRecord cell) list" where
  "user_slots busy u =
     [(lit ''status'', if ur_status u = Active then Cell_badge (lit ''success'') enabled_text
        else Cell_badge (lit ''error'') [0x7981, 0x7528]),
      (lit ''actions'', Cell_actions
        [action_button busy ''ph:pencil-simple'' [0x7F16, 0x8F91, 0x7528, 0x6237] (Emit_edit u),
         action_button busy ''ph:key'' [0x91CD, 0x7F6E] (Emit_resetPassword u),
         action_button busy ''ph:trash'' [0x5220, 0x9664] (Emit_remove u)])]"

definition userTable :: "bool \<Rightarrow> UserRecord table" where
  "userTable busy = \<lparr>tbl_columns = user_columns,
     tbl_emptyText = ([0x5F53, 0x524D] @ lit '' OU '' @ [0x4E0B, 0x8FD8, 0x6CA1, 0x6709, 0x7528, 0x6237]),
     tbl_rowKey = lit ''employee_id'', tbl_fields = user_fields, tbl_slots = user_slots busy,
     tbl_rowClick = (\<lambda>u. Some (Emit_edit u))\<rparr>"

section \<open>\<open>GroupTable.vue\<close>\<close>

definition group_columns :: "column list" where
  "group_columns =
    [(column0 (lit ''id'') [0x7EC4, 0x6807, 0x8BC6])
       \<lparr>col_width := Some 200, col_ellipsis := True\<rparr>,
     (column0 (lit ''name'') [0x7EC4, 0x540D, 0x79F0])
       \<lparr>col_minWidth := Some 200, col_ellipsis := True\<rparr>,
     (column0 (lit ''members'') [0x6210, 0x5458])
       \<lparr>col_width := Some 96\<rparr>,
     (column0 (lit ''actions'') [0x64CD, 0x4F5C])
       \<lparr>col_width := Some 72, col_align := Some (lit ''right''), col_fixed := Some (lit ''right'')\<rparr>]"

definition group_slots :: "bool \<Rightarrow> GroupRecord \<Rightarrow> (jsstr \<times> GroupRecord cell) list" where
  "group_slots busy g =
     [(lit ''members'', Cell_text (decimal (length (gr_member_employee_ids g)))),
      (lit ''actions'', Cell_actions
        [action_button busy ''ph:pencil-simple'' [0x7F16, 0x8F91, 0x5B89, 0x5168, 0x7EC4] (Emit_edit g)])]"

definition groupTable :: "bool \<Rightarrow> GroupRecord table" where
  "groupTable busy = \<lparr>tbl_columns = group_columns,
     tbl_emptyText = ([0x5F53, 0x524D] @ lit '' OU '' @ [0x4E0B, 0x8FD8, 0x6CA1, 0x6709, 0x5B89, 0x5168, 0x7EC4]),
     tbl_rowKey = lit ''id'', tbl_fields = group_fields, tbl_slots = group_slots busy,
     tbl_rowClick = (\<lambda>g. Some (Emit_edit g))\<rparr>"

section \<open>\<open>OAuthClientTable.vue\<close>\<close>

definition client_columns :: "column list" where
  "client_columns =
    [(column0 (lit ''name'') [0x540D, 0x79F0])
       \<lparr>col_minWidth := Some 200, col_ellipsis := True\<rparr>,
     (column0 (lit ''client_id'') (lit ''Client ID''))
       \<lparr>col_minWidth := Some 200, col_ellipsis := True\<rparr>,
     (column0 (lit ''client_type'') [0x7C7B, 0x578B])
       \<lparr>col_width := Some 96\<rparr>,
     (column0 (lit ''enabled'') [0x72B6, 0x6001])
       \<lparr>col_width := Some 96\<rparr>,
     (column0 (lit ''redirect'') (lit ''Redirect URI''))
       \<lparr>col_minWidth := Some 240, col_ellipsis := True\<rparr>,
     (column0 (lit ''actions'') [0x64CD, 0x4F5C])
       \<lparr>col_width := Some 112, col_align := Some (lit ''right''), col_fixed := Some (lit ''right'')\<rparr>]"

definition redirectSummary :: "OAuthClient \<Rightarrow> jsstr" where
  "redirectSummary client =
     (case oc_redirect_uris client of
        [] \<Rightarrow> lit ''-''
      | first # rest \<Rightarrow>
          if first = [] then lit ''-''
          else if 0 < length rest
          then first @ [0xFF08, 0x53E6, 0x6709, 0x20] @ decimal (length rest) @ [0x20, 0x4E2A, 0xFF09]
          else first)"

definition client_slots :: "bool \<Rightarrow> OAuthClient \<Rightarrow> (jsstr \<times> OAuthClient cell) list" where
  "client_slots busy c =
     [(lit ''name'', Cell_named (oc_name c) (map scope_name (oc_allowed_scopes c))),
      (lit ''client_type'', Cell_text (lit (if oc_client_type c = Web then ''Web'' else ''Desktop''))),
      (lit ''enabled'', enabled_badge (oc_enabled c)),
      (lit ''redirect'', Cell_titled (join [0xA] (oc_redirect_uris c)) (redirectSummary c)),
      (lit ''actions'', Cell_actions
        [action_button busy ''ph:pencil-simple'' [0x7F16, 0x8F91, 0x5E94, 0x7528] (Emit_edit c),
         action_button busy ''ph:power''
           ((if oc_enabled c then stopped_text else enabled_text) @ [0x5E94, 0x7528]) (Emit_toggle c),
         action_button busy ''ph:trash'' [0x5220, 0x9664, 0x5E94, 0x7528] (Emit_remove c)])]"

definition clientTable :: "bool \<Rightarrow> OAuthClient table" where
  "clientTable busy = \<lparr>tbl_columns = client_columns,
     tbl_emptyText = [0x8FD8, 0x6CA1, 0x6709, 0x63A5, 0x5165, 0x5E94, 0x7528],
     tbl_rowKey = lit ''client_id'', tbl_fields = client_fields, tbl_slots = client_slots busy,
     tbl_rowClick = (\<lambda>_. None)\<rparr>"

section \<open>The tables keep their promises\<close>

lemma badge_buttons [simp]:
  "cell_buttons (if b then Cell_badge x y else Cell_badge x' y') = []"
  by simp

lemmas table_defs =
  domainTable_def domain_columns_def domain_fields_def domain_slots_def
  userTable_def user_columns_def user_fields_def user_slots_def
  groupTable_def group_columns_def group_fields_def group_slots_def
  clientTable_def client_columns_def client_fields_def client_slots_def
  column0_def enabled_badge_def action_button_def row_buttons_def

interpretation domain_table: data_table domainTable
  by unfold_locales (auto simp: table_wf_def table_defs lit_def)

interpretation user_table: data_table userTable
  by unfold_locales (auto simp: table_wf_def table_defs lit_def)

interpretation group_table: data_table groupTable
  by unfold_locales (auto simp: table_wf_def table_defs lit_def)

interpretation client_table: data_table clientTable
  by unfold_locales (auto simp: table_wf_def table_defs lit_def)

lemma table_emits_Nil: "table_emits t [] = []"
  by (simp add: table_emits_def)

lemma table_emits_Cons:
  "table_emits t (r # rows) =
     (case tbl_rowClick t r of None \<Rightarrow> [] | Some e \<Rightarrow> [e]) @
     map btn_emit (filter (\<lambda>b. \<not> btn_disabled b) (row_buttons t r)) @ table_emits t rows"
  by (simp add: table_emits_def)

lemma domain_emits: "set (table_emits (domainTable busy) ds) = Emit_edit ` set ds"
  by (induction ds) (auto simp: table_emits_Nil table_emits_Cons table_defs)

lemma group_emits: "set (table_emits (groupTable busy) gs) = Emit_edit ` set gs"
  by (induction gs) (auto simp: table_emits_Nil table_emits_Cons table_defs)

lemma user_emits:
  "set (table_emits (userTable busy) us) = Emit_edit ` set us \<union>
     (if busy then {} else Emit_resetPassword ` set us \<union> Emit_remove ` set us)"
  by (induction us) (auto simp: table_emits_Nil table_emits_Cons table_defs)

lemma client_emits:
  "set (table_emits (clientTable busy) cs) =
     (if busy then {} else Emit_edit ` set cs \<union> Emit_toggle ` set cs \<union> Emit_remove ` set cs)"
  by (induction cs) (auto simp: table_emits_Nil table_emits_Cons table_defs)

lemmas table_events [simp] = domain_emits group_emits user_emits client_emits

section \<open>Properties\<close>

text \<open>
  C33: the tables of the console fit their records and offer what they should. In every table, for
  every row, the columns have different keys, every slot belongs to a column, a column without slot
  names a field of the record, and the row key is a field, although the rows are cast past the type
  checker. A table emits events for its own rows only. A busy table never asks to remove, switch or
  reset anything; the tables of domains, users and groups still ask to edit a row that is clicked,
  while that of the clients emits nothing at all.
\<close>

theorem tables_sound:
  "table_wf (domainTable busy) d \<and> table_wf (userTable busy) u \<and> table_wf (groupTable busy) g \<and>
   table_wf (clientTable busy) c \<and>
   set (table_emits (domainTable busy) ds) = Emit_edit ` set ds \<and>
   set (table_emits (groupTable busy) gs) = Emit_edit ` set gs \<and>
   set (table_emits (userTable busy) us) = Emit_edit ` set us \<union>
     (if busy then {} else Emit_resetPassword ` set us \<union> Emit_remove ` set us) \<and>
   set (table_emits (clientTable busy) cs) =
     (if busy then {} else Emit_edit ` set cs \<union> Emit_toggle ` set cs \<union> Emit_remove ` set cs)"
  by (intro conjI domain_table.wf user_table.wf group_table.wf client_table.wf table_events)

end
