(* ===== verification/Editors.thy ===== *)
theory Editors
  imports Forms Ou_Tree Tables
begin

text \<open>
  The editors of the console: \<open>OuEditor.vue\<close>, \<open>UserEditor.vue\<close>, \<open>GroupEditor.vue\<close>,
  \<open>DomainEditor.vue\<close> and \<open>OAuthClientEditor.vue\<close>, and the form that they fill
  (\<open>components/shell/EditorForm.vue\<close>). An editor is the list of the fields of its template, each
  with its label, its control and the part of the form that it is bound to by \<open>v-model\<close>; that part
  is given by a getter and a setter, and the contract \<open>form_editor\<close> states their laws. A change of a
  field is \<open>edit_form\<close>. Of the component library only this is assumed: a disabled or read-only
  control changes nothing, a list offers its enabled options, and a checkbox over a list of values
  adds or removes its own value. The attributes \<open>required\<close> and \<open>maxlength\<close> are recorded but
  restrict nothing.
\<close>

section \<open>Fields and editors\<close>

datatype input_value =
    V_text jsstr
  | V_flag bool
  | V_status UserStatus
  | V_client_type OAuthClientType
  | V_scopes "OAuthScope list"

record select_option =
  opt_value :: input_value
  opt_label :: jsstr
  opt_disabled :: bool

datatype control =
    Control_input "jsstr option"
  | Control_textarea nat
  | Control_select "select_option list"
  | Control_radio "select_option list"
  | Control_checkbox OAuthScope
  | Control_toggle

record 'f field =
  fd_model :: jsstr
  fd_label :: jsstr
  fd_control :: control
  fd_required :: bool
  fd_disabled :: bool
  fd_maxlength :: "nat option"
  fd_placeholder :: "jsstr option"
  fd_helpText :: "jsstr option"
  fd_get :: "'f \<Rightarrow> input_value"
  fd_put :: "input_value \<Rightarrow> 'f \<Rightarrow> 'f"

text \<open>The form with its identifier, and whether a submit button of the footer belongs to it.\<close>

record 'f editor =
  ed_formId :: jsstr
  ed_fields :: "'f field list"

definition EditorForm :: "string \<Rightarrow> 'f field list \<Rightarrow> 'f editor" where
  "EditorForm formId slot = \<lparr>ed_formId = lit formId, ed_fields = slot\<rparr>"

text \<open>Which values a control can change its value to.\<close>

definition offers :: "select_option list \<Rightarrow> input_value \<Rightarrow> bool" where
  "offers opts v \<longleftrightarrow> list_ex (\<lambda>opt. opt_value opt = v \<and> \<not> opt_disabled opt) opts"

fun accepts :: "control \<Rightarrow> input_value \<Rightarrow> input_value \<Rightarrow> bool" where
  "accepts (Control_input _) (V_text _) (V_text _) = True"
| "accepts (Control_textarea _) (V_text _) (V_text _) = True"
| "accepts (Control_select opts) _ v = offers opts v"
| "accepts (Control_radio opts) _ v = offers opts v"
| "accepts (Control_checkbox sc) (V_scopes old) (V_scopes new) =
     (set (removeAll sc new) = set (removeAll sc old))"
| "accepts Control_toggle (V_flag _) (V_flag _) = True"
| "accepts _ _ _ = False"

definition edit_field :: "'f field \<Rightarrow> input_value \<Rightarrow> 'f \<Rightarrow> 'f" where
  "edit_field fd v f =
     (if \<not> fd_disabled fd \<and> accepts (fd_control fd) (fd_get fd f) v then fd_put fd v f else f)"

definition edit_form :: "'f editor \<Rightarrow> nat \<Rightarrow> input_value \<Rightarrow> 'f \<Rightarrow> 'f" where
  "edit_form ed n v f = (if n < length (ed_fields ed) then edit_field (ed_fields ed ! n) v f else f)"

definition edits :: "'f editor \<Rightarrow> (nat \<times> input_value) list \<Rightarrow> 'f \<Rightarrow> 'f" where
  "edits ed es f = fold (\<lambda>(n, v). edit_form ed n v) es f"

text \<open>A drawer with its title and the two buttons of its footer: closing, and submitting a form.\<close>

record drawer =
  dr_visible :: bool
  dr_title :: jsstr
  dr_blocked :: bool
  dr_close :: jsstr
  dr_submit :: "(jsstr \<times> jsstr) option"

text \<open>
  The submit button of a footer stands outside the form and names it by its identifier: the form
  of an editor can be submitted when the visible drawer has a button for it that is not disabled.
\<close>

definition drawer_has_form :: "drawer \<Rightarrow> 'f editor \<Rightarrow> bool" where
  "drawer_has_form d ed \<longleftrightarrow> dr_visible d \<and> map_option fst (dr_submit d) = Some (ed_formId ed)"

definition drawer_submits :: "drawer \<Rightarrow> 'f editor \<Rightarrow> bool" where
  "drawer_submits d ed \<longleftrightarrow> drawer_has_form d ed \<and> \<not> dr_blocked d"

definition save_text :: jsstr where
  "save_text = [0x4FDD, 0x5B58]"

definition cancel_text :: jsstr where
  "cancel_text = [0x53D6, 0x6D88]"

definition close_text :: jsstr where
  "close_text = [0x5173, 0x95ED]"

section \<open>Kinds of fields\<close>

definition field0 ::
  "string \<Rightarrow> jsstr \<Rightarrow> control \<Rightarrow> ('f \<Rightarrow> input_value) \<Rightarrow> (input_value \<Rightarrow> 'f \<Rightarrow> 'f) \<Rightarrow> 'f field" where
  "field0 model label control get put = \<lparr>fd_model = lit model, fd_label = label, fd_control = control,
     fd_required = False, fd_disabled = False, fd_maxlength = None, fd_placeholder = None,
     fd_helpText = None, fd_get = get, fd_put = put\<rparr>"

definition text_field ::
  "string \<Rightarrow> jsstr \<Rightarrow> control \<Rightarrow> ('f \<Rightarrow> jsstr) \<Rightarrow> (jsstr \<Rightarrow> 'f \<Rightarrow> 'f) \<Rightarrow> 'f field" where
  "text_field model label control get put =
     field0 model label control (\<lambda>f. V_text (get f)) (\<lambda>v f. case v of V_text t \<Rightarrow> put t f | _ \<Rightarrow> f)"

definition flag_field ::
  "string \<Rightarrow> jsstr \<Rightarrow> control \<Rightarrow> ('f \<Rightarrow> bool) \<Rightarrow> (bool \<Rightarrow> 'f \<Rightarrow> 'f) \<Rightarrow> 'f field" where
  "flag_field model label control get put =
     field0 model label control (\<lambda>f. V_flag (get f)) (\<lambda>v f. case v of V_flag b \<Rightarrow> put b f | _ \<Rightarrow> f)"

abbreviation input :: control where
  "input \<equiv> Control_input None"

abbreviation input_type :: "string \<Rightarrow> control" where
  "input_type t \<equiv> Control_input (Some (lit t))"

definition choices :: "('a \<Rightarrow> input_value) \<Rightarrow> ('a \<times> jsstr) list \<Rightarrow> select_option list" where
  "choices as_value opts = map (\<lambda>(v, label). \<lparr>opt_value = as_value v, opt_label = label, opt_disabled = False\<rparr>) opts"

section \<open>The editors of the directory\<close>

text \<open>The options for a unit, indented by depth with ideographic spaces.\<close>

definition item_label :: "OuTreeItem \<Rightarrow> jsstr" where
  "item_label item = repeat_str [0x3000] (ti_depth item) @ ou_name (ti_ou item)"

definition ou_parent_options :: "OuTreeItem list \<Rightarrow> jsstr option \<Rightarrow> select_option list" where
  "ou_parent_options items editingId =
     \<lparr>opt_value = V_text [], opt_label = ([0x6839] @ lit '' OU''), opt_disabled = False\<rparr> #
     map (\<lambda>item. \<lparr>opt_value = V_text (ou_id (ti_ou item)), opt_label = item_label item,
       opt_disabled = (editingId = Some (ou_id (ti_ou item)))\<rparr>) items"

definition user_ou_options :: "OuTreeItem list \<Rightarrow> select_option list" where
  "user_ou_options items = map (\<lambda>item. \<lparr>opt_value = V_text (ou_id (ti_ou item)),
     opt_label = item_label item, opt_disabled = False\<rparr>) items"

definition group_ou_options :: "OuTreeItem list \<Rightarrow> select_option list" where
  "group_ou_options items = map (\<lambda>item. \<lparr>opt_value = V_text (ou_id (ti_ou item)),
     opt_label = item_label item, opt_disabled = False\<rparr>) items"

definition id_fixed_text :: jsstr where
  "id_fixed_text = [0x6807, 0x8BC6, 0x521B, 0x5EFA, 0x540E, 0x4E0D, 0x53EF, 0x4FEE, 0x6539]"

definition id_sync_text :: jsstr where
  "id_sync_text = ([0x540C, 0x6B65, 0x5230] @ lit '' AD '' @ [0x65F6, 0x4F7F, 0x7528, 0x7684, 0x6807, 0x8BC6])"

definition ouEditor :: "OuTreeItem list \<Rightarrow> jsstr option \<Rightarrow> OuForm editor" where
  "ouEditor items editingId = EditorForm ''ou-form''
     [(text_field ''form.id'' (lit ''OU '' @ [0x6807, 0x8BC6]) input of_id (\<lambda>t. of_id_update (\<lambda>_. t)))
        \<lparr>fd_disabled := truthy editingId,
         fd_helpText := Some (if truthy editingId then id_fixed_text else id_sync_text),
         fd_required := True\<rparr>,
      (text_field ''form.name'' [0x540D, 0x79F0] input of_name (\<lambda>t. of_name_update (\<lambda>_. t)))\<lparr>fd_required := True\<rparr>,
      text_field ''form.parent_id'' ([0x7236] @ lit '' OU'') (Control_select (ou_parent_options items editingId))
        of_parent_id (\<lambda>t. of_parent_id_update (\<lambda>_. t))]"

definition composedDisplayName :: "UserForm \<Rightarrow> jsstr" where
  "composedDisplayName form = trim (uf_surname form) @ trim (uf_given_name form)"

definition statusOptions :: "(UserStatus \<times> jsstr) list" where
  "statusOptions = [(Active, enabled_text), (Disabled, [0x7981, 0x7528])]"

definition userEditor :: "OuTreeItem list \<Rightarrow> jsstr option \<Rightarrow> UserForm \<Rightarrow> UserForm editor" where
  "userEditor items editingId form = EditorForm ''user-form''
     ([(text_field ''form.employee_id'' [0x5DE5, 0x53F7] input uf_employee_id (\<lambda>t. uf_employee_id_update (\<lambda>_. t)))
         \<lparr>fd_disabled := True, fd_helpText := Some [0x7531, 0x7CFB, 0x7EDF, 0x5206, 0x914D, 0xFF0C, 0x4E0D, 0x53EF, 0x4FEE, 0x6539]\<rparr>,
       (text_field ''form.username'' [0x767B, 0x5F55, 0x540D] input uf_username (\<lambda>t. uf_username_update (\<lambda>_. t)))
         \<lparr>fd_required := True\<rparr>,
       (text_field ''form.surname'' [0x59D3] input uf_surname (\<lambda>t. uf_surname_update (\<lambda>_. t)))
         \<lparr>fd_required := True\<rparr>,
       (text_field ''form.given_name'' [0x540D] input uf_given_name (\<lambda>t. uf_given_name_update (\<lambda>_. t)))
         \<lparr>fd_required := True\<rparr>,
       (text_field ''form.display_name'' [0x663E, 0x793A, 0x540D] input uf_display_name (\<lambda>t. uf_display_name_update (\<lambda>_. t)))
         \<lparr>fd_placeholder := Some (composedDisplayName form), fd_helpText := Some ([0x7559, 0x7A7A, 0x5219, 0x7531, 0x59D3] @ lit '' + '' @ [0x540D, 0x7EC4, 0x6210])\<rparr>,
       field0 ''form.status'' [0x72B6, 0x6001] (Control_select (choices V_status statusOptions))
         (\<lambda>f. V_status (uf_status f))
         (\<lambda>v f. case v of V_status x \<Rightarrow> f\<lparr>uf_status := x\<rparr> | _ \<Rightarrow> f),
       (text_field ''form.organizational_unit_id'' ([0x6240, 0x5C5E] @ lit '' OU'') (Control_select (user_ou_options items))
          uf_organizational_unit_id (\<lambda>t. uf_organizational_unit_id_update (\<lambda>_. t)))\<lparr>fd_required := True\<rparr>,
       text_field ''form.email'' [0x90AE, 0x7BB1] (input_type ''email'') uf_email (\<lambda>t. uf_email_update (\<lambda>_. t)),
       text_field ''form.mobile'' [0x624B, 0x673A] input uf_mobile (\<lambda>t. uf_mobile_update (\<lambda>_. t))] @
      (if truthy editingId then [] else
        [(text_field ''form.initial_password'' [0x521D, 0x59CB, 0x5BC6, 0x7801] (input_type ''password'')
            uf_initial_password (\<lambda>t. uf_initial_password_update (\<lambda>_. t)))
           \<lparr>fd_helpText := Some [0x521B, 0x5EFA, 0x540E, 0x7531, 0x7528, 0x6237, 0x672C, 0x4EBA, 0x767B, 0x5F55, 0x4FEE, 0x6539], fd_required := True\<rparr>]))"

definition groupEditor :: "OuTreeItem list \<Rightarrow> jsstr option \<Rightarrow> GroupForm editor" where
  "groupEditor items editingId = EditorForm ''group-form''
     [(text_field ''form.id'' [0x7EC4, 0x6807, 0x8BC6] input gf_id (\<lambda>t. gf_id_update (\<lambda>_. t)))
        \<lparr>fd_disabled := truthy editingId,
         fd_helpText := Some (if truthy editingId then id_fixed_text else id_sync_text),
         fd_required := True\<rparr>,
      (text_field ''form.name'' [0x7EC4, 0x540D, 0x79F0] input gf_name (\<lambda>t. gf_name_update (\<lambda>_. t)))\<lparr>fd_required := True\<rparr>,
      (text_field ''form.organizational_unit_id'' ([0x6240, 0x5C5E] @ lit '' OU'') (Control_select (group_ou_options items))
         gf_organizational_unit_id (\<lambda>t. gf_organizational_unit_id_update (\<lambda>_. t)))\<lparr>fd_required := True\<rparr>,
      (text_field ''form.member_employee_ids'' [0x6210, 0x5458, 0x5DE5, 0x53F7] (Control_textarea 4)
         gf_member_employee_ids (\<lambda>t. gf_member_employee_ids_update (\<lambda>_. t)))
        \<lparr>fd_placeholder := Some ([0x7528, 0x82F1, 0x6587, 0x9017, 0x53F7, 0x5206, 0x9694, 0xFF0C, 0x4F8B, 0x5982] @ lit '' 1001, 1002''),
         fd_helpText := Some ([0x4FDD, 0x5B58, 0x540E, 0x6210, 0x5458, 0x5173, 0x7CFB, 0x4F1A, 0x540C, 0x6B65, 0x5230, 0x8BE5, 0x7EC4, 0x6240, 0x5C5E] @ lit '' AD '' @ [0x57DF])\<rparr>]"

section \<open>The editor of a domain\<close>

definition enabledOptions :: "(bool \<times> jsstr) list" where
  "enabledOptions = [(True, enabled_text), (False, stopped_text)]"

definition domainEditor :: "jsstr option \<Rightarrow> DomainAttributeDefaults \<Rightarrow> DomainForm editor" where
  "domainEditor editingId attributeDefaults = EditorForm ''domain-form''
     [(text_field ''form.id'' [0x57DF, 0x6807, 0x8BC6] input df_id (\<lambda>t. df_id_update (\<lambda>_. t)))
        \<lparr>fd_disabled := truthy editingId,
         fd_helpText := Some (if truthy editingId then id_fixed_text else (lit ''Syncer '' @ [0x5339, 0x914D, 0x8BE5, 0x57DF, 0x65F6, 0x4F7F, 0x7528])),
         fd_required := True\<rparr>,
      (text_field ''form.name'' [0x57DF, 0x540D, 0x79F0] input df_name (\<lambda>t. df_name_update (\<lambda>_. t)))\<lparr>fd_required := True\<rparr>,
      (text_field ''form.upn_suffix'' (lit ''UPN '' @ [0x540E, 0x7F00]) input df_upn_suffix (\<lambda>t. df_upn_suffix_update (\<lambda>_. t)))
        \<lparr>fd_helpText := Some ([0x4F8B, 0x5982] @ lit '' example.com''), fd_required := True\<rparr>,
      flag_field ''form.enabled'' [0x72B6, 0x6001] (Control_select (choices V_flag enabledOptions))
        df_enabled (\<lambda>b. df_enabled_update (\<lambda>_. b)),
      (text_field ''form.mirror_root_dn'' ([0x955C, 0x50CF, 0x6839] @ lit '' DN'') input df_mirror_root_dn
         (\<lambda>t. df_mirror_root_dn_update (\<lambda>_. t)))\<lparr>fd_required := True\<rparr>,
      (text_field ''form.quarantine_ou_dn'' ([0x9694, 0x79BB] @ lit '' OU DN'') input df_quarantine_ou_dn
         (\<lambda>t. df_quarantine_ou_dn_update (\<lambda>_. t)))\<lparr>fd_required := True\<rparr>,
      (text_field ''form.employee_id_attribute'' [0x5DE5, 0x53F7, 0x5C5E, 0x6027] input df_employee_id_attribute
         (\<lambda>t. df_employee_id_attribute_update (\<lambda>_. t)))
        \<lparr>fd_placeholder := Some (dad_employee_id_attribute attributeDefaults)\<rparr>,
      (text_field ''form.managed_group_id_attribute'' [0x53D7, 0x7BA1, 0x7EC4, 0x6807, 0x8BC6, 0x5C5E, 0x6027] input df_managed_group_id_attribute
         (\<lambda>t. df_managed_group_id_attribute_update (\<lambda>_. t)))
        \<lparr>fd_placeholder := Some (dad_managed_group_id_attribute attributeDefaults)\<rparr>]"

section \<open>The editor of an OAuth client\<close>

record OAuthClientEditorModel =
  em_name :: jsstr
  em_client_type :: OAuthClientType
  em_redirect_uris :: jsstr
  em_allowed_scopes :: "OAuthScope list"
  em_enabled :: bool

definition clientTypes :: "(OAuthClientType \<times> jsstr) list" where
  "clientTypes = [(Web, lit ''Web''), (Desktop, lit ''Desktop'')]"

definition scopes :: "(OAuthScope \<times> jsstr) list" where
  "scopes = [(Openid, (lit ''OpenID'' @ [0xFF08, 0x5FC5, 0x9009, 0xFF09])), (Profile, [0x7528, 0x6237, 0x8D44, 0x6599]), (Email, [0x90AE, 0x7BB1]), (Phone, [0x7535, 0x8BDD])]"

definition scope_field :: "bool \<Rightarrow> OAuthScope \<times> jsstr \<Rightarrow> OAuthClientEditorModel field" where
  "scope_field saving scopeOption =
     (field0 ''form.allowed_scopes'' (snd scopeOption) (Control_checkbox (fst scopeOption))
        (\<lambda>f. V_scopes (em_allowed_scopes f))
        (\<lambda>v f. case v of V_scopes x \<Rightarrow> f\<lparr>em_allowed_scopes := x\<rparr> | _ \<Rightarrow> f))
       \<lparr>fd_disabled := (fst scopeOption = Openid \<or> saving)\<rparr>"

definition clientEditor :: "jsstr option \<Rightarrow> bool \<Rightarrow> OAuthClientEditorModel editor" where
  "clientEditor editingId saving = EditorForm ''oauth-client-form''
     ((if truthy editingId
       then [(text_field ''editingId'' (lit ''Client ID'') input (\<lambda>_. the editingId) (\<lambda>_ f. f))
               \<lparr>fd_disabled := True\<rparr>]
       else []) @
      [(text_field ''form.name'' [0x540D, 0x79F0] input em_name (\<lambda>t. em_name_update (\<lambda>_. t)))
         \<lparr>fd_maxlength := Some 100, fd_required := True\<rparr>,
       (field0 ''form.client_type'' [0x7C7B, 0x578B] (Control_radio (choices V_client_type clientTypes))
          (\<lambda>f. V_client_type (em_client_type f))
          (\<lambda>v f. case v of V_client_type x \<Rightarrow> f\<lparr>em_client_type := x\<rparr> | _ \<Rightarrow> f))
         \<lparr>fd_disabled := truthy editingId\<rparr>,
       (text_field ''form.redirect_uris'' (lit ''Redirect URI'') (Control_textarea 4)
          em_redirect_uris (\<lambda>t. em_redirect_uris_update (\<lambda>_. t)))
         \<lparr>fd_placeholder := Some ([0x6BCF, 0x884C, 0x4E00, 0x4E2A, 0x5B8C, 0x6574] @ lit '' URI''), fd_required := True\<rparr>] @
      map (scope_field saving) scopes @
      [(flag_field ''form.enabled'' [0x542F, 0x7528, 0x5E94, 0x7528] Control_toggle em_enabled (\<lambda>b. em_enabled_update (\<lambda>_. b)))
         \<lparr>fd_disabled := saving\<rparr>])"

definition regenerate_shown :: "jsstr option \<Rightarrow> OAuthClientEditorModel \<Rightarrow> bool" where
  "regenerate_shown editingId form \<longleftrightarrow> truthy editingId \<and> em_client_type form = Web"

section \<open>The contract of an editor\<close>

text \<open>
  \<open>hidden\<close> is the part of the form that no field is bound to. The laws are those of independent
  lenses; \<open>complete\<close> says that the fields and the hidden part are the whole form.
\<close>

locale form_editor =
  fixes ed :: "'f editor" and hidden :: "'f \<Rightarrow> jsstr"
  assumes put_get: "fd \<in> set (ed_fields ed) \<Longrightarrow> \<not> fd_disabled fd \<Longrightarrow>
      accepts (fd_control fd) (fd_get fd f) v \<Longrightarrow> fd_get fd (fd_put fd v f) = v"
    and put_other: "fd \<in> set (ed_fields ed) \<Longrightarrow> fd' \<in> set (ed_fields ed) \<Longrightarrow>
      fd_model fd' \<noteq> fd_model fd \<Longrightarrow> fd_get fd' (fd_put fd v f) = fd_get fd' f"
    and put_hidden: "fd \<in> set (ed_fields ed) \<Longrightarrow> hidden (fd_put fd v f) = hidden f"
    and same_model: "fd \<in> set (ed_fields ed) \<Longrightarrow> fd' \<in> set (ed_fields ed) \<Longrightarrow>
      fd_model fd' = fd_model fd \<Longrightarrow> fd_get fd' f = fd_get fd f"
    and complete: "list_all (\<lambda>fd. fd_get fd f = fd_get fd g) (ed_fields ed) \<Longrightarrow>
      hidden f = hidden g \<Longrightarrow> f = g"
begin

text \<open>A change of a field either does nothing or shows the new value and leaves all else.\<close>

lemma edit_one_field:
  assumes "edit_form ed n v f \<noteq> f"
  shows "n < length (ed_fields ed) \<and> \<not> fd_disabled (ed_fields ed ! n) \<and>
    fd_get (ed_fields ed ! n) (edit_form ed n v f) = v \<and>
    hidden (edit_form ed n v f) = hidden f \<and>
    (\<forall>fd \<in> set (ed_fields ed). fd_model fd \<noteq> fd_model (ed_fields ed ! n) \<longrightarrow>
       fd_get fd (edit_form ed n v f) = fd_get fd f)"
  using assms put_get put_other put_hidden
  by (auto simp: edit_form_def edit_field_def split: if_splits)

lemma edit_hidden: "hidden (edit_form ed n v f) = hidden f"
  using edit_one_field by metis

lemma edits_hidden: "hidden (edits ed es f) = hidden f"
  by (induction es arbitrary: f) (auto simp: edits_def edit_hidden)

text \<open>A part of the form all of whose fields are disabled never changes.\<close>

lemma edit_fixed:
  assumes "fd \<in> set (ed_fields ed)"
    and "list_all (\<lambda>fd'. fd_model fd' = fd_model fd \<longrightarrow> fd_disabled fd') (ed_fields ed)"
  shows "fd_get fd (edit_form ed n v f) = fd_get fd f"
proof (cases "edit_form ed n v f = f")
  case False
  note one = edit_one_field [OF False]
  then have "fd_model (ed_fields ed ! n) \<noteq> fd_model fd"
    using assms(2) by (auto simp: list_all_iff)
  with one assms(1) show ?thesis
    by auto
qed simp

lemma edits_fixed:
  assumes "fd \<in> set (ed_fields ed)"
    and "list_all (\<lambda>fd'. fd_model fd' = fd_model fd \<longrightarrow> fd_disabled fd') (ed_fields ed)"
  shows "fd_get fd (edits ed es f) = fd_get fd f"
  by (induction es arbitrary: f) (auto simp: edits_def edit_fixed [OF assms])

lemma edit_same_view:
  assumes "\<And>fd. fd \<in> set (ed_fields ed) \<Longrightarrow> fd_get fd f = fd_get fd g" and "hidden f = hidden g"
  shows "f = g"
  using assms complete by (auto simp: list_all_iff)

text \<open>
  The fields can be filled in one after the other: a form can be turned into any other that differs
  only in enabled fields and has values there that the fields take.
\<close>

lemma fill_fields:
  assumes "\<And>fd. fd \<in> set (ed_fields ed) \<Longrightarrow> fd_get fd g = fd_get fd f \<or>
      \<not> fd_disabled fd \<and> (\<forall>h. accepts (fd_control fd) (fd_get fd h) (fd_get fd g))"
    and "k \<le> length (ed_fields ed)"
  shows "\<exists>es. (\<forall>fd \<in> set (take k (ed_fields ed)). fd_get fd (edits ed es f) = fd_get fd g) \<and>
    (\<forall>fd \<in> set (ed_fields ed). fd_get fd (edits ed es f) \<in> {fd_get fd f, fd_get fd g})"
  using assms(2)
proof (induction k)
  case 0
  then show ?case by (intro exI [of _ "[]"]) (simp add: edits_def)
next
  case (Suc k)
  let ?fd = "ed_fields ed ! k"
  from Suc obtain es where es: "\<And>fd. fd \<in> set (take k (ed_fields ed)) \<Longrightarrow> fd_get fd (edits ed es f) = fd_get fd g"
    "\<And>fd. fd \<in> set (ed_fields ed) \<Longrightarrow> fd_get fd (edits ed es f) \<in> {fd_get fd f, fd_get fd g}"
    by auto
  have k: "k < length (ed_fields ed)" "?fd \<in> set (ed_fields ed)"
    using Suc.prems by simp_all
  let ?h = "edits ed es f" and ?es = "if fd_get ?fd (edits ed es f) = fd_get ?fd g then es else es @ [(k, fd_get ?fd g)]"
  have get: "fd_get fd (edits ed ?es f) = (if fd_model fd = fd_model ?fd then fd_get fd g else fd_get fd ?h)"
    if fd: "fd \<in> set (ed_fields ed)" for fd
  proof (cases "fd_get ?fd ?h = fd_get ?fd g")
    case True
    with same_model [OF k(2) fd] show ?thesis by simp
  next
    case False
    with es(2) [OF k(2)] assms(1) [OF k(2)] have ok: "\<not> fd_disabled ?fd"
      "accepts (fd_control ?fd) (fd_get ?fd ?h) (fd_get ?fd g)"
      by auto
    with False k(1) have step: "edits ed ?es f = fd_put ?fd (fd_get ?fd g) ?h"
      by (simp add: edits_def edit_form_def edit_field_def)
    show ?thesis
      unfolding step using put_get [OF k(2) ok] put_other [OF k(2) fd] same_model [OF k(2) fd] by simp
  qed
  have "fd_get fd (edits ed ?es f) = fd_get fd g" if fd: "fd \<in> set (take (Suc k) (ed_fields ed))" for fd
  proof -
    from fd k(1) have "fd = ?fd \<or> fd \<in> set (take k (ed_fields ed))"
      by (auto simp: take_Suc_conv_app_nth)
    with es(1) get [OF in_set_takeD [OF fd]] show ?thesis
      by auto
  qed
  moreover have "fd_get fd (edits ed ?es f) \<in> {fd_get fd f, fd_get fd g}" if "fd \<in> set (ed_fields ed)" for fd
    using that es(2) get [of fd] by auto
  ultimately show ?case by blast
qed

lemma fill:
  assumes "list_all (\<lambda>fd. fd_get fd g = fd_get fd f \<or>
      \<not> fd_disabled fd \<and> (\<forall>h. accepts (fd_control fd) (fd_get fd h) (fd_get fd g))) (ed_fields ed)"
    and "hidden g = hidden f"
  shows "\<exists>es. edits ed es f = g"
proof -
  have "fd \<in> set (ed_fields ed) \<Longrightarrow> fd_get fd g = fd_get fd f \<or>
      \<not> fd_disabled fd \<and> (\<forall>h. accepts (fd_control fd) (fd_get fd h) (fd_get fd g))" for fd
    using assms(1) by (simp add: list_all_iff)
  from fill_fields [OF this, of "length (ed_fields ed)"] obtain es
    where "\<And>fd. fd \<in> set (ed_fields ed) \<Longrightarrow> fd_get fd (edits ed es f) = fd_get fd g"
    by auto
  with edits_hidden assms(2) show ?thesis
    by (metis edit_same_view)
qed

text \<open>Two changes of different parts can be made in either order.\<close>

lemma put_put_commute:
  assumes "a \<in> set (ed_fields ed)" "b \<in> set (ed_fields ed)" "fd_model a \<noteq> fd_model b"
    and "\<not> fd_disabled a" "accepts (fd_control a) (fd_get a f) v"
    and "\<not> fd_disabled b" "accepts (fd_control b) (fd_get b f) w"
  shows "fd_put a v (fd_put b w f) = fd_put b w (fd_put a v f)"
proof (rule edit_same_view)
  fix fd assume fd: "fd \<in> set (ed_fields ed)"
  have ab: "fd_get a (fd_put a v (fd_put b w f)) = v" "fd_get b (fd_put b w (fd_put a v f)) = w"
    using assms put_other put_get by metis+
  have ba: "fd_get b (fd_put a v (fd_put b w f)) = w" "fd_get a (fd_put b w (fd_put a v f)) = v"
    using assms put_other put_get by metis+
  consider "fd_model fd = fd_model a" | "fd_model fd = fd_model b"
    | "fd_model fd \<noteq> fd_model a" "fd_model fd \<noteq> fd_model b" by blast
  then show "fd_get fd (fd_put a v (fd_put b w f)) = fd_get fd (fd_put b w (fd_put a v f))"
  proof cases
    case 1
    then show ?thesis using same_model [OF assms(1) fd] ab(1) ba(2) by simp
  next
    case 2
    then show ?thesis using same_model [OF assms(2) fd] ab(2) ba(1) by simp
  next
    case 3
    then show ?thesis using put_other fd assms(1,2) by metis
  qed
qed (simp add: put_hidden assms)

end

section \<open>The contract holds\<close>

lemma all_input_value:
  "(\<forall>v. P v) \<longleftrightarrow> (\<forall>t. P (V_text t)) \<and> (\<forall>b. P (V_flag b)) \<and> (\<forall>x. P (V_status x)) \<and>
     (\<forall>x. P (V_client_type x)) \<and> (\<forall>xs. P (V_scopes xs))"
  by (metis input_value.exhaust)

lemmas editor_defs =
  EditorForm_def text_field_def flag_field_def field0_def scope_field_def scopes_def all_input_value

lemma offers_choices [simp]: "offers (choices as_value opts) v \<longleftrightarrow> (\<exists>opt \<in> set opts. v = as_value (fst opt))"
  by (force simp: offers_def choices_def list_ex_iff)

lemma offers_ou [simp]:
  "offers (user_ou_options items) v \<longleftrightarrow> (\<exists>i \<in> set items. v = V_text (ou_id (ti_ou i)))"
  "offers (group_ou_options items) v \<longleftrightarrow> (\<exists>i \<in> set items. v = V_text (ou_id (ti_ou i)))"
  "offers (ou_parent_options items e) v \<longleftrightarrow>
     v = V_text [] \<or> (\<exists>i \<in> set items. v = V_text (ou_id (ti_ou i)) \<and> e \<noteq> Some (ou_id (ti_ou i)))"
  by (auto simp: offers_def user_ou_options_def group_ou_options_def ou_parent_options_def list_ex_iff)

text \<open>The laws over the lists of fields, in the form in which they compute.\<close>

lemma form_editorI:
  assumes "\<And>f. list_all (\<lambda>fd. fd_disabled fd \<or>
      (\<forall>v. accepts (fd_control fd) (fd_get fd f) v \<longrightarrow> fd_get fd (fd_put fd v f) = v)) (ed_fields ed)"
    and "\<And>f. list_all (\<lambda>fd. list_all (\<lambda>fd'. fd_model fd' = fd_model fd \<or>
      (\<forall>v. fd_get fd' (fd_put fd v f) = fd_get fd' f)) (ed_fields ed)) (ed_fields ed)"
    and "\<And>f. list_all (\<lambda>fd. \<forall>v. hidden (fd_put fd v f) = hidden f) (ed_fields ed)"
    and "\<And>f. list_all (\<lambda>fd. list_all (\<lambda>fd'. fd_model fd' = fd_model fd \<longrightarrow>
      fd_get fd' f = fd_get fd f) (ed_fields ed)) (ed_fields ed)"
    and "\<And>f g. list_all (\<lambda>fd. fd_get fd f = fd_get fd g) (ed_fields ed) \<Longrightarrow> hidden f = hidden g \<Longrightarrow> f = g"
  shows "form_editor ed hidden"
  using assms unfolding list_all_iff form_editor_def by (intro conjI allI impI) metis+

interpretation ou_editor: form_editor "ouEditor items editingId" "\<lambda>_. []"
  by (rule form_editorI) (simp_all add: ouEditor_def editor_defs)

interpretation user_editor:
  form_editor "userEditor items editingId form"
    "\<lambda>f. if truthy editingId then uf_initial_password f else []"
  by (rule form_editorI; cases "truthy editingId") (simp_all add: userEditor_def editor_defs)

interpretation group_editor: form_editor "groupEditor items editingId" "\<lambda>_. []"
  by (rule form_editorI) (simp_all add: groupEditor_def editor_defs)

interpretation domain_editor: form_editor "domainEditor editingId defaults" "\<lambda>_. []"
  by (rule form_editorI) (simp_all add: domainEditor_def editor_defs)

interpretation client_editor: form_editor "clientEditor editingId saving" "\<lambda>_. []"
  by (rule form_editorI) (simp_all add: clientEditor_def editor_defs)

section \<open>What stays fixed\<close>

text \<open>The parts of the forms that their editors cannot change.\<close>

lemma edits_induct:
  assumes "\<And>n v f. P f \<Longrightarrow> P (edit_form ed n v f)" and "P f"
  shows "P (edits ed es f)"
  using assms(2) by (induction es arbitrary: f) (auto simp: edits_def assms(1))

lemma edit_field_at:
  assumes "\<And>fd. fd \<in> set (ed_fields ed) \<Longrightarrow> P (edit_field fd v f)" and "P f"
  shows "P (edit_form ed n v f)"
  using assms by (simp add: edit_form_def)

lemma ou_id_fixed:
  "truthy e \<Longrightarrow> of_id (edit_form (ouEditor items e) n v f) = of_id f"
  using ou_editor.edit_fixed [of "ed_fields (ouEditor items e) ! 0" items e n v f]
  by (simp add: ouEditor_def editor_defs)

lemma group_id_fixed:
  "truthy e \<Longrightarrow> gf_id (edit_form (groupEditor items e) n v f) = gf_id f"
  using group_editor.edit_fixed [of "ed_fields (groupEditor items e) ! 0" items e n v f]
  by (simp add: groupEditor_def editor_defs)

lemma user_id_fixed: "uf_employee_id (edit_form (userEditor items e form) n v f) = uf_employee_id f"
  using user_editor.edit_fixed [of "ed_fields (userEditor items e form) ! 0" items e form n v f]
  by (simp add: userEditor_def editor_defs)

lemma user_password_fixed:
  "truthy e \<Longrightarrow> uf_initial_password (edit_form (userEditor items e form) n v f) = uf_initial_password f"
  using user_editor.edit_hidden [of e items form n v f] by simp

lemma domain_id_fixed:
  "truthy e \<Longrightarrow> df_id (edit_form (domainEditor e defaults) n v f) = df_id f"
  using domain_editor.edit_fixed [of "ed_fields (domainEditor e defaults) ! 0" e defaults n v f]
  by (simp add: domainEditor_def editor_defs)

lemma client_type_fixed:
  "truthy e \<Longrightarrow> em_client_type (edit_form (clientEditor e saving) n v f) = em_client_type f"
  using client_editor.edit_fixed [of "ed_fields (clientEditor e saving) ! 2" e saving n v f]
  by (simp add: clientEditor_def editor_defs)

text \<open>No checkbox but its own changes a scope, and that of \<open>openid\<close> is disabled.\<close>

lemma scope_edit:
  "set ys - {sc} = set xs - {sc} \<Longrightarrow> sc \<noteq> Openid \<Longrightarrow> Openid \<in> set ys \<longleftrightarrow> Openid \<in> set xs"
  by blast

lemma scope_field_openid:
  "Openid \<in> set (em_allowed_scopes (edit_field (scope_field saving p) v f)) \<longleftrightarrow>
     Openid \<in> set (em_allowed_scopes f)"
proof (cases "edit_field (scope_field saving p) v f = f")
  case False
  then obtain ys where "v = V_scopes ys" "fst p \<noteq> Openid" "set ys - {fst p} = set (em_allowed_scopes f) - {fst p}"
    by (cases v) (simp_all add: edit_field_def scope_field_def field0_def split: if_splits)
  moreover from this(2,3) have "Openid \<in> set ys \<longleftrightarrow> Openid \<in> set (em_allowed_scopes f)"
    by (rule scope_edit [rotated])
  ultimately show ?thesis
    by (simp add: edit_field_def scope_field_def field0_def)
qed simp

lemma client_openid_fixed:
  "Openid \<in> set (em_allowed_scopes (edit_form (clientEditor e saving) n v f)) \<longleftrightarrow>
     Openid \<in> set (em_allowed_scopes f)"
proof (rule edit_field_at)
  fix fd assume "fd \<in> set (ed_fields (clientEditor e saving))"
  then consider "fd \<in> set (map (scope_field saving) scopes)" | "em_allowed_scopes (edit_field fd v f) = em_allowed_scopes f"
    by (cases v) (auto simp: clientEditor_def EditorForm_def text_field_def flag_field_def field0_def
        edit_field_def split: if_splits)
  then show "Openid \<in> set (em_allowed_scopes (edit_field fd v f)) \<longleftrightarrow> Openid \<in> set (em_allowed_scopes f)"
    by cases (auto simp only: set_map image_iff scope_field_openid)
qed simp

text \<open>A list offers units that exist; a unit is not offered as its own parent.\<close>

lemma ou_parent_chosen:
  "of_parent_id (edit_form (ouEditor items e) n v f) \<in>
     {of_parent_id f, []} \<union> {ou_id (ti_ou i) |i. i \<in> set items \<and> e \<noteq> Some (ou_id (ti_ou i))}"
  by (rule edit_field_at; cases v) (auto simp: ouEditor_def editor_defs edit_field_def)

lemma user_ou_chosen:
  "uf_organizational_unit_id (edit_form (userEditor items e form) n v f) \<in>
     {uf_organizational_unit_id f} \<union> (ou_id \<circ> ti_ou) ` set items"
  by (rule edit_field_at; cases v)
    (auto simp: userEditor_def editor_defs edit_field_def split: if_splits)

lemma group_ou_chosen:
  "gf_organizational_unit_id (edit_form (groupEditor items e) n v f) \<in>
     {gf_organizational_unit_id f} \<union> (ou_id \<circ> ti_ou) ` set items"
  by (rule edit_field_at; cases v) (auto simp: groupEditor_def editor_defs edit_field_def)

text \<open>What a chain of changes can lead to, when a single one adds only \<open>B\<close>.\<close>

lemma edits_range:
  assumes "\<And>n v f. g (edit_form ed n v f) \<in> {g f} \<union> B"
  shows "g (edits ed es f) \<in> {g f} \<union> B"
proof (rule edits_induct [where P = "\<lambda>x. g x \<in> {g f} \<union> B"])
  fix n v h assume "g h \<in> {g f} \<union> B"
  with assms [of n v h] show "g (edit_form ed n v h) \<in> {g f} \<union> B"
    by auto
qed simp

section \<open>Properties\<close>


















text \<open>
  C13: whatever is typed and chosen in the editor of an existing object, and however often, its
  identifier stays as it is, as do the type of a client, the employee number of a user and the unused initial password;
  the scope \<open>openid\<close> is neither added nor taken away. A user or group only moves to a unit of the
  tree, and no unit can be chosen as its own parent.
\<close>

theorem editors_keep_identity:
  assumes "e = Some i" and "i \<noteq> []"
  shows "of_id (edits (ouEditor items e) es fo) = of_id fo \<and>
    gf_id (edits (groupEditor items e) es fg) = gf_id fg \<and>
    df_id (edits (domainEditor e defaults) es fd) = df_id fd \<and>
    uf_employee_id (edits (userEditor items e form) es fu) = uf_employee_id fu \<and>
    uf_initial_password (edits (userEditor items e form) es fu) = uf_initial_password fu \<and>
    em_client_type (edits (clientEditor e saving) es fc) = em_client_type fc \<and>
    (Openid \<in> set (em_allowed_scopes (edits (clientEditor e saving) es fc)) \<longleftrightarrow>
       Openid \<in> set (em_allowed_scopes fc)) \<and>
    uf_organizational_unit_id (edits (userEditor items e form) es fu) \<in>
      {uf_organizational_unit_id fu} \<union> (ou_id \<circ> ti_ou) ` set items \<and>
    gf_organizational_unit_id (edits (groupEditor items e) es fg) \<in>
      {gf_organizational_unit_id fg} \<union> (ou_id \<circ> ti_ou) ` set items \<and>
    of_parent_id (edits (ouEditor items e) es fo) \<in>
      {of_parent_id fo, []} \<union> ((ou_id \<circ> ti_ou) ` set items - {i})"
proof (intro conjI)
  have "truthy e"
    using assms by (simp add: truthy_def)
  note fixed = ou_id_fixed [OF this] group_id_fixed [OF this] domain_id_fixed [OF this] user_id_fixed
    user_password_fixed [OF this] client_type_fixed [OF this] client_openid_fixed
  show "of_id (edits (ouEditor items e) es fo) = of_id fo" "gf_id (edits (groupEditor items e) es fg) = gf_id fg"
    "df_id (edits (domainEditor e defaults) es fd) = df_id fd"
    "uf_employee_id (edits (userEditor items e form) es fu) = uf_employee_id fu"
    "uf_initial_password (edits (userEditor items e form) es fu) = uf_initial_password fu"
    "em_client_type (edits (clientEditor e saving) es fc) = em_client_type fc"
    "Openid \<in> set (em_allowed_scopes (edits (clientEditor e saving) es fc)) \<longleftrightarrow>
       Openid \<in> set (em_allowed_scopes fc)"
    by (rule edits_induct; simp add: fixed)+
  have "of_parent_id (edit_form (ouEditor items e) n v f) \<in>
      {of_parent_id f} \<union> ({[]} \<union> ((ou_id \<circ> ti_ou) ` set items - {i}))" for n v f
    using ou_parent_chosen [of items e n v f] by (auto simp: assms(1))
  from edits_range [of of_parent_id, OF this, of es fo]
  show "of_parent_id (edits (ouEditor items e) es fo) \<in>
      {of_parent_id fo, []} \<union> ((ou_id \<circ> ti_ou) ` set items - {i})"
    by blast
qed (rule edits_range user_ou_chosen group_ou_chosen)+

theorem editors_keep_identity_witness:
  "of_id (edits (ouEditor [] (Some (lit ''o''))) [(0, V_text (lit ''p''))] blankOuForm) = []"
  using editors_keep_identity [OF refl, of "lit ''o''" "[]" "[(0, V_text (lit ''p''))]" blankOuForm]
  by (simp add: blankOuForm_def)

end
