(* ===== verification/User_Pages.thy ===== *)
theory User_Pages
  imports User_Api Oidc_Utils
begin

text \<open>
  The pages of an ordinary user: the shell with its exit menu
  (\<open>portal/web/app/components/user/UserShell.vue\<close>), the login page (\<open>pages/login.vue\<close>), the
  account page (\<open>pages/me.vue\<close>) and the pages that only redirect (\<open>pages/index.vue\<close>,
  \<open>pages/sync.vue\<close>, \<open>pages/domains.vue\<close>, \<open>pages/admin/index.vue\<close>). A page's reactive state is a
  record that extends the session's; \<open>window.location.assign\<close> appends to a log.

  \<open>login_calls\<close> and \<open>me_calls\<close> say what a user can set off on a page: its handlers under the
  conditions of its template (disabled buttons, closed dialogues), its fields, its shell and its
  mounting.
\<close>

section \<open>Redirecting pages\<close>

definition index_onMounted :: "('s, unit) prog" where
  "index_onMounted = navigateTo (lit ''/login'') []"

definition sync_onMounted :: "('s, unit) prog" where
  "sync_onMounted = navigateTo (lit ''/admin/directory'') []"

definition domains_redirect_onMounted :: "('s, unit) prog" where
  "domains_redirect_onMounted = navigateTo (lit ''/admin/domains'') []"

definition admin_index_onMounted :: "('s, unit) prog" where
  "admin_index_onMounted = navigateTo (lit ''/admin/directory'') []"

section \<open>The shell\<close>

definition displayName :: "'z user_api_scheme \<Rightarrow> jsstr" where
  "displayName s = (case usr_profile s of
     None \<Rightarrow> [] | Some p \<Rightarrow> truthy_or (Some (up_display_name p)) (truthy_or (Some (up_username p)) []))"

definition exitUser :: "('z user_api_scheme, unit) prog" where
  "exitUser = seqThen (user_logout True) (navigateTo (lit ''/login'') [])"

text \<open>The menu that holds the exit is shown while there is a profile.\<close>

definition exit_shown :: "'z user_api_scheme \<Rightarrow> bool" where
  "exit_shown s \<longleftrightarrow> usr_profile s \<noteq> None"

text \<open>The label and the icon of the theme switch, for the theme that \<open>useTheme\<close> of the library reports.\<close>

definition themeLabel :: "jsstr \<Rightarrow> jsstr" where
  "themeLabel theme =
     (if theme = lit ''dark'' then [0x5207, 0x6362, 0x4E3A, 0x6D45, 0x8272, 0x4E3B, 0x9898]
      else [0x5207, 0x6362, 0x4E3A, 0x6DF1, 0x8272, 0x4E3B, 0x9898])"

definition themeIcon :: "jsstr \<Rightarrow> jsstr" where
  "themeIcon theme = lit (if theme = lit ''dark'' then ''ph:sun'' else ''ph:moon'')"

section \<open>Login\<close>

record login_page = user_api +
  lgn_username :: jsstr
  lgn_password :: jsstr
  lgn_query_continue :: unknown
  lgn_origin :: jsstr
  lgn_assigned :: "jsstr list"

definition authorizationContinue :: "url_parser \<Rightarrow> 'z login_page_scheme \<Rightarrow> jsstr option" where
  "authorizationContinue parse s =
     (if \<not> usr_client s then None
      else resolveAuthorizationContinue parse (lgn_query_continue s) (lgn_origin s))"

definition login_onMounted :: "url_parser \<Rightarrow> ('z login_page_scheme, unit) prog" where
  "login_onMounted parse = reading (\<lambda>s.
     if truthy (authorizationContinue parse s) then Ret ()
     else
       seqThen (modify (\<lambda>s. fst (loadToken s)))
         (if snd (loadToken s) = [] then Ret ()
          else andThen (loadMe False) (\<lambda>valid.
            if valid then navigateTo (lit ''/me'') [] else Ret ())))"

definition submitLogin :: "url_parser \<Rightarrow> ('z login_page_scheme, unit) prog" where
  "submitLogin parse = reading (\<lambda>s.
     andThen (login (lgn_username s) (lgn_password s)) (\<lambda>ok.
       if \<not> ok then Ret ()
       else
         seqThen (modify (\<lambda>s. s\<lparr>lgn_password := []\<rparr>))
           (reading (\<lambda>s.
              let target = authorizationContinue parse s in
              if truthy target
              then modify (\<lambda>s. s\<lparr>lgn_assigned := lgn_assigned s @ [the target]\<rparr>)
              else navigateTo (lit ''/me'') []))))"

definition login_disabled :: "'z login_page_scheme \<Rightarrow> bool" where
  "login_disabled s \<longleftrightarrow> user_loading s \<or> trim (lgn_username s) = [] \<or> lgn_password s = []"

inductive login_calls ::
  "url_parser \<Rightarrow> 'z login_page_scheme \<Rightarrow> ('z login_page_scheme, unit) prog \<Rightarrow> bool"
  for parse :: url_parser where
  "login_calls parse s (login_onMounted parse)"
| "\<not> login_disabled s \<Longrightarrow> login_calls parse s (submitLogin parse)"
| "login_calls parse s (modify (\<lambda>s. s\<lparr>lgn_username := u\<rparr>))"
| "login_calls parse s (modify (\<lambda>s. s\<lparr>lgn_password := p\<rparr>))"
| "login_calls parse s (modify (\<lambda>s. s\<lparr>lgn_query_continue := q\<rparr>))"
| "exit_shown s \<Longrightarrow> login_calls parse s exitUser"

section \<open>Account\<close>

record contact_form =
  cf_email :: jsstr
  cf_mobile :: jsstr

record password_form =
  pf_currentPassword :: jsstr
  pf_newPassword :: jsstr
  pf_confirmPassword :: jsstr

record me_page = user_api +
  me_contactOpen :: bool
  me_passwordOpen :: bool
  me_saving :: bool
  me_contactForm :: contact_form
  me_passwordForm :: password_form

record contact_field =
  fld_icon :: jsstr
  fld_label :: jsstr
  fld_value :: jsstr
  fld_empty :: bool

definition not_filled_in :: jsstr where
  "not_filled_in = [0x672A, 0x586B, 0x5199]"

definition contactFields :: "'z me_page_scheme \<Rightarrow> contact_field list" where
  "contactFields s =
     (let email = Option.bind (usr_profile s) up_email; mobile = Option.bind (usr_profile s) up_mobile in
      [\<lparr>fld_icon = lit ''ph:envelope-simple'', fld_label = [0x90AE, 0x7BB1],
        fld_value = truthy_or email not_filled_in, fld_empty = (\<not> truthy email)\<rparr>,
       \<lparr>fld_icon = lit ''ph:device-mobile'', fld_label = [0x624B, 0x673A],
        fld_value = truthy_or mobile not_filled_in, fld_empty = (\<not> truthy mobile)\<rparr>])"

text \<open>What the page shows of the account: name, username, unit and contact, once there is a profile.\<close>

datatype account_view =
    Account_loading
  | Account_shown jsstr jsstr jsstr "contact_field list"

definition account_view_of :: "'z me_page_scheme \<Rightarrow> account_view" where
  "account_view_of s = (case usr_profile s of
     None \<Rightarrow> Account_loading
   | Some p \<Rightarrow> Account_shown (displayName s) (up_username p) (up_organizational_unit_id p) (contactFields s))"

definition passwordMismatch :: "'z me_page_scheme \<Rightarrow> bool" where
  "passwordMismatch s \<longleftrightarrow>
     0 < length (pf_newPassword (me_passwordForm s)) \<and>
     0 < length (pf_confirmPassword (me_passwordForm s)) \<and>
     pf_newPassword (me_passwordForm s) \<noteq> pf_confirmPassword (me_passwordForm s)"

definition me_onMounted :: "('z me_page_scheme, unit) prog" where
  "me_onMounted = reading (\<lambda>s.
     seqThen (modify (\<lambda>s. fst (loadToken s)))
       (if snd (loadToken s) = [] then navigateTo (lit ''/login'') []
        else andThen (loadMe False) (\<lambda>valid.
          if \<not> valid then navigateTo (lit ''/login'') [] else Ret ())))"

definition openContact :: "'z me_page_scheme \<Rightarrow> 'z me_page_scheme" where
  "openContact s =
     (let orEmpty = (\<lambda>x. case x of None \<Rightarrow> [] | Some v \<Rightarrow> v) in
      s\<lparr>me_contactForm := \<lparr>cf_email = orEmpty (Option.bind (usr_profile s) up_email),
          cf_mobile = orEmpty (Option.bind (usr_profile s) up_mobile)\<rparr>,
        me_contactOpen := True\<rparr>)"

definition openPassword :: "'z me_page_scheme \<Rightarrow> 'z me_page_scheme" where
  "openPassword s =
     s\<lparr>me_passwordForm := \<lparr>pf_currentPassword = [], pf_newPassword = [], pf_confirmPassword = []\<rparr>,
       me_passwordOpen := True\<rparr>"

definition me_set_saving :: "bool \<Rightarrow> 'z me_page_scheme \<Rightarrow> 'z me_page_scheme" where
  "me_set_saving b s = s\<lparr>me_saving := b\<rparr>"

definition saveContact :: "('z me_page_scheme, unit) prog" where
  "saveContact =
     exclusively me_saving me_set_saving
       (reading (\<lambda>s.
          andThen
            (updateContact (nullable (cf_email (me_contactForm s))) (nullable (cf_mobile (me_contactForm s))))
            (\<lambda>ok. if ok then modify (\<lambda>s. s\<lparr>me_contactOpen := False\<rparr>) else Ret ())))"

definition savePassword :: "('z me_page_scheme, unit) prog" where
  "savePassword =
     exclusively (\<lambda>s. me_saving s \<or> passwordMismatch s) me_set_saving
       (reading (\<lambda>s.
          andThen
            (changePassword (pf_currentPassword (me_passwordForm s)) (pf_newPassword (me_passwordForm s)))
            (\<lambda>ok. if ok then modify (\<lambda>s. s\<lparr>me_passwordOpen := False\<rparr>) else Ret ())))"

text \<open>
  The dialogues hold their forms while they are open; their buttons are disabled while saving, but
  a form can also be submitted by its last field.
\<close>

inductive me_calls :: "'z me_page_scheme \<Rightarrow> ('z me_page_scheme, unit) prog \<Rightarrow> bool" where
  "me_calls s me_onMounted"
| "usr_profile s \<noteq> None \<Longrightarrow> me_calls s (modify openContact)"
| "usr_profile s \<noteq> None \<Longrightarrow> me_calls s (modify openPassword)"
| "me_contactOpen s \<Longrightarrow> me_calls s saveContact"
| "me_passwordOpen s \<Longrightarrow> me_calls s savePassword"
| "me_contactOpen s \<Longrightarrow> me_calls s (modify (\<lambda>s. s\<lparr>me_contactForm := cf\<rparr>))"
| "me_passwordOpen s \<Longrightarrow> me_calls s (modify (\<lambda>s. s\<lparr>me_passwordForm := pf\<rparr>))"
| "\<not> me_saving s \<Longrightarrow> me_calls s (modify (\<lambda>s. s\<lparr>me_contactOpen := False\<rparr>))"
| "\<not> me_saving s \<Longrightarrow> me_calls s (modify (\<lambda>s. s\<lparr>me_passwordOpen := False\<rparr>))"
| "exit_shown s \<Longrightarrow> me_calls s exitUser"

lemmas user_pages_defs [js_eval] =
  exitUser_def login_onMounted_def submitLogin_def me_onMounted_def openContact_def openPassword_def
  me_set_saving_def saveContact_def savePassword_def truthy_def

section \<open>The login page assigns only authorization paths\<close>

text \<open>
  A safe target: a path of this origin that is exactly the authorization path, with or without a
  query.
\<close>

definition safe_target :: "jsstr \<Rightarrow> bool" where
  "safe_target t \<longleftrightarrow> (\<exists>q. t = authorizationPath @ q \<and> (q = [] \<or> hd q = 0x3F))"

definition assigns_safe :: "'z login_page_scheme \<Rightarrow> bool" where
  "assigns_safe s \<longleftrightarrow> (\<forall>t \<in> set (lgn_assigned s). safe_target t)"

lemma authorizationContinue_safe:
  assumes "search_wf parse" and "authorizationContinue parse s = Some t"
  shows "safe_target t"
  using assms
  by (auto simp: authorizationContinue_def resolve_Some_iff safe_target_def search_wf_def split: if_splits)

interpretation login_frame:
  user_frame anywhere "keeps assigns_safe" "lgn_assigned :: 'z login_page_scheme \<Rightarrow> _" "\<lambda>_. False"
  by unfold_locales (simp_all add: keeps_def assigns_safe_def anywhere_def)

lemma assigns_safe_steps [simp]:
  "assigns_safe (s\<lparr>lgn_username := u\<rparr>) = assigns_safe s"
  "assigns_safe (s\<lparr>lgn_password := p\<rparr>) = assigns_safe s"
  "assigns_safe (s\<lparr>lgn_query_continue := q\<rparr>) = assigns_safe s"
  "assigns_safe (fst (loadToken s)) = assigns_safe s"
  "assigns_safe (s\<lparr>lgn_assigned := lgn_assigned s @ [t]\<rparr>) \<longleftrightarrow> assigns_safe s \<and> safe_target t"
  by (auto simp: assigns_safe_def loadToken_def Let_def)

lemma truthy_continue_safe:
  "search_wf parse \<Longrightarrow> truthy (authorizationContinue parse s) \<Longrightarrow>
    safe_target (the (authorizationContinue parse s))"
  by (auto simp: truthy_def intro: authorizationContinue_safe split: option.splits)

lemma login_calls_safe:
  assumes "search_wf parse" and "login_calls parse s m"
  shows "obeys anywhere (keeps assigns_safe) {#} m {#}"
  using assms(2)
  by induction
    (auto simp: login_onMounted_def submitLogin_def exitUser_def Let_def truthy_continue_safe [OF assms(1)]
      intro!: obeys_intro login_frame.frame_loadMe login_frame.frame_login login_frame.frame_logout)

lemma login_calls_obey: "login_calls parse s m \<Longrightarrow> obeys user_ok user_may {#} m {#}"
  by (induction rule: login_calls.induct)
    (auto simp: login_onMounted_def submitLogin_def exitUser_def Let_def intro!: obeys_intro)

section \<open>One sign-in at a time\<close>

definition login_path :: jsstr where
  "login_path = lit ''/api/auth/login''"

fun login_query :: "query \<Rightarrow> bool" where
  "login_query (Fetch rq) = (rq_path rq = login_path)"
| "login_query _ = False"

lemma login_entry_track:
  "entry_obeys usr_pending login_query {#False#} m {#False#} \<Longrightarrow>
    entry_obeys usr_pending login_query {#} (user_trackRequest m) {#}"
  unfolding user_trackRequest_def by (rule entry_counted) simp_all

lemma login_entry_fetch:
  "path \<noteq> login_path \<Longrightarrow> entry_obeys usr_pending login_query {#} (userFetch path init) {#}"
  unfolding userFetch_def by (auto intro!: obeys_intro login_entry_track)

lemma login_entry_others [obeys_intro]:
  "entry_obeys usr_pending login_query {#} (loadMe b) {#}"
  "entry_obeys usr_pending login_query {#} (user_logout b) {#}"
  unfolding loadMe_def user_logout_def
  by (auto simp: login_path_def lit_def
      intro!: obeys_intro entry_finallyDo login_entry_fetch login_entry_track)

text \<open>Submitting the form counts the request of the login before the first suspension.\<close>

lemma login_enters:
  assumes "trim u \<noteq> []" and "p \<noteq> []" and "\<And>b. entry_obeys usr_pending login_query {#} (l b) {#}"
  shows "\<exists>m. start (andThen (login u p) l) s = start m (s\<lparr>usr_pending := usr_pending s + 1\<rparr>) \<and>
    entry_obeys usr_pending login_query {#True#} m {#}"
  using assms unfolding login_def login_body_def user_trackRequest_def
  by (auto simp: start_catching_modify Let_def
      intro!: exI obeys_andThen obeys_catching entry_release obeys_intro)

lemma submitLogin_enters:
  assumes "\<not> login_disabled s"
  shows "may_enter usr_pending login_query s (submitLogin parse)"
proof -
  have "\<exists>m. start (submitLogin parse) s = start m (s\<lparr>usr_pending := usr_pending s + 1\<rparr>) \<and>
      entry_obeys usr_pending login_query {#True#} m {#}"
    unfolding submitLogin_def start_reading
    by (rule login_enters) (use assms in \<open>auto simp: login_disabled_def Let_def intro!: obeys_intro\<close>)
  with assms show ?thesis
    by (auto simp: login_disabled_def user_loading_def intro!: enters_first)
qed

lemma login_calls_enter: "login_calls parse s m \<Longrightarrow> may_enter usr_pending login_query s m"
proof (induction rule: login_calls.induct)
  case (2 s)
  then show ?case by (rule submitLogin_enters)
qed (auto simp: login_onMounted_def exitUser_def intro!: enters_never obeys_intro)

interpretation login_entry: single_entry usr_pending login_query "login_calls parse"
  by unfold_locales (rule login_calls_enter)

section \<open>One update of the account at a time\<close>

definition account_update :: "request \<Rightarrow> bool" where
  "account_update rq \<longleftrightarrow> rq_path rq = contact_path \<or> rq_path rq = password_path"

fun account_query :: "query \<Rightarrow> bool" where
  "account_query (Fetch rq) = account_update rq"
| "account_query _ = False"

interpretation me_frame:
  user_frame "excl_ok account_query" "excl_may me_saving" "me_saving :: 'z me_page_scheme \<Rightarrow> _" account_update
  by unfold_locales (auto simp: excl_may_same excl_ok_def account_update_def)

lemma me_ok [simp]: "excl_ok account_query (Some (NavigateTo p q)) G" "excl_ok account_query (Some (Fetch rq)) {#()#}"
  by (simp_all add: excl_ok_def)

lemma me_calls_excl: "me_calls s m \<Longrightarrow> obeys (excl_ok account_query) (excl_may me_saving) {#} m {#}"
  by (induction rule: me_calls.induct)
    (auto simp: me_onMounted_def exitUser_def openContact_def openPassword_def saveContact_def
      savePassword_def me_set_saving_def Let_def
      intro!: obeys_intro obeys_exclusively me_frame.frame_ops)

interpretation me_saves: exclusive_work me_saving account_query me_calls
  by unfold_locales (rule me_calls_excl)

lemma user_obeys_exclusively [obeys_intro]:
  "obeys user_ok user_may G m G \<Longrightarrow> (\<And>b s. usr_pending (up b s) = usr_pending s) \<Longrightarrow>
    obeys user_ok user_may G (exclusively blocked up m) G"
  by (rule obeys_exclusively_same) (simp_all add: user_may_def)

lemma me_calls_obey: "me_calls s m \<Longrightarrow> obeys user_ok user_may {#} m {#}"
  by (induction rule: me_calls.induct)
    (auto simp: me_onMounted_def exitUser_def openContact_def openPassword_def saveContact_def
      savePassword_def me_set_saving_def Let_def intro!: obeys_intro)

section \<open>Outcomes\<close>

lemma me_fields [simp]:
  "me_contactOpen (user_notify m s) = me_contactOpen s"
  "me_contactOpen (clearToken s) = me_contactOpen s"
  "me_contactOpen (establish t x s) = me_contactOpen s"
  "me_passwordOpen (user_notify m s) = me_passwordOpen s"
  "me_passwordOpen (clearToken s) = me_passwordOpen s"
  "me_passwordOpen (establish t x s) = me_passwordOpen s"
  "me_saving (user_notify m s) = me_saving s"
  "me_saving (clearToken s) = me_saving s"
  "me_saving (establish t x s) = me_saving s"
  "me_contactForm (user_notify m s) = me_contactForm s"
  "me_contactForm (clearToken s) = me_contactForm s"
  "me_contactForm (establish t x s) = me_contactForm s"
  "me_passwordForm (user_notify m s) = me_passwordForm s"
  "me_passwordForm (clearToken s) = me_passwordForm s"
  "me_passwordForm (establish t x s) = me_passwordForm s"
  by (simp_all add: user_notify_def clearToken_def establish_def Let_def)

lemma lgn_fields [simp]:
  "lgn_username (user_notify m s) = lgn_username s"
  "lgn_username (clearToken s) = lgn_username s"
  "lgn_username (establish t x s) = lgn_username s"
  "lgn_password (user_notify m s) = lgn_password s"
  "lgn_password (clearToken s) = lgn_password s"
  "lgn_password (establish t x s) = lgn_password s"
  "lgn_query_continue (user_notify m s) = lgn_query_continue s"
  "lgn_query_continue (clearToken s) = lgn_query_continue s"
  "lgn_query_continue (establish t x s) = lgn_query_continue s"
  "lgn_origin (user_notify m s) = lgn_origin s"
  "lgn_origin (clearToken s) = lgn_origin s"
  "lgn_origin (establish t x s) = lgn_origin s"
  "lgn_assigned (user_notify m s) = lgn_assigned s"
  "lgn_assigned (clearToken s) = lgn_assigned s"
  "lgn_assigned (establish t x s) = lgn_assigned s"
  by (simp_all add: user_notify_def clearToken_def establish_def Let_def)

definition login_targets :: "url_parser \<Rightarrow> 'z login_page_scheme \<Rightarrow> jsstr list" where
  "login_targets parse s =
     (if truthy (authorizationContinue parse s) then [the (authorizationContinue parse s)] else [])"

lemma continue_unchanged [simp]:
  "authorizationContinue parse (user_notify m s) = authorizationContinue parse s"
  "authorizationContinue parse (establish t x s) = authorizationContinue parse s"
  "authorizationContinue parse (s\<lparr>lgn_password := p\<rparr>) = authorizationContinue parse s"
  by (simp_all add: authorizationContinue_def establish_def user_notify_def)

lemma signed_in_page [simp]:
  "signed_in t (s\<lparr>lgn_password := p\<rparr>) = signed_in t s"
  "signed_in t (s\<lparr>lgn_assigned := as\<rparr>) = signed_in t s"
  by (simp_all add: signed_in_def)

lemma ex_signed_in [simp]: "trim t \<noteq> [] \<Longrightarrow> \<exists>u. signed_in u (user_notify m (establish t x s))"
  using signed_in_establish by blast

lemma submitLogin_ensures:
  assumes "\<not> login_disabled s"
  shows "ensures (submitLogin parse) (\<lambda>_ s' r.
    (\<exists>t. signed_in t s') \<and> lgn_password s' = [] \<and> lgn_assigned s' = lgn_assigned s @ login_targets parse s \<or>
    r = Inr () \<and> signed_out s' \<and> lgn_password s' = lgn_password s \<and> lgn_assigned s' = lgn_assigned s) 5 s"
proof -
  have "ensures (login (lgn_username s) (lgn_password s)) (\<lambda>n s' r. 1 \<le> n \<and>
      ((\<exists>t x. r = Inr True \<and> trim t \<noteq> [] \<and> s' = user_notify (Success M_user_logged_in) (establish t x s)) \<or>
       (\<exists>f. r = Inr False \<and> s' = user_notify (Failure f) (clearToken s)))) (4 + 1) s"
    by (rule ensures_mono [OF ensures_more [OF login_ensures]])
      (use assms in \<open>auto simp: login_disabled_def\<close>)
  then have "ensures (login (lgn_username s) (lgn_password s)) (\<lambda>n s' r. 1 \<le> n \<and>
      ((\<exists>t x. r = Inr True \<and> trim t \<noteq> [] \<and> s' = user_notify (Success M_user_logged_in) (establish t x s)) \<or>
       (\<exists>f. r = Inr False \<and> s' = user_notify (Failure f) (clearToken s)))) 5 s"
    by simp
  then show ?thesis
    unfolding submitLogin_def ensures_reading ensures_andThen
    by (rule ensures_mono)
      (auto simp: Let_def login_targets_def)
qed

lemma saveContact_ensures:
  "ensures saveContact (\<lambda>_ s' r. r = Inr () \<and>
     (if me_saving s then s' = s
      else \<not> me_saving s' \<and> me_contactForm s' = me_contactForm s \<and>
        ((\<exists>x. usr_profile s' = Some x \<and> \<not> me_contactOpen s' \<and>
            usr_toasts s' = usr_toasts s @ [Success M_contact_saved]) \<or>
         (\<exists>f. me_contactOpen s' = me_contactOpen s \<and> usr_toasts s' = usr_toasts s @ [Failure f])))) 2 s"
  by (auto simp: saveContact_def me_set_saving_def Let_def intro!: ensures_mono [OF updateContact_ensures])

lemma savePassword_ensures:
  "ensures savePassword (\<lambda>_ s' r. r = Inr () \<and>
     (if me_saving s \<or> passwordMismatch s then s' = s
      else \<not> me_saving s' \<and> me_passwordForm s' = me_passwordForm s \<and>
        ((\<not> me_passwordOpen s' \<and> usr_toasts s' = usr_toasts s @ [Success M_password_changed]) \<or>
         (\<exists>f. me_passwordOpen s' = me_passwordOpen s \<and> usr_toasts s' = usr_toasts s @ [Failure f])))) 2 s"
  by (auto simp: savePassword_def me_set_saving_def Let_def intro!: ensures_mono [OF changePassword_ensures])

section \<open>Properties\<close>

text \<open>
  C1: the login page never sends the browser anywhere but to this origin's authorization path with
  an optional query, whatever the \<open>continue\<close> parameter says, for every URL parser whose \<open>search\<close> is
  empty or starts with a question mark.
\<close>

theorem login_redirects_safely:
  assumes "search_wf parse" and "reachable (login_calls parse) s0 c" and "lgn_assigned s0 = []"
    and "t \<in> set (lgn_assigned (fst c))"
  shows "\<exists>q. t = authorizationPath @ q \<and> (q = [] \<or> hd q = 0x3F)"
proof -
  have "assigns_safe s0"
    using assms(3) by (simp add: assigns_safe_def)
  moreover have "state_invariant assigns_safe (login_calls parse)"
    by (rule state_invariant.intro) (rule login_calls_safe [OF assms(1)])
  ultimately have "assigns_safe (fst c)"
    using state_invariant.reachable_invariant [OF _ assms(2)] by blast
  with assms(4) show ?thesis
    by (simp add: assigns_safe_def safe_target_def)
qed

text \<open>A small URL parser: a value that starts with a slash is a path with an optional query.\<close>

definition path_parser :: url_parser where
  "path_parser v base =
     (if v \<noteq> [] \<and> hd v = slash
      then Some \<lparr>url_origin = take (length base - 1) base, url_pathname = takeWhile (\<lambda>c. c \<noteq> 0x3F) v,
        url_search = dropWhile (\<lambda>c. c \<noteq> 0x3F) v\<rparr>
      else None)"

lemma search_wf_path_parser: "search_wf path_parser"
  using hd_dropWhile [of "\<lambda>c. c \<noteq> 0x3F"]
  by (fastforce simp: search_wf_def path_parser_def split: if_splits)

definition login_page0 :: login_page where
  "login_page0 = user_api.extend user_api0
     (login_page.fields (lit ''a'') (lit ''b'') (StringValue (lit ''/oauth2/authorize?x'')) (lit ''o'') [])"

lemma resolve_example:
  "resolveAuthorizationContinue path_parser (StringValue (lit ''/oauth2/authorize?x'')) (lit ''o'') =
     Some (lit ''/oauth2/authorize?x'')"
  by (simp add: resolveAuthorizationContinue_def path_parser_def authorizationPath_def lit_def slash_def)

definition profile0 :: UserProfile where
  "profile0 = \<lparr>up_employee_id = [], up_username = lit ''a'', up_display_name = [], up_surname = [],
     up_given_name = [], up_email = None, up_mobile = None, up_telephone = None,
     up_organizational_unit_id = [], up_status = Active\<rparr>"

theorem login_redirects_safely_witness:
  "\<exists>q. lit ''/oauth2/authorize?x'' = authorizationPath @ q \<and> (q = [] \<or> hd q = 0x3F)"
proof -
  let ?ok = "Responded \<lparr>rs_status = 200, rs_statusText = []\<rparr>"
  let ?c = "schedule [(0, ?ok), (0, Json (P_login \<lparr>lr_employee_id = [], lr_access_token = lit ''t''\<rparr>)),
      (0, ?ok), (0, Json (P_profile profile0))] (call (submitLogin path_parser) (login_page0, []))"
  have t: "trim (lit ''a'') = lit ''a''" "trim (lit ''t'') = lit ''t''"
    by (simp_all add: trim_eval)
  have "\<not> login_disabled login_page0"
    by (simp add: login_disabled_def user_loading_def login_page0_def login_page.defs user_api.defs
        user_api0_def t)
  then have "reachable (login_calls path_parser) login_page0 ?c"
    by (intro reachable_schedule reachable.intros login_calls.intros) simp
  moreover have "lgn_assigned login_page0 = []"
    by (simp add: login_page0_def login_page.defs user_api.defs user_api0_def)
  moreover have "lit ''/oauth2/authorize?x'' \<in> set (lgn_assigned (fst ?c))"
    by (simp add: js_eval exec_defs Let_def login_page0_def login_page.defs user_api.defs user_api0_def
        t authorizationContinue_def resolve_example)
  ultimately show ?thesis
    by (rule login_redirects_safely [OF search_wf_path_parser])
qed

definition me_page0 :: me_page where
  "me_page0 = user_api.extend (user_api0\<lparr>usr_accessToken := lit ''t''\<rparr>)
     (me_page.fields True True False \<lparr>cf_email = lit '' a '', cf_mobile = []\<rparr>
       \<lparr>pf_currentPassword = lit ''x'', pf_newPassword = lit ''y'', pf_confirmPassword = []\<rparr>)"

text \<open>
  C29: saving the contact data sends the trimmed fields, an empty one as \<open>null\<close>, together with the
  telephone number of the profile, which the form does not show. When the server accepts them the
  dialogue is closed and the page shows the account as the server has stored it: a missing value
  by a fixed text, and as name the display name or else the username.
\<close>

theorem saveContact_shown:
  assumes "user_tokenReady s" and "\<not> me_saving s" and "response_ok ok"
  shows "\<exists>rq s' m. run saveContact [Responded ok, Json (P_contact u)] s = ([Fetch rq, ReadJson], s', [m]) \<and>
    outcome m = Some (Inr ()) \<and> rq_method rq = PATCH \<and> rq_path rq = contact_path \<and>
    rq_body rq = Some (JObj
      [(lit ''email'', json_opt (nullable (cf_email (me_contactForm s)))),
       (lit ''mobile'', json_opt (nullable (cf_mobile (me_contactForm s)))),
       (lit ''telephone'', json_opt (Option.bind (usr_profile s) up_telephone))]) \<and>
    \<not> me_contactOpen s' \<and> \<not> me_saving s' \<and>
    (\<exists>name fs. account_view_of s' = Account_shown name (up_username (cu_profile u))
        (up_organizational_unit_id (cu_profile u)) fs \<and>
      name = (if up_display_name (cu_profile u) = [] then up_username (cu_profile u)
        else up_display_name (cu_profile u)) \<and>
      map fld_value fs = map (\<lambda>x. if truthy x then the x else not_filled_in)
        [up_email (cu_profile u), up_mobile (cu_profile u)] \<and>
      map fld_empty fs = map (\<lambda>x. \<not> truthy x) [up_email (cu_profile u), up_mobile (cu_profile u)])"
  using assms
  by (auto simp: js_eval exec_defs Let_def contact_path_def account_view_of_def displayName_def
      contactFields_def truthy_or_def split: option.splits)

theorem saveContact_shown_witness:
  "\<exists>rq s' m. run saveContact [Responded \<lparr>rs_status = 200, rs_statusText = []\<rparr>,
      Json (P_contact \<lparr>cu_profile = profile0, cu_directory_revision = 0\<rparr>)] me_page0 = ([Fetch rq, ReadJson], s', [m]) \<and>
    \<not> me_contactOpen s'"
proof -
  have "user_tokenReady me_page0" "\<not> me_saving me_page0" "response_ok \<lparr>rs_status = 200, rs_statusText = []\<rparr>"
    by (simp_all add: me_page0_def me_page.defs user_api.defs user_api0_def user_tokenReady_def trim_eval
        response_ok_def)
  from saveContact_shown [OF this, of "\<lparr>cu_profile = profile0, cu_directory_revision = 0\<rparr>"] show ?thesis
    by blast
qed

text \<open>
  C37: the confirmation of the new password is compared only when it is not empty: with the
  confirmation left out, the form is accepted and the change of the password is sent.
\<close>

theorem savePassword_without_confirmation:
  assumes "pf_confirmPassword (me_passwordForm s) = []" and "pf_newPassword (me_passwordForm s) \<noteq> []"
    and "pf_currentPassword (me_passwordForm s) \<noteq> []" and "\<not> me_saving s" and "user_tokenReady s"
  shows "\<exists>rq. pool_waits (call savePassword (s, [])) = [Fetch rq] \<and> rq_path rq = password_path \<and>
    rq_method rq = POST \<and>
    rq_body rq = Some (JObj [(lit ''current_password'', JStr (pf_currentPassword (me_passwordForm s))),
      (lit ''new_password'', JStr (pf_newPassword (me_passwordForm s)))])"
  using assms by (simp add: js_eval exec_defs passwordMismatch_def password_path_def)

theorem savePassword_without_confirmation_witness:
  "pool_waits (call savePassword (me_page0, [])) \<noteq> []"
  using savePassword_without_confirmation [of me_page0]
  by (auto simp: me_page0_def me_page.defs user_api.defs user_api0_def user_tokenReady_def trim_eval)

end
