(* ===== verification/Authorize_Page.thy ===== *)
theory Authorize_Page
  imports User_Pages Json_Text
begin

text \<open>
  The consent page, \<open>portal/web/app/pages/authorize.vue\<close>. Every load of the authorization context
  takes a new generation number; an answer that comes after a later load has begun must not
  change what the page shows. The theorems make this precise for all interleavings, and describe
  the form that the page finally submits.
\<close>

section \<open>State\<close>

text \<open>\<open>None\<close> stands for the empty error message.\<close>

record authorize_page = user_api +
  azp_context :: "OidcAuthorizationContext option"
  azp_loading :: bool
  azp_switchingAccount :: bool
  azp_errorMessage :: "message option"
  azp_requestGeneration :: nat
  azp_search :: jsstr
  azp_path :: jsstr
  azp_assigned :: "jsstr list"

definition formFields :: "'z authorize_page_scheme \<Rightarrow> OidcFormField list" where
  "formFields s = (case azp_context s of None \<Rightarrow> [] | Some c \<Rightarrow> authorizationFormFields (ac_authorization c))"

definition claimEntries :: "'z authorize_page_scheme \<Rightarrow> (jsstr \<times> json) list" where
  "claimEntries s = (case azp_context s of None \<Rightarrow> [] | Some c \<Rightarrow> ac_claims c)"

definition page_authorizationPath :: "'z authorize_page_scheme \<Rightarrow> jsstr" where
  "page_authorizationPath s = lit ''/oauth2/authorize'' @ azp_search s"

definition contextPath :: "'z authorize_page_scheme \<Rightarrow> jsstr" where
  "contextPath s = lit ''/api/oauth2/authorize/context'' @ azp_search s"

definition authorizationErrorMessage :: "nat \<Rightarrow> jsstr option \<Rightarrow> message" where
  "authorizationErrorMessage status error =
     (if error = Some (lit ''invalid_request'') then M_auth_invalid_request
      else if error = Some (lit ''server_error'') then M_auth_server_error
      else M_auth_unreadable status)"

text \<open>
  The text shown for a claim. The claims come from the body of a response, so \<open>JSON.stringify\<close>
  never yields \<open>undefined\<close> and the alternative \<open>String(value)\<close> is not taken.
\<close>

definition claimValue :: "json \<Rightarrow> jsstr" where
  "claimValue v = (case v of JStr s \<Rightarrow> s | _ \<Rightarrow> json_stringify v)"

section \<open>Loading the context\<close>

definition sel_error :: "payload \<Rightarrow> jsstr option" where
  "sel_error p = (case p of P_error e \<Rightarrow> e | _ \<Rightarrow> None)"

definition sel_context :: "payload \<Rightarrow> OidcAuthorizationContext option" where
  "sel_context p = (case p of P_context c \<Rightarrow> Some c | _ \<Rightarrow> None)"

text \<open>What a load of generation \<open>g\<close> does after it has reset the page.\<close>

definition load_request :: "nat \<Rightarrow> jsstr \<Rightarrow> jsstr \<Rightarrow> ('z authorize_page_scheme, unit) prog" where
  "load_request g requestPath continuePath =
     andThen
       (fetch \<lparr>rq_path = requestPath, rq_method = GET,
          rq_headers = [(lit ''accept'', lit ''application/json'')], rq_body = None\<rparr>)
       (\<lambda>resp. reading (\<lambda>s.
          if g \<noteq> azp_requestGeneration s then Ret ()
          else if rs_status resp = 401 then
            navigateTo (lit ''/login'') [(lit ''continue'', continuePath)]
          else if \<not> response_ok resp then
            andThen (catching (andThen readJson (\<lambda>p. Ret (sel_error p))) (\<lambda>_. Ret None)) (\<lambda>error.
              modify (\<lambda>s. if g \<noteq> azp_requestGeneration s then s
                else s\<lparr>azp_errorMessage := Some (authorizationErrorMessage (rs_status resp) error)\<rparr>))
          else
            andThen (andThen readJson (asType sel_context)) (\<lambda>payload.
              modify (\<lambda>s. if g \<noteq> azp_requestGeneration s then s
                else s\<lparr>azp_context := Some payload\<rparr>))))"

definition load_rest :: "nat \<Rightarrow> jsstr \<Rightarrow> jsstr \<Rightarrow> ('z authorize_page_scheme, unit) prog" where
  "load_rest g requestPath continuePath =
     finallyDo
       (catching (load_request g requestPath continuePath)
         (\<lambda>_. modify (\<lambda>s. if g = azp_requestGeneration s
            then s\<lparr>azp_errorMessage := Some M_auth_unreachable\<rparr> else s)))
       (\<lambda>s. if g = azp_requestGeneration s then s\<lparr>azp_loading := False\<rparr> else s)"

definition begin_load :: "'z authorize_page_scheme \<Rightarrow> 'z authorize_page_scheme" where
  "begin_load s = s\<lparr>azp_requestGeneration := azp_requestGeneration s + 1, azp_loading := True,
     azp_context := None, azp_errorMessage := None\<rparr>"

definition loadAuthorizationContext :: "('z authorize_page_scheme, unit) prog" where
  "loadAuthorizationContext = Act (\<lambda>s.
     (begin_load s, load_rest (azp_requestGeneration s + 1) (contextPath s) (page_authorizationPath s)))"

definition switchAccount :: "('z authorize_page_scheme, unit) prog" where
  "switchAccount =
     seqThen (modify (\<lambda>s. s\<lparr>azp_switchingAccount := True\<rparr>))
       (seqThen (user_logout False)
         (modify (\<lambda>s. s\<lparr>azp_assigned := azp_assigned s @ [page_authorizationPath s]\<rparr>)))"

text \<open>The watcher of \<open>route.fullPath\<close>: the router has moved to \<open>path\<close> with query \<open>search\<close>.\<close>

definition route_changed :: "jsstr \<Rightarrow> jsstr \<Rightarrow> ('z authorize_page_scheme, unit) prog" where
  "route_changed path search =
     seqThen (modify (\<lambda>s. s\<lparr>azp_path := path, azp_search := search\<rparr>))
       (if path = lit ''/authorize'' then loadAuthorizationContext else Ret ())"

section \<open>What the page shows\<close>

datatype consent_view = View_loading | View_error message | View_consent OidcAuthorizationContext | View_nothing

definition consent_view_of :: "'z authorize_page_scheme \<Rightarrow> consent_view" where
  "consent_view_of s =
     (if azp_loading s then View_loading
      else case azp_errorMessage s of
        Some m \<Rightarrow> View_error m
      | None \<Rightarrow> (case azp_context s of Some c \<Rightarrow> View_consent c | None \<Rightarrow> View_nothing))"

text \<open>The lists of the consent view: the account, and what the client will be told about it.\<close>

definition consent_title :: "OidcAuthorizationContext \<Rightarrow> jsstr" where
  "consent_title c = ac_client_name c @ (lit '' '' @ [0x8BF7, 0x6C42, 0x8BBF, 0x95EE])"

definition account_rows :: "OidcAuthorizationContext \<Rightarrow> (jsstr \<times> jsstr) list" where
  "account_rows c =
     [([0x663E, 0x793A, 0x540D], au_display_name (ac_user c)),
      ([0x7528, 0x6237, 0x540D], au_username (ac_user c)),
      ([0x5DE5, 0x53F7], au_employee_id (ac_user c))]"

definition claim_rows :: "'z authorize_page_scheme \<Rightarrow> (jsstr \<times> jsstr) list" where
  "claim_rows s = map (\<lambda>(name, value). (name, claimValue value)) (claimEntries s)"

text \<open>The form that the two decision buttons post to the authorization path.\<close>

definition consent_form :: "OidcAuthorizationContext \<Rightarrow> jsstr \<Rightarrow> OidcFormField list" where
  "consent_form c decision =
     authorizationFormFields (ac_authorization c) @
     [\<lparr>ff_name = lit ''csrf_token'', ff_value = ac_csrf_token c\<rparr>,
      \<lparr>ff_name = lit ''decision'', ff_value = decision\<rparr>]"

inductive authorize_calls :: "'z authorize_page_scheme \<Rightarrow> ('z authorize_page_scheme, unit) prog \<Rightarrow> bool" where
  "authorize_calls s loadAuthorizationContext"
| "consent_view_of s = View_consent c \<Longrightarrow> \<not> azp_switchingAccount s \<Longrightarrow> authorize_calls s switchAccount"
| "authorize_calls s (route_changed path search)"
| "exit_shown s \<Longrightarrow> authorize_calls s exitUser"

lemmas authorize_defs [js_eval] =
  load_request_def load_rest_def begin_load_def loadAuthorizationContext_def switchAccount_def
  route_changed_def contextPath_def page_authorizationPath_def sel_error_def sel_context_def

section \<open>Generations\<close>

text \<open>
  A running load holds the number of its generation. Without the current number a step must leave
  everything that the page shows as it is.
\<close>

definition page_view ::
  "'z authorize_page_scheme \<Rightarrow> bool \<times> message option \<times> OidcAuthorizationContext option" where
  "page_view s = (azp_loading s, azp_errorMessage s, azp_context s)"

definition gen_may ::
  "'z authorize_page_scheme \<Rightarrow> nat multiset \<Rightarrow> 'z authorize_page_scheme \<Rightarrow> nat multiset \<Rightarrow> bool" where
  "gen_may s G s' G' \<longleftrightarrow>
     azp_requestGeneration s' = azp_requestGeneration s \<and> G' \<subseteq># G \<and>
     (azp_requestGeneration s \<notin># G \<longrightarrow> page_view s' = page_view s) \<and>
     (azp_requestGeneration s \<in># G \<longrightarrow>
        azp_loading s' = (azp_loading s \<and> azp_requestGeneration s \<in># G'))"

definition gen_inv :: "'z authorize_page_scheme \<Rightarrow> nat multiset \<Rightarrow> bool" where
  "gen_inv s T \<longleftrightarrow>
     (\<forall>g. count T g \<le> 1 \<and> (g \<in># T \<longrightarrow> g \<le> azp_requestGeneration s)) \<and>
     (azp_loading s \<longrightarrow> azp_requestGeneration s \<noteq> 0 \<longrightarrow> azp_requestGeneration s \<in># T)"

definition frozen_inv ::
  "nat \<Rightarrow> bool \<times> message option \<times> OidcAuthorizationContext option \<Rightarrow> 'z authorize_page_scheme \<Rightarrow>
   nat multiset \<Rightarrow> bool" where
  "frozen_inv g v s T \<longleftrightarrow> azp_requestGeneration s = g \<and> page_view s = v \<and> g \<notin># T"

lemma gen_may_inv:
  assumes "gen_may s G s' G'" and "gen_inv s (G + F)"
  shows "gen_inv s' (G' + F)"
proof -
  have sub: "count G' g \<le> count G g" for g
    using assms(1) by (simp add: gen_may_def subseteq_mset_def)
  have "count (G' + F) g \<le> 1 \<and> (g \<in># G' + F \<longrightarrow> g \<le> azp_requestGeneration s')" for g
  proof -
    have "count (G + F) g \<le> 1" "g \<in># G + F \<longrightarrow> g \<le> azp_requestGeneration s"
      using assms(2) unfolding gen_inv_def by blast+
    moreover have "g \<in># G' + F \<Longrightarrow> g \<in># G + F"
      using assms(1) by (auto simp: gen_may_def dest: mset_subset_eqD)
    ultimately show ?thesis
      using sub [of g] assms(1) by (auto simp: gen_may_def)
  qed
  moreover have "azp_requestGeneration s' \<in># G' + F" if "azp_loading s'" "azp_requestGeneration s' \<noteq> 0"
    using that assms by (auto simp: gen_may_def gen_inv_def page_view_def)
  ultimately show ?thesis
    unfolding gen_inv_def by blast
qed

interpretation generations: obligations anywhere gen_may gen_inv
  by unfold_locales (rule gen_may_inv)

interpretation frozen: obligations anywhere gen_may "frozen_inv g v" for g v
  by unfold_locales (auto simp: gen_may_def frozen_inv_def dest: mset_subset_eqD)

interpretation authorize_frame:
  user_frame anywhere gen_may
    "\<lambda>s :: 'z authorize_page_scheme. (azp_requestGeneration s, page_view s)" "\<lambda>_. False"
  by unfold_locales (auto simp: gen_may_def page_view_def anywhere_def)

lemma obeys_load_request: "obeys anywhere gen_may {#g#} (load_request g p q) {#g#}"
  unfolding load_request_def
  by (auto simp: gen_may_def page_view_def intro!: obeys_intro obeys_modify)

lemma obeys_load_rest: "obeys anywhere gen_may {#g#} (load_rest g p q) {#}"
  unfolding load_rest_def
  by (rule obeys_finallyDo [where Q = "{#g#}"])
   (auto simp: gen_may_def page_view_def intro!: obeys_intro obeys_modify obeys_load_request)

lemma obeys_others:
  "obeys anywhere gen_may {#} switchAccount {#}" "obeys anywhere gen_may {#} exitUser {#}"
  unfolding switchAccount_def exitUser_def
  by (auto simp: page_view_def intro!: obeys_intro authorize_frame.frame_ops)

lemma gen_inv_begin:
  assumes "gen_inv s T"
  shows "gen_inv (begin_load s) ({#azp_requestGeneration s + 1#} + T)"
proof -
  have new: "azp_requestGeneration s + 1 \<notin># T"
    using assms by (auto simp: gen_inv_def dest: Suc_n_not_le_n [THEN notE])
  have "g \<in># T \<longrightarrow> g \<le> azp_requestGeneration s" "count T g \<le> 1" for g
    using assms unfolding gen_inv_def by blast+
  with new show ?thesis
    by (auto simp: gen_inv_def begin_load_def not_in_iff le_Suc_eq)
qed

lemma authorize_entry:
  assumes "authorize_calls s m" and "gen_inv s T"
  shows "\<exists>s1 m1 G. start m s = start m1 s1 \<and> gen_inv s1 (G + T) \<and> obeys anywhere gen_may G m1 {#}"
proof -
  let ?rest = "\<lambda>s. load_rest (azp_requestGeneration s + 1) (contextPath s) (page_authorizationPath s)"
  have load: "\<exists>s1 m1 G. start loadAuthorizationContext s = start m1 s1 \<and> gen_inv s1 (G + T) \<and>
      obeys anywhere gen_may G m1 {#}" if "gen_inv s T" for s :: "'a authorize_page_scheme"
    using gen_inv_begin [OF that] obeys_load_rest
    by (intro exI [of _ "begin_load s"] exI [of _ "?rest s"] exI [of _ "{#azp_requestGeneration s + 1#}"])
      (auto simp: loadAuthorizationContext_def)
  have plain: "\<exists>s1 m1 G. start m s = start m1 s1 \<and> gen_inv s1 (G + T) \<and> obeys anywhere gen_may G m1 {#}"
    if "obeys anywhere gen_may {#} m {#}"
    using that assms(2) by (intro exI [of _ s] exI [of _ m] exI [of _ "{#}"]) simp
  from assms(1) show ?thesis
  proof cases
    case 1
    then show ?thesis
      using load assms(2) by blast
  next
    case (3 path search)
    let ?s = "s\<lparr>azp_path := path, azp_search := search\<rparr>"
    have inv: "gen_inv ?s T"
      using assms(2) by (simp add: gen_inv_def)
    have "start m s = start (if path = lit ''/authorize'' then loadAuthorizationContext else Ret ()) ?s"
      by (simp add: 3 route_changed_def seqThen_modify)
    with load [OF inv] inv show ?thesis
      by (cases "path = lit ''/authorize''")
        (auto intro!: exI [of _ ?s] exI [of _ "Ret ()"] exI [of _ "{#}"] obeys_Ret)
  next
    case (2 c)
    show ?thesis
      by (rule plain) (simp add: 2 obeys_others)
  next
    case 4
    show ?thesis
      by (rule plain) (simp add: 4 obeys_others)
  qed
qed

lemma authorize_accounted:
  assumes "reachable authorize_calls s0 c" and "azp_requestGeneration s0 = 0"
  shows "generations.accounted c"
proof (rule generations.reachable_accounted_entry [OF assms(1)])
  show "gen_inv s0 {#}"
    using assms(2) by (simp add: gen_inv_def)
qed (rule authorize_entry)

section \<open>The newest load\<close>

text \<open>
  The calls that begin a load, and the place of the newest load among the running programs: a call
  is put at the end of the list, and neither later calls nor answers move it.
\<close>

inductive load_calls :: "('z authorize_page_scheme, unit) prog \<Rightarrow> bool" where
  "load_calls loadAuthorizationContext"
| "load_calls (route_changed (lit ''/authorize'') search)"

inductive newest_load ::
  "'z authorize_page_scheme \<Rightarrow> ('z authorize_page_scheme, query, answer, js_error, unit) config \<Rightarrow> nat \<Rightarrow> bool"
  for s0 :: "'z authorize_page_scheme" where
  load_begun: "reachable authorize_calls s0 c \<Longrightarrow> authorize_calls (fst c) m \<Longrightarrow> load_calls m \<Longrightarrow>
    newest_load s0 (call m c) (length (snd c))"
| other_called: "newest_load s0 c j \<Longrightarrow> authorize_calls (fst c) m \<Longrightarrow> \<not> load_calls m \<Longrightarrow>
    newest_load s0 (call m c) j"
| some_answered: "newest_load s0 c j \<Longrightarrow> newest_load s0 (answer i r c) j"

text \<open>
  The newest load is the only program that may hold the current generation; it holds it at every
  suspension, and exactly then the page is loading.
\<close>

definition holding :: "nat \<Rightarrow> 'q option \<Rightarrow> nat multiset \<Rightarrow> bool" where
  "holding g q G \<longleftrightarrow> q \<noteq> None \<and> g \<in># G"

definition load_inv :: "nat \<Rightarrow> 'z authorize_page_scheme \<Rightarrow> nat multiset \<Rightarrow> bool" where
  "load_inv g s T \<longleftrightarrow> azp_requestGeneration s = g \<and> T \<subseteq># {#g#} \<and> (azp_loading s \<longleftrightarrow> g \<in># T)"

lemma load_inv_may:
  assumes "gen_may s G s' G'" and "load_inv g s (G + F)"
  shows "load_inv g s' (G' + F)"
proof -
  have "G' + F \<subseteq># {#g#}"
    using assms subset_mset.order_trans [of "G' + F" "G + F" "{#g#}"] by (simp add: gen_may_def load_inv_def)
  moreover have "\<not> (g \<in># G \<and> g \<in># F)"
  proof
    assume "g \<in># G \<and> g \<in># F"
    then have "2 \<le> count (G + F) g"
      by (metis count_greater_zero_iff count_union add_mono One_nat_def Suc_leI nat_1_add_1)
    moreover have "count (G + F) g \<le> count {#g#} g"
      using assms(2) by (simp only: load_inv_def subseteq_mset_def)
    ultimately show False by simp
  qed
  ultimately show ?thesis
    using assms by (auto simp: gen_may_def load_inv_def page_view_def dest: mset_subset_eqD)
qed

interpretation current: obligations "holding g" gen_may "load_inv g" for g
  by unfold_locales (rule load_inv_may)

lemma obeys_current_request: "obeys (holding g) gen_may {#g#} (load_request g p q) {#g#}"
  unfolding load_request_def
  by (auto simp: gen_may_def page_view_def holding_def intro!: obeys_intro obeys_modify)

lemma obeys_current_load: "obeys (holding g) gen_may {#g#} (load_rest g p q) {#}"
  unfolding load_rest_def
  by (rule obeys_finallyDo [where Q = "{#g#}"])
   (auto simp: gen_may_def page_view_def holding_def intro!: obeys_intro obeys_modify obeys_current_request)

text \<open>A program that never waits for others leaves none detached.\<close>

lemma start_alone:
  assumes "obeys (holding g) may G m Q" and "start m s = (s', m', ds)"
  shows "ds = []"
  using assms
proof (induction arbitrary: s rule: obeys.induct)
  case (obeys_Act G f Q)
  then show ?case
    by (cases "f s") (metis id_apply map_prod_simp old.prod.case start.simps(4) snd_conv)
qed (auto simp: holding_def)

lemma deliver_alone:
  "obeys (holding g) may G m Q \<Longrightarrow> deliver m i r s = Some (s', m', ds) \<Longrightarrow> ds = []"
  by (cases m) (auto simp: holding_def split: if_splits elim!: obeys_AwaitE obeys_AllE dest: start_alone)

definition load_at :: "nat \<Rightarrow> ('z authorize_page_scheme, query, answer, js_error, unit) config \<Rightarrow> bool" where
  "load_at j c \<longleftrightarrow> j < length (snd c) \<and>
     (\<exists>G. obeys (holding (azp_requestGeneration (fst c))) gen_may G (snd c ! j) {#} \<and>
        load_inv (azp_requestGeneration (fst c)) (fst c) G) \<and>
     (\<forall>k < length (snd c). k \<noteq> j \<longrightarrow>
        (\<exists>G. obeys anywhere gen_may G (snd c ! k) {#} \<and> azp_requestGeneration (fst c) \<notin># G))"

lemma frozen_started:
  assumes "frozen.kept (azp_requestGeneration s) (page_view s) {#} {#} (s', m', ds)"
  shows "page_view s' = page_view s \<and> azp_requestGeneration s' = azp_requestGeneration s \<and>
    (\<forall>d \<in> set (m' # ds). \<exists>G. obeys anywhere gen_may G d {#} \<and> azp_requestGeneration s \<notin># G)"
proof -
  from assms obtain G Gs where g: "obeys anywhere gen_may G m' {#}" "frozen.owns Gs ds"
    "frozen_inv (azp_requestGeneration s) (page_view s) s' (G + sum_list Gs)"
    by (auto simp: frozen.kept_def)
  have "\<exists>G. obeys anywhere gen_may G d {#} \<and> azp_requestGeneration s \<notin># G" if d: "d \<in> set ds" for d
  proof -
    from d obtain k where k: "k < length ds" "d = ds ! k"
      by (auto simp: in_set_conv_nth)
    with g(2) have "k < length Gs" "obeys anywhere gen_may (Gs ! k) d {#}"
      by (auto simp: frozen.owns_def list_all2_conv_all_nth)
    moreover from this(1) g(3) have "azp_requestGeneration s \<notin># Gs ! k"
      by (intro not_in_nth) (auto simp: frozen_inv_def)
    ultimately show ?thesis by blast
  qed
  with g show ?thesis
    by (auto simp: frozen_inv_def)
qed

lemma frozen_deliver:
  assumes "obeys anywhere gen_may G m {#}" and "azp_requestGeneration s \<notin># G"
    and "deliver m i r s = Some (s', m', ds)"
  shows "page_view s' = page_view s \<and> azp_requestGeneration s' = azp_requestGeneration s \<and>
    (\<forall>d \<in> set (m' # ds). \<exists>G. obeys anywhere gen_may G d {#} \<and> azp_requestGeneration s \<notin># G)"
proof (rule frozen_started)
  have "frozen_inv (azp_requestGeneration s) (page_view s) s (G + {#})"
    using assms(2) by (simp add: frozen_inv_def)
  from frozen.deliver_kept [OF assms(1) this assms(3)]
  show "frozen.kept (azp_requestGeneration s) (page_view s) {#} {#} (s', m', ds)" .
qed

lemma frozen_start:
  assumes "obeys anywhere gen_may {#} m {#}" and "start m s = (s', m', ds)"
  shows "page_view s' = page_view s \<and> azp_requestGeneration s' = azp_requestGeneration s \<and>
    (\<forall>d \<in> set (m' # ds). \<exists>G. obeys anywhere gen_may G d {#} \<and> azp_requestGeneration s \<notin># G)"
proof (rule frozen_started)
  have "frozen_inv (azp_requestGeneration s) (page_view s) s ({#} + {#})"
    by (simp add: frozen_inv_def)
  from frozen.start_kept [OF assms(1) this]
  show "frozen.kept (azp_requestGeneration s) (page_view s) {#} {#} (s', m', ds)"
    by (simp add: assms(2))
qed

lemma load_at_answer:
  assumes "load_at j c"
  shows "load_at j (answer i r c)"
proof (cases rule: answer_at [of i r c])
  case 1
  with assms show ?thesis by simp
next
  case (2 k i' s' c' ds)
  let ?g = "azp_requestGeneration (fst c)"
  from assms obtain G where j: "j < length (snd c)" "obeys (holding ?g) gen_may G (snd c ! j) {#}"
    "load_inv ?g (fst c) G"
    and others: "\<And>k. k < length (snd c) \<Longrightarrow> k \<noteq> j \<Longrightarrow>
      \<exists>G. obeys anywhere gen_may G (snd c ! k) {#} \<and> ?g \<notin># G"
    unfolding load_at_def by blast
  show ?thesis
  proof (cases "k = j")
    case True
    with 2(2) have ds: "ds = []"
      using deliver_alone [OF j(2)] by simp
    from j(3) have "load_inv ?g (fst c) (G + {#})" by simp
    from current.deliver_kept [OF j(2) this 2(2) [unfolded True ds]] obtain G'
      where "obeys (holding ?g) gen_may G' c' {#}" "load_inv ?g s' G'"
      by (auto simp: current.kept_def current.owns_def)
    with 2 ds True j(1) others show ?thesis
      by (auto simp: load_at_def load_inv_def)
  next
    case False
    with others [OF 2(1)] obtain H where "obeys anywhere gen_may H (snd c ! k) {#}" "?g \<notin># H"
      by blast
    from frozen_deliver [OF this 2(2)] have
      v: "page_view s' = page_view (fst c)" "azp_requestGeneration s' = ?g" and
      d: "\<And>d. d \<in> set (c' # ds) \<Longrightarrow> \<exists>G. obeys anywhere gen_may G d {#} \<and> ?g \<notin># G"
      by blast+
    from v j(3) have "load_inv ?g s' G"
      by (simp add: load_inv_def page_view_def)
    moreover have "\<exists>G. obeys anywhere gen_may G (((snd c)[k := c'] @ ds) ! l) {#} \<and> ?g \<notin># G"
      if "l < length ((snd c)[k := c'] @ ds)" "l \<noteq> j" for l
      using that d others by (cases "l < length (snd c)"; cases "l = k") (auto simp: nth_append)
    ultimately show ?thesis
      using 2(3) j False v(2) by (auto simp: load_at_def nth_append)
  qed
qed

text \<open>A call that begins no load keeps the newest one; one that does becomes it.\<close>

lemma other_calls_obey:
  assumes "authorize_calls s m" and "\<not> load_calls m"
  shows "obeys anywhere gen_may {#} m {#}"
  using assms
proof cases
  case (3 path search)
  with assms(2) have "path \<noteq> lit ''/authorize''"
    by (auto intro: load_calls.intros)
  then show ?thesis
    by (auto simp: 3 route_changed_def gen_may_def page_view_def intro!: obeys_seqThen obeys_modify obeys_Ret)
qed (auto simp: obeys_others intro: load_calls.intros)

lemma load_at_other:
  assumes "load_at j c" and "obeys anywhere gen_may {#} m {#}"
  shows "load_at j (call m c)"
proof -
  let ?g = "azp_requestGeneration (fst c)"
  obtain s' m' ds where st: "start m (fst c) = (s', m', ds)"
    by (cases "start m (fst c)")
  then have c': "call m c = (s', snd c @ m' # ds)"
    by (auto simp: call_def split: prod.splits)
  from frozen_start [OF assms(2) st] have
    v: "page_view s' = page_view (fst c)" "azp_requestGeneration s' = ?g" and
    d: "\<And>d. d \<in> set (m' # ds) \<Longrightarrow> \<exists>G. obeys anywhere gen_may G d {#} \<and> ?g \<notin># G"
    by blast+
  have "\<exists>G. obeys anywhere gen_may G ((snd c @ m' # ds) ! l) {#} \<and> ?g \<notin># G"
    if "l < length (snd c @ m' # ds)" "l \<noteq> j" for l
  proof (cases "l < length (snd c)")
    case True
    with assms(1) that show ?thesis
      by (auto simp: load_at_def nth_append)
  next
    case False
    with that have "(snd c @ m' # ds) ! l \<in> set (m' # ds)"
      by (simp only: nth_append if_False) (rule nth_mem, simp)
    then show ?thesis by (rule d)
  qed
  moreover from assms(1) obtain G where "j < length (snd c)"
    "obeys (holding ?g) gen_may G (snd c ! j) {#}" "load_inv ?g (fst c) G"
    unfolding load_at_def by blast
  ultimately show ?thesis
    using v unfolding load_at_def c' by (auto simp: nth_append load_inv_def page_view_def)
qed

lemma load_calls_start:
  assumes "load_calls m"
  obtains s1 p q where "start m s = start (load_rest (azp_requestGeneration s + 1) p q) (begin_load s1)"
    "azp_requestGeneration s1 = azp_requestGeneration s"
  using assms
proof cases
  case 1
  then show ?thesis
    using that [of "contextPath s" "page_authorizationPath s" s] by (simp add: loadAuthorizationContext_def)
next
  case (2 search)
  let ?s = "s\<lparr>azp_path := lit ''/authorize'', azp_search := search\<rparr>"
  have "start m s = start (load_rest (azp_requestGeneration s + 1) (contextPath ?s) (page_authorizationPath ?s))
      (begin_load ?s)"
    by (simp add: 2 route_changed_def seqThen_modify loadAuthorizationContext_def)
  then show ?thesis
    by (rule that) simp
qed

lemma load_at_begin:
  assumes "generations.accounted c" and "load_calls m"
  shows "load_at (length (snd c)) (call m c)"
proof -
  let ?g = "azp_requestGeneration (fst c) + 1"
  from load_calls_start [OF assms(2)] obtain s1 p q where
    st: "start m (fst c) = start (load_rest ?g p q) (begin_load s1)" and
    g: "azp_requestGeneration s1 + 1 = ?g"
    by (metis (full_types))
  obtain s' m' ds where res: "start (load_rest ?g p q) (begin_load s1) = (s', m', ds)"
    by (cases "start (load_rest ?g p q) (begin_load s1)")
  have ds: "ds = []"
    by (rule start_alone [OF obeys_current_load res])
  have "load_inv ?g (begin_load s1) ({#?g#} + {#})"
    using g by (simp add: load_inv_def begin_load_def)
  from current.start_kept [OF obeys_current_load this, of p q] obtain G
    where G: "obeys (holding ?g) gen_may G m' {#}" "load_inv ?g s' G"
    unfolding res ds by (auto simp: current.kept_def current.owns_def)
  from assms(1) obtain Gs where own: "generations.owns Gs (snd c)" and inv: "gen_inv (fst c) (sum_list Gs)"
    by (auto simp: generations.accounted_def)
  have old: "obeys anywhere gen_may (Gs ! k) (snd c ! k) {#} \<and> ?g \<notin># Gs ! k" if "k < length (snd c)" for k
  proof -
    have len: "k < length Gs" "obeys anywhere gen_may (Gs ! k) (snd c ! k) {#}"
      using own that by (auto simp: generations.owns_def list_all2_conv_all_nth)
    have "g \<in># sum_list Gs \<Longrightarrow> g \<le> azp_requestGeneration (fst c)" for g
      using inv unfolding gen_inv_def by blast
    from this [of ?g] have "?g \<notin># sum_list Gs"
      by linarith
    with len show ?thesis
      by (simp add: not_in_nth)
  qed
  have "call m c = (s', snd c @ [m'])"
    using st res ds by (auto simp: call_def split: prod.splits)
  moreover have "azp_requestGeneration s' = ?g"
    using G(2) by (simp add: load_inv_def)
  ultimately show ?thesis
    using G old by (auto simp: load_at_def nth_append less_Suc_eq)
qed

lemma newest_load_at:
  assumes "newest_load s0 c j" and "azp_requestGeneration s0 = 0"
  shows "load_at j c"
  using assms(1)
proof induction
  case (load_begun c m)
  then show ?case
    by (blast intro: load_at_begin authorize_accounted assms(2))
next
  case (other_called c j m)
  then show ?case
    by (blast intro: load_at_other other_calls_obey)
qed (rule load_at_answer)

lemma load_at_loading:
  assumes "load_at j c" and "suspended (snd c ! j)"
  shows "azp_loading (fst c) \<longleftrightarrow> \<not> finished (snd c ! j)"
proof -
  let ?g = "azp_requestGeneration (fst c)"
  from assms(1) obtain G where G: "obeys (holding ?g) gen_may G (snd c ! j) {#}" "load_inv ?g (fst c) G"
    unfolding load_at_def by blast
  from G(1) assms(2) have "finished (snd c ! j) \<longleftrightarrow> ?g \<notin># G"
    by (cases "snd c ! j")
      (auto simp: holding_def elim: obeys_RetE obeys_StopE obeys_ThrE obeys_AwaitE obeys_AllE)
  with G(2) show ?thesis
    by (simp add: load_inv_def)
qed

lemma load_at_stale:
  assumes "load_at j c" and "k < length (snd c)" and "k \<noteq> j"
    and "deliver (snd c ! k) i r (fst c) = Some (s', m', ds)"
  shows "page_view s' = page_view (fst c)"
proof -
  from assms(1-3) obtain G where "obeys anywhere gen_may G (snd c ! k) {#}"
    "azp_requestGeneration (fst c) \<notin># G"
    unfolding load_at_def by blast
  from frozen_deliver [OF this assms(4)] show ?thesis
    by blast
qed

lemma load_at_final:
  assumes "load_at j c" and "finished (snd c ! j)"
  shows "page_view (fst (answer i r c)) = page_view (fst c)"
proof (cases rule: answer_at [of i r c])
  case (2 k i' s' c' ds)
  have "deliver (snd c ! j) i' r (fst c) = None"
    using assms(2) by (cases "snd c ! j") auto
  with 2 have "k \<noteq> j" by auto
  from load_at_stale [OF assms(1) 2(1) this 2(2)] 2(3) show ?thesis by simp
qed simp

interpretation counter: obligations anywhere gen_may "\<lambda>s _. azp_requestGeneration s = g" for g
  by unfold_locales (simp add: gen_may_def)

lemma answer_generation:
  assumes "generations.accounted c"
  shows "azp_requestGeneration (fst (answer i r c)) = azp_requestGeneration (fst c)"
proof (cases rule: answer_at [of i r c])
  case (2 k i' s' c' ds)
  from assms obtain Gs where "generations.owns Gs (snd c)"
    by (auto simp: generations.accounted_def)
  with 2(1) have "obeys anywhere gen_may (Gs ! k) (snd c ! k) {#}"
    by (auto simp: generations.owns_def list_all2_conv_all_nth)
  from counter.deliver_kept [OF this refl 2(2)] 2(3) show ?thesis
    by (simp add: counter.kept_def)
qed simp

lemma newest_load_exists:
  assumes "reachable authorize_calls s0 c" and "azp_requestGeneration s0 = 0"
    and "azp_requestGeneration (fst c) \<noteq> 0"
  shows "\<exists>j. newest_load s0 c j"
  using assms(1,3)
proof induction
  case reach_init
  with assms(2) show ?case by simp
next
  case (reach_call c m)
  show ?case
  proof (cases "load_calls m")
    case True
    with reach_call.hyps show ?thesis by (blast intro: load_begun)
  next
    case False
    obtain s' m' ds where st: "start m (fst c) = (s', m', ds)"
      by (cases "start m (fst c)")
    from frozen_start [OF other_calls_obey [OF reach_call.hyps(2) False] st]
    have "azp_requestGeneration (fst (call m c)) = azp_requestGeneration (fst c)"
      using st by (auto simp: call_def split: prod.splits)
    with reach_call False show ?thesis by (auto intro: other_called)
  qed
next
  case (reach_answer c i r)
  then show ?case
    using answer_generation [OF authorize_accounted [OF reach_answer.hyps assms(2)]] some_answered by metis
qed

section \<open>Properties\<close>

text \<open>
  C2: only the newest load of the authorization context determines what the consent page shows,
  whatever loads, route changes, account switches and exits overlap. Once a load has begun there is a
  newest one, at a fixed place among the running calls. The page is loading exactly until that load
  has finished. An answer to any other call, in particular to a load that the newest has
  superseded, leaves the loading state, the error message and the context as they are, before and
  after the newest load has finished; and when it has finished, no answer at all changes them.
\<close>

theorem stale_answers_ignored:
  assumes "reachable authorize_calls s0 c" and "azp_requestGeneration s0 = 0"
  shows "(azp_requestGeneration (fst c) \<noteq> 0 \<longrightarrow> (\<exists>j. newest_load s0 c j)) \<and>
    (\<forall>j. newest_load s0 c j \<longrightarrow>
      j < length (snd c) \<and> (azp_loading (fst c) \<longleftrightarrow> \<not> finished (snd c ! j)) \<and>
      (\<forall>k < length (snd c). k \<noteq> j \<longrightarrow> (\<forall>i r s' m' ds.
        deliver (snd c ! k) i r (fst c) = Some (s', m', ds) \<longrightarrow>
          azp_loading s' = azp_loading (fst c) \<and> azp_errorMessage s' = azp_errorMessage (fst c) \<and>
          azp_context s' = azp_context (fst c))) \<and>
      (finished (snd c ! j) \<longrightarrow> (\<forall>i r. page_view (fst (answer i r c)) = page_view (fst c))))"
proof (intro conjI impI allI)
  assume "azp_requestGeneration (fst c) \<noteq> 0"
  then show "\<exists>j. newest_load s0 c j"
    by (rule newest_load_exists [OF assms])
next
  fix j assume "newest_load s0 c j"
  then have at: "load_at j c"
    using assms(2) by (rule newest_load_at)
  then show "j < length (snd c)"
    by (simp add: load_at_def)
  then have "suspended (snd c ! j)"
    using reachable_suspended [OF assms(1)] by (simp add: list_all_length)
  with at show "azp_loading (fst c) \<longleftrightarrow> \<not> finished (snd c ! j)"
    by (rule load_at_loading)
  fix i r
  {
    assume "finished (snd c ! j)"
    with at show "page_view (fst (answer i r c)) = page_view (fst c)"
      by (rule load_at_final)
  next
    fix k s' m' ds
    assume "k < length (snd c)" "k \<noteq> j" "deliver (snd c ! k) i r (fst c) = Some (s', m', ds)"
    from load_at_stale [OF at this] show "azp_loading s' = azp_loading (fst c)"
      "azp_errorMessage s' = azp_errorMessage (fst c)" "azp_context s' = azp_context (fst c)"
      by (simp_all add: page_view_def)
  }
qed

definition authorize_page0 :: authorize_page where
  "authorize_page0 = user_api.extend user_api0
     (authorize_page.fields None True False None 0 (lit ''?client_id=c'') (lit ''/authorize'') [])"

lemmas authorize_page0_simps =
  authorize_page0_def authorize_page.defs user_api.defs user_api0_def

theorem stale_answers_ignored_witness:
  "let c = answer 1 (Rejected NonError)
       (call loadAuthorizationContext (call loadAuthorizationContext (authorize_page0, []))) in
     page_view (fst (answer 0 (Responded \<lparr>rs_status = 200, rs_statusText = []\<rparr>) c)) =
       (False, Some M_auth_unreachable, None)"
proof -
  let ?b = "call loadAuthorizationContext (authorize_page0, [])"
  let ?c = "answer 1 (Rejected NonError) (call loadAuthorizationContext ?b)"
  have b: "reachable authorize_calls authorize_page0 ?b"
    by (intro reachable.intros authorize_calls.intros)
  then have "reachable authorize_calls authorize_page0 ?c"
    by (intro reachable.intros authorize_calls.intros)
  moreover have "newest_load authorize_page0 ?c (length (snd ?b))"
    by (intro some_answered load_begun b authorize_calls.intros load_calls.intros)
  moreover have "azp_requestGeneration authorize_page0 = 0"
    by (simp add: authorize_page0_simps)
  moreover have "length (snd ?b) = 1" "finished (snd ?c ! 1)"
    "page_view (fst ?c) = (False, Some M_auth_unreachable, None)"
    by (simp_all add: js_eval exec_defs authorize_page0_simps page_view_def)
  ultimately show ?thesis
    using stale_answers_ignored [of authorize_page0 ?c] unfolding Let_def by metis
qed



lemma loadAuthorizationContext_ensures:
  "ensures loadAuthorizationContext (\<lambda>_ s' r. azp_requestGeneration s' = azp_requestGeneration s + 1 \<and>
     \<not> azp_loading s' \<and> r = Inr () \<and> (azp_context s' = None \<or> azp_errorMessage s' = None)) 2 s"
  by (auto simp: loadAuthorizationContext_def load_rest_def load_request_def begin_load_def
      split: option.splits)

lemma consent_form_fields:
  "read_authorization (consent_form c d) = Some (ac_authorization c) \<and>
   field_value (consent_form c d) ''csrf_token'' = Some (ac_csrf_token c) \<and>
   field_value (consent_form c d) ''decision'' = Some d \<and>
   distinct (map ff_name (consent_form c d))"
  by (cases "oa_response_mode (ac_authorization c)"; cases "oa_prompt (ac_authorization c)")
    (simp_all add: consent_form_def read_authorization_def authorizationFormFields_def field_value_def)

lemma claim_rows_read_back:
  "list_all2 (\<lambda>(name, v) (name', t). name' = name \<and>
     (case v of JStr x \<Rightarrow> t = x | _ \<Rightarrow> read_json t = Some v)) (claimEntries s) (claim_rows s)"
  by (auto simp: claim_rows_def claimValue_def list_all2_map2 read_stringify list.rel_refl_strong
      split: json.splits simp del: json_stringify.simps intro!: list.rel_refl_strong)

text \<open>
  C31: the consent page shows and posts what the request says. It lists exactly the claims of the
  authorization context, in their order; a claim that is a string is shown as it is, and the text
  of any other claim (numbers, flags, lists and nested objects, with whatever characters) is one
  that reads back to the claim. The posted form, read back by field name, gives exactly the
  authorization request together with its CSRF token and the decision; no field occurs twice.
\<close>

theorem consent_faithful:
  "list_all2 (\<lambda>(name, v) (name', t). name' = name \<and>
       (case v of JStr x \<Rightarrow> t = x | _ \<Rightarrow> read_json t = Some v)) (claimEntries s) (claim_rows s) \<and>
   (case consent_view_of s of
      View_consent c \<Rightarrow> claimEntries s = ac_claims c \<and>
        read_authorization (consent_form c d) = Some (ac_authorization c) \<and>
        field_value (consent_form c d) ''csrf_token'' = Some (ac_csrf_token c) \<and>
        field_value (consent_form c d) ''decision'' = Some d \<and>
        distinct (map ff_name (consent_form c d))
    | _ \<Rightarrow> True)"
  by (rule conjI [OF claim_rows_read_back])
    (simp add: consent_view_of_def claimEntries_def consent_form_fields split: option.splits)

end
