(* ===== verification/Admin_Shell.thy ===== *)
theory Admin_Shell
  imports Admin_Api User_Pages
begin

text \<open>
  The shell around every administration page, \<open>portal/web/app/components/admin/AdminShell.vue\<close>:
  entering and leaving the console and the navigation bar. The pages extend its record. A label is
  the sequence of code units of its text. \<open>shell_calls\<close> are the events of its template.
\<close>

section \<open>State\<close>

record admin_shell = admin_api +
  shl_credentialDraft :: jsstr
  shl_path :: jsstr

record navigation_item =
  nav_to :: jsstr
  nav_label :: jsstr
  nav_icon :: jsstr

definition navigationItems :: "navigation_item list" where
  "navigationItems =
     [\<lparr>nav_to = lit ''/admin/directory'', nav_label = [0x76EE, 0x5F55], nav_icon = lit ''ph:folders''\<rparr>,
      \<lparr>nav_to = lit ''/admin/domains'', nav_label = [0x57DF], nav_icon = lit ''ph:buildings''\<rparr>,
      \<lparr>nav_to = lit ''/admin/clients'', nav_label = [0x5E94, 0x7528, 0x63A5, 0x5165],
       nav_icon = lit ''ph:key''\<rparr>]"

text \<open>No page passes the \<open>busy\<close> property, so only pending requests count.\<close>

definition shellBusy :: "bool \<Rightarrow> 'z admin_shell_scheme \<Rightarrow> bool" where
  "shellBusy busy s \<longleftrightarrow> busy \<or> 0 < adm_pending s"

definition trimmedPath :: "jsstr \<Rightarrow> jsstr" where
  "trimmedPath path = (let p = strip_trailing_slashes path in if p \<noteq> [] then p else [slash])"

definition isActive :: "jsstr \<Rightarrow> jsstr \<Rightarrow> bool" where
  "isActive route to =
     (let current = trimmedPath route; target = trimmedPath to in
      current = target \<or> startsWith current (target @ [slash]))"

record navigation_bar_item =
  bar_label :: jsstr
  bar_icon :: jsstr
  bar_active :: bool
  bar_disabled :: bool

definition navigationBarItems :: "'z admin_shell_scheme \<Rightarrow> navigation_bar_item list" where
  "navigationBarItems s = map (\<lambda>item.
     \<lparr>bar_label = nav_label item, bar_icon = nav_icon item, bar_active = isActive (shl_path s) (nav_to item),
      bar_disabled = shellBusy False s\<rparr>) navigationItems"

section \<open>Handlers\<close>

definition onNavigationClick :: "jsstr \<Rightarrow> ('z admin_shell_scheme, unit) prog" where
  "onNavigationClick label = reading (\<lambda>s.
     case find (\<lambda>navigation. nav_label navigation = label) navigationItems of
       None \<Rightarrow> Ret ()
     | Some target \<Rightarrow> if shellBusy False s then Ret () else navigateTo (nav_to target) [])"

definition shell_onMounted :: "('z admin_shell_scheme, unit) prog" where
  "shell_onMounted = void restoreSession"

definition submitCredential :: "('z admin_shell_scheme, unit) prog" where
  "submitCredential = reading (\<lambda>s.
     let token = trim (shl_credentialDraft s) in
     if token = [] then Ret ()
     else andThen (authenticateToken token True) (\<lambda>ok.
       if ok then modify (\<lambda>s. s\<lparr>shl_credentialDraft := []\<rparr>) else Ret ()))"

definition exitManagement :: "('z admin_shell_scheme, unit) prog" where
  "exitManagement = andThen admin_logout (\<lambda>ok.
     if ok then modify (\<lambda>s. s\<lparr>shl_credentialDraft := []\<rparr>) else Ret ())"

inductive shell_calls :: "'z admin_shell_scheme \<Rightarrow> ('z admin_shell_scheme, unit) prog \<Rightarrow> bool" where
  "shell_calls s shell_onMounted"
| "\<not> admin_tokenReady s \<Longrightarrow> shell_calls s (modify (\<lambda>s. s\<lparr>shl_credentialDraft := d\<rparr>))"
| "\<not> admin_tokenReady s \<Longrightarrow> trim (shl_credentialDraft s) \<noteq> [] \<Longrightarrow> \<not> shellBusy False s \<Longrightarrow>
    shell_calls s submitCredential"
| "admin_tokenReady s \<Longrightarrow> shell_calls s (onNavigationClick label)"
| "admin_tokenReady s \<Longrightarrow> \<not> shellBusy False s \<Longrightarrow> shell_calls s exitManagement"

lemmas shell_defs [js_eval] =
  onNavigationClick_def shell_onMounted_def submitCredential_def exitManagement_def

section \<open>Obligations\<close>

text \<open>
  The contract of a page of the console: all that it can set off counts its requests, resets the
  loading flags that it sets and keeps the session consistent. Then, from a state at rest, the
  guarantees of the session hold on the page under every interleaving.
\<close>

definition admin_rested :: "'z admin_api_scheme \<Rightarrow> bool" where
  "admin_rested s \<longleftrightarrow> adm_pending s = 0 \<and> (\<forall>f. \<not> load_flag_set f s) \<and> session_wf s"

definition requests_counted :: "('z admin_api_scheme, query, answer, js_error, unit) config \<Rightarrow> bool" where
  "requests_counted c \<longleftrightarrow>
     int (sum_list (map fetch_weight (pool_waits c))) \<le> adm_pending (fst c) \<and>
     adm_pending (fst c) \<le> int (sum_list (map tracked_weight (pool_waits c)))"

lemma finished_waits: "finished m \<Longrightarrow> waits m = []"
  by (cases m) simp_all

lemma idle_pool_waits: "idle c \<Longrightarrow> pool_waits c = []"
  by (auto simp: idle_def pool_waits_def list_all_iff intro: finished_waits)

definition page_sound :: "('z admin_api_scheme, query, answer, js_error, unit) config \<Rightarrow> bool" where
  "page_sound c \<longleftrightarrow> requests_counted c \<and>
     (admin_tokenReady (fst c) \<longleftrightarrow> adm_csrfToken (fst c) \<noteq> []) \<and> (idle c \<longrightarrow> admin_rested (fst c))"

locale admin_page =
  fixes may_call :: "'z admin_api_scheme \<Rightarrow> ('z admin_api_scheme, unit) prog \<Rightarrow> bool"
  assumes page_counts: "may_call s m \<Longrightarrow> obeys admin_ok admin_may {#} m {#}"
    and page_loads: "may_call s m \<Longrightarrow> loads_of {#} m"
    and page_keeps: "may_call s m \<Longrightarrow> wf_kept m"
begin

sublocale loads: flagged load_flag_set may_call
  by unfold_locales (rule page_loads)

sublocale session: state_invariant session_wf may_call
  by unfold_locales (rule page_keeps)

lemma page_counted:
  assumes "reachable may_call s0 c" and "admin_rested s0"
  shows "requests_counted c"
proof -
  have "admin_pending_inv s0 {#}"
    using assms(2) by (simp add: admin_pending_inv_def admin_rested_def)
  from admin_requests.reachable_bounded [OF assms(1) this page_counts] show ?thesis
    by (force simp: admin_pending_inv_def requests_counted_def)
qed

lemma page_session:
  assumes "reachable may_call s0 c" and "admin_rested s0"
  shows "admin_tokenReady (fst c) \<longleftrightarrow> adm_csrfToken (fst c) \<noteq> []"
  using session.reachable_invariant [OF assms(1)] assms(2)
  by (auto simp: session_wf_def admin_tokenReady_def admin_rested_def)

lemma page_rests:
  assumes "reachable may_call s0 c" and "admin_rested s0" and "idle c"
  shows "admin_rested (fst c)"
proof -
  have "\<not> load_flag_set f (fst c)" for f
    by (rule loads.idle_flags [OF assms(1) _ assms(3)]) (use assms(2) in \<open>simp add: admin_rested_def\<close>)
  moreover have "session_wf (fst c)"
    using session.reachable_invariant [OF assms(1)] assms(2) by (simp add: admin_rested_def)
  ultimately show ?thesis
    using page_counted [OF assms(1,2)] idle_pool_waits [OF assms(3)]
    by (simp add: admin_rested_def requests_counted_def)
qed

lemma page_is_sound: "reachable may_call s0 c \<Longrightarrow> admin_rested s0 \<Longrightarrow> page_sound c"
  by (simp add: page_sound_def page_counted page_session page_rests)

end

text \<open>Guarded and unguarded flags of a page, which the session does not know.\<close>

lemma admin_obeys_exclusively [obeys_intro]:
  "obeys admin_ok admin_may G m G \<Longrightarrow> (\<And>b s. adm_pending (up b s) = adm_pending s) \<Longrightarrow>
    obeys admin_ok admin_may G (exclusively blocked up m) G"
  by (rule obeys_exclusively_same) (simp_all add: admin_may_def)

lemma loads_exclusively [obeys_intro]:
  "loads_of G m \<Longrightarrow> (\<And>f b s. load_flag_set f (up b s) = load_flag_set f s) \<Longrightarrow>
    loads_of G (exclusively blocked up m)"
  by (rule obeys_exclusively_same) (auto simp: flag_may_def)

lemma wf_exclusively [obeys_intro]:
  "wf_kept m \<Longrightarrow> (\<And>b s. session_wf (up b s) = session_wf s) \<Longrightarrow> wf_kept (exclusively blocked up m)"
  by (rule obeys_exclusively_same) (auto simp: keeps_def)

lemma loads_withFlag_other [obeys_intro]:
  "loads_of G m \<Longrightarrow> (\<And>f b s. load_flag_set f (up b s) = load_flag_set f s) \<Longrightarrow> loads_of G (withFlag up m)"
  unfolding withFlag_def by (auto intro!: obeys_intro)

text \<open>The requests that change data on the server.\<close>

definition data_change :: "request \<Rightarrow> bool" where
  "data_change rq \<longleftrightarrow> rq_method rq \<noteq> GET \<and> rq_path rq \<noteq> session_path"

fun change_query :: "query \<Rightarrow> bool" where
  "change_query (Fetch rq) = data_change rq"
| "change_query _ = False"

lemma shell_calls_obey: "shell_calls s m \<Longrightarrow> obeys admin_ok admin_may {#} m {#}"
  by (induction rule: shell_calls.induct)
    (auto simp: shell_defs Let_def intro!: obeys_intro split: option.splits)

lemma load_flag_draft [simp]: "load_flag_set f (s\<lparr>shl_credentialDraft := d\<rparr>) = load_flag_set f s"
  by (cases f) simp_all

lemma session_wf_draft [simp]: "session_wf (s\<lparr>shl_credentialDraft := d\<rparr>) = session_wf s"
  by (simp add: session_wf_def)

lemma shell_calls_keep: "shell_calls s m \<Longrightarrow> wf_kept m"
  by (induction rule: shell_calls.induct)
    (auto simp: shell_defs Let_def intro!: obeys_intro split: option.splits)

lemma shell_calls_loads: "shell_calls s m \<Longrightarrow> loads_of {#} m"
  by (induction rule: shell_calls.induct)
    (auto simp: shell_defs Let_def intro!: obeys_intro split: option.splits)

interpretation session_calls: admin_page admin_calls
  by unfold_locales (fact admin_calls_obey admin_calls_loads admin_calls_keep)+

interpretation shell_page: admin_page shell_calls
  by unfold_locales (fact shell_calls_obey shell_calls_loads shell_calls_keep)+

text \<open>What a page promises about its own fields survives the handlers of the shell.\<close>

locale shell_frame = admin_frame ok may J critical
  for ok :: "query option \<Rightarrow> 't multiset \<Rightarrow> bool"
    and may :: "'z admin_shell_scheme \<Rightarrow> 't multiset \<Rightarrow> 'z admin_shell_scheme \<Rightarrow> 't multiset \<Rightarrow> bool"
    and J :: "'z admin_shell_scheme \<Rightarrow> 'j" and critical :: "request \<Rightarrow> bool" +
  assumes ok_navigate: "ok (Some (NavigateTo p q)) G"
    and blind_draft: "J (s\<lparr>shl_credentialDraft := d\<rparr>) = J s"
begin

lemma frame_shell: "shell_calls s m \<Longrightarrow> obeys ok may {#} m {#}"
  by (induction rule: shell_calls.induct)
    (auto simp: shell_defs Let_def blind_draft
      intro!: obeys_intro frame_rules frame_sessions ok_navigate split: option.splits)

end

section \<open>One sign-in at a time\<close>

text \<open>The request that hands in the credential.\<close>

fun credential_query :: "query \<Rightarrow> bool" where
  "credential_query (Fetch rq) = (rq_path rq = session_path \<and> rq_method rq = POST)"
| "credential_query _ = False"

abbreviation enters_not :: "('z admin_api_scheme, 'a) prog \<Rightarrow> bool" where
  "enters_not m \<equiv> entry_obeys adm_pending credential_query {#} m {#}"

lemma enters_not_track:
  "entry_obeys adm_pending credential_query {#False#} m {#False#} \<Longrightarrow> enters_not (admin_trackRequest m)"
  unfolding admin_trackRequest_def by (rule entry_counted) simp_all

lemma enters_not_fetch:
  "path \<noteq> session_path \<Longrightarrow> enters_not (adminFetch path init)"
  unfolding adminFetch_def Let_def by (auto intro!: obeys_intro enters_not_track)

lemma enters_not_loads [obeys_intro]:
  "enters_not loadDomains" "enters_not loadOus" "enters_not loadUsers"
  "enters_not loadGroups" "enters_not loadSyncDomains" "enters_not loadOAuthClients"
  unfolding loadDomains_def loadOus_def loadUsers_def loadGroups_def loadSyncDomains_def loadOAuthClients_def
  by (auto simp: session_path_def lit_def intro!: obeys_intro enters_not_fetch)

lemma enters_not_loadAll [obeys_intro]: "enters_not loadDirectory" "enters_not loadAll"
  unfolding loadAll_def loadDirectory_def by (auto intro!: obeys_intro)

lemma enters_not_sessions [obeys_intro]:
  "enters_not enter_session" "enters_not restoreSession" "enters_not admin_logout"
  unfolding enter_session_def restoreSession_def admin_logout_def
  by (auto intro!: obeys_intro entry_finallyDo enters_not_track)

lemma enters_not_runAction [obeys_intro]: "enters_not m \<Longrightarrow> enters_not (runAction m msg)"
  unfolding runAction_def by (auto intro!: obeys_intro split: option.splits)

lemma enters_not_clients [obeys_intro]:
  "enters_not (createOAuthClient r)" "enters_not (updateOAuthClient i u)"
  "enters_not (deleteOAuthClient i)" "enters_not (regenerateOAuthClientSecret i)"
  unfolding createOAuthClient_def updateOAuthClient_def deleteOAuthClient_def regenerateOAuthClientSecret_def
  by (auto simp: session_path_def lit_def client_path_def intro!: obeys_intro enters_not_fetch)

lemma enters_not_exclusively [obeys_intro]:
  "enters_not m \<Longrightarrow> (\<And>b s. adm_pending (up b s) = adm_pending s) \<Longrightarrow>
    enters_not (exclusively blocked up m)"
  by (rule obeys_exclusively_same) (simp_all add: entry_may_def)

lemma authenticateToken_enters:
  assumes "trim tok \<noteq> []" and "\<And>b. enters_not (l b)"
  shows "\<exists>m. start (andThen (authenticateToken tok b) l) s = start m (s\<lparr>adm_pending := adm_pending s + 1\<rparr>) \<and>
    entry_obeys adm_pending credential_query {#True#} m {#}"
  using assms unfolding authenticateToken_def admin_trackRequest_def
  by (auto simp: start_catching_modify Let_def
      intro!: exI obeys_andThen obeys_catching entry_release obeys_intro)

lemma shell_calls_enter: "shell_calls s m \<Longrightarrow> may_enter adm_pending credential_query s m"
proof (induction rule: shell_calls.induct)
  case (3 s)
  then have "\<exists>m. start submitCredential s = start m (s\<lparr>adm_pending := adm_pending s + 1\<rparr>) \<and>
      entry_obeys adm_pending credential_query {#True#} m {#}"
    unfolding submitCredential_def start_reading Let_def
    by (auto intro!: authenticateToken_enters obeys_intro)
  with 3 show ?case
    by (auto simp: shellBusy_def intro!: enters_first)
qed (auto simp: shell_onMounted_def onNavigationClick_def exitManagement_def
    intro!: enters_never obeys_intro split: option.splits)

interpretation shell_entry: single_entry adm_pending credential_query shell_calls
  by unfold_locales (rule shell_calls_enter)

section \<open>Navigation\<close>

lemma trimmedPath_slashes [simp]: "trimmedPath (p @ replicate n slash) = trimmedPath p"
  by (simp add: trimmedPath_def strip_trailing_slashes_def strip_end_stripped)

text \<open>A route agrees with the target of an active entry, so two active entries agree with each other.\<close>

lemma isActive_nth:
  "isActive route to \<Longrightarrow> k < length (trimmedPath to) \<Longrightarrow> trimmedPath route ! k = trimmedPath to ! k"
  by (auto simp: isActive_def Let_def startsWith_iff nth_append)

lemma navigation_targets:
  "map (\<lambda>i. trimmedPath (nav_to i)) navigationItems = map nav_to navigationItems"
  by (simp add: navigationItems_def trimmedPath_def strip_trailing_slashes_def strip_end_def lit_def
      slash_def)

lemma active_ninth:
  assumes "item \<in> set navigationItems" and "isActive route (nav_to item)"
  shows "trimmedPath route ! 8 = nav_to item ! 8"
proof -
  from assms(1) navigation_targets have "trimmedPath (nav_to item) = nav_to item"
    by (metis map_eq_conv)
  with assms isActive_nth [OF assms(2), of 8] show ?thesis
    by (auto simp: navigationItems_def lit_def)
qed

lemma navigation_ninths: "distinct (map (\<lambda>item. nav_to item ! 8) navigationItems)"
  by (simp add: navigationItems_def lit_def)

text \<open>
  C34: for every route at most one entry of the navigation bar is marked as active, and slashes at
  the end of the route make no difference.
\<close>

theorem navigation_unambiguous:
  "length (filter bar_active (navigationBarItems s)) \<le> 1 \<and>
   navigationBarItems (s\<lparr>shl_path := shl_path s @ replicate n slash\<rparr>) = navigationBarItems s"
proof
  have "length (filter (\<lambda>item. isActive (shl_path s) (nav_to item)) navigationItems) \<le> 1"
    by (rule filter_at_most_one [OF navigation_ninths]) (rule active_ninth [symmetric])
  then show "length (filter bar_active (navigationBarItems s)) \<le> 1"
    by (simp add: navigationBarItems_def filter_map comp_def)
  show "navigationBarItems (s\<lparr>shl_path := shl_path s @ replicate n slash\<rparr>) = navigationBarItems s"
    by (simp add: navigationBarItems_def isActive_def shellBusy_def)
qed

lemma exitManagement_ensures:
  "ensures exitManagement (\<lambda>_ s' r. r = Inr () \<and> shl_credentialDraft s' = [] \<and> adm_pending s' = adm_pending s \<and>
     (if adm_authenticated s
      then admin_cleared s' \<and> adm_toasts s' = adm_toasts s @ [Success M_admin_exited]
      else s' = s\<lparr>shl_credentialDraft := []\<rparr>)) 1 s"
  unfolding exitManagement_def ensures_andThen
  by (rule ensures_mono [OF admin_logout_ensures]) (auto simp: admin_cleared_def)

text \<open>
  C28: how a credential fails and how a session of the console ends. A credential that is empty sends
  nothing and only shows an error message: the session stays as it was. One that is refused or not
  answered takes exactly one request and clears the session and all data, with one error message;
  the result is false in both cases. Leaving the console clears session, data and typed credential
  whatever the server answers, and reports success; without a session it only empties the
  credential.
\<close>

theorem sessions_end_cleared:
  assumes "\<And>ok. r = Responded ok \<Longrightarrow> \<not> response_ok ok" and "1 \<le> length rs"
  shows "(\<exists>qs s' m f. run (authenticateToken tok b) [r] s = (qs, s', [m]) \<and>
      outcome m = Some (Inr False) \<and> adm_pending s' = adm_pending s \<and>
      adm_toasts s' = adm_toasts s @ [Failure f] \<and>
      (if trim tok = [] then qs = [] \<and> f = M_admin_enter_credential \<and> s' = admin_notify (Failure f) s
       else length qs = 1 \<and> admin_cleared s')) \<and>
    (\<exists>qs s' m x. run exitManagement rs t = (qs, s', [m]) \<and> outcome m = Some x \<and> x = Inr () \<and>
      shl_credentialDraft s' = [] \<and> adm_pending s' = adm_pending t \<and>
      (if adm_authenticated t
       then admin_cleared s' \<and> adm_toasts s' = adm_toasts t @ [Success M_admin_exited]
       else s' = t\<lparr>shl_credentialDraft := []\<rparr>))"
  by (rule conjI [OF authenticateToken_refused [OF assms(1)] ensures_outcome [OF exitManagement_ensures assms(2)]])

theorem sessions_end_cleared_witness:
  "\<exists>qs s' m. run (authenticateToken (lit ''k'') True) [Rejected NonError] admin_api0 = (qs, s', [m]) \<and>
     outcome m = Some (Inr False)"
  using sessions_end_cleared [of "Rejected NonError" "[Done]" "lit ''k''" True admin_api0, THEN conjunct1]
  by auto

end
