(* ===== verification/Domains_Page.thy ===== *)
theory Domains_Page
  imports Admin_Shell Editors
begin

text \<open>
  The page of the Active Directory domains, \<open>portal/web/app/pages/admin/domains.vue\<close>, over its
  editor (\<open>Editors\<close>) and its table (\<open>Tables\<close>). \<open>dmp_clipboard\<close> says whether the browser offers a
  clipboard. \<open>domains_calls\<close> are the events of the page; a click on a row of the table opens the
  editor at any time, as the table ignores its \<open>busy\<close> property there.
\<close>

section \<open>State\<close>

record domains_page = admin_shell +
  dmp_selectedDomainId :: "jsstr option"
  dmp_drawerOpen :: bool
  dmp_saving :: bool
  dmp_syncerKey :: "jsstr option"
  dmp_domainForm :: DomainForm
  dmp_clipboard :: bool

definition domains_busy :: "'z domains_page_scheme \<Rightarrow> bool" where
  "domains_busy s \<longleftrightarrow> dmp_saving s \<or> 0 < adm_pending s"

definition domain_drawerTitle :: "'z domains_page_scheme \<Rightarrow> jsstr" where
  "domain_drawerTitle s =
     (if truthy (dmp_syncerKey s) then lit ''Syncer key''
      else if truthy (dmp_selectedDomainId s) then [0x7F16, 0x8F91, 0x57DF] else [0x65B0, 0x5EFA, 0x57DF])"

definition domainDrawer :: "'z domains_page_scheme \<Rightarrow> drawer" where
  "domainDrawer s = \<lparr>dr_visible = dmp_drawerOpen s, dr_title = domain_drawerTitle s, dr_blocked = dmp_saving s,
     dr_close = (if truthy (dmp_syncerKey s) then close_text else cancel_text),
     dr_submit = (if \<not> truthy (dmp_syncerKey s) then Some (lit ''domain-form'', save_text) else None)\<rparr>"

section \<open>Handlers\<close>

definition domain_form_of :: "Domain \<Rightarrow> DomainForm" where
  "domain_form_of d = \<lparr>df_id = dom_id d, df_name = dom_name d, df_enabled = dom_enabled d,
     df_mirror_root_dn = dom_mirror_root_dn d, df_quarantine_ou_dn = dom_quarantine_ou_dn d,
     df_upn_suffix = dom_upn_suffix d, df_employee_id_attribute = dom_employee_id_attribute d,
     df_managed_group_id_attribute = dom_managed_group_id_attribute d\<rparr>"

definition domain_openEditor :: "Domain option \<Rightarrow> 'z domains_page_scheme \<Rightarrow> 'z domains_page_scheme" where
  "domain_openEditor domain s =
     s\<lparr>dmp_selectedDomainId := map_option dom_id domain, dmp_syncerKey := None,
       dmp_domainForm := (case domain of None \<Rightarrow> blankDomainForm | Some d \<Rightarrow> domain_form_of d),
       dmp_drawerOpen := True\<rparr>"

definition domain_payload :: "DomainForm \<Rightarrow> (jsstr \<times> json) list" where
  "domain_payload f =
     [(lit ''name'', JStr (df_name f)), (lit ''enabled'', JBool (df_enabled f)),
      (lit ''mirror_root_dn'', JStr (df_mirror_root_dn f)),
      (lit ''quarantine_ou_dn'', JStr (df_quarantine_ou_dn f)),
      (lit ''upn_suffix'', JStr (df_upn_suffix f)),
      (lit ''employee_id_attribute'', JStr (df_employee_id_attribute f)),
      (lit ''managed_group_id_attribute'', JStr (df_managed_group_id_attribute f))]"

definition domain_request ::
  "jsstr option \<Rightarrow> DomainForm \<Rightarrow> ('z admin_api_scheme, payload option) prog" where
  "domain_request editingId f =
     (if truthy editingId then
        withSegment (the editingId) (\<lambda>e.
          adminFetch (lit ''/api/admin/domains/'' @ e) (init_body PATCH (JObj (domain_payload f))))
      else
        adminFetch (lit ''/api/admin/domains'')
          (init_body POST (JObj ((lit ''id'', JStr (df_id f)) # domain_payload f))))"

definition dmp_set_saving :: "bool \<Rightarrow> 'z domains_page_scheme \<Rightarrow> 'z domains_page_scheme" where
  "dmp_set_saving b s = s\<lparr>dmp_saving := b\<rparr>"

definition saveDomain :: "('z domains_page_scheme, unit) prog" where
  "saveDomain = exclusively dmp_saving dmp_set_saving (reading (\<lambda>s.
     let editingId = dmp_selectedDomainId s in
     runAction
       (reading (\<lambda>s.
          andThen (domain_request editingId (dmp_domainForm s)) (\<lambda>p.
          andThen (bodyAs (\<lambda>p. case p of P_domain_saved r \<Rightarrow> Some r | _ \<Rightarrow> None) p) (\<lambda>response.
            seqThen
              (modify (\<lambda>s. s\<lparr>dmp_selectedDomainId := Some (dom_id (dmr_domain response)),
                 dmp_syncerKey := Some (dmr_syncer_key response)\<rparr>))
              (promiseAll [loadDomains, loadSyncDomains])))))
       (Some (if truthy editingId then M_domain_updated else M_domain_created))))"

definition copySyncerKey :: "('z domains_page_scheme, unit) prog" where
  "copySyncerKey = reading (\<lambda>s.
     if \<not> truthy (dmp_syncerKey s) \<or> \<not> dmp_clipboard s
     then modify (admin_notify (Failure M_key_no_clipboard))
     else catching
       (seqThen (writeClipboard (the (dmp_syncerKey s))) (modify (admin_notify (Success M_key_copied))))
       (\<lambda>_. modify (admin_notify (Failure M_key_copy_failed))))"

definition refreshDomains :: "('z admin_api_scheme, unit) prog" where
  "refreshDomains = runAction (promiseAll [loadDomains, loadSyncDomains]) (Some M_domains_refreshed)"

text \<open>The editor as the page fills it in, and a change of one of its fields.\<close>

definition page_domainEditor :: "'z domains_page_scheme \<Rightarrow> DomainForm editor" where
  "page_domainEditor s = domainEditor (dmp_selectedDomainId s) (adm_domainAttributeDefaults s)"

definition domain_edit :: "nat \<Rightarrow> input_value \<Rightarrow> 'z domains_page_scheme \<Rightarrow> 'z domains_page_scheme" where
  "domain_edit n v s = s\<lparr>dmp_domainForm := edit_form (page_domainEditor s) n v (dmp_domainForm s)\<rparr>"

inductive domains_calls :: "'z domains_page_scheme \<Rightarrow> ('z domains_page_scheme, unit) prog \<Rightarrow> bool" where
  "shell_calls s m \<Longrightarrow> domains_calls s m"
| "admin_tokenReady s \<Longrightarrow> domains_calls s refreshDomains"
| "admin_tokenReady s \<Longrightarrow> \<not> domains_busy s \<Longrightarrow> domains_calls s (modify (domain_openEditor None))"
| "admin_tokenReady s \<Longrightarrow> Emit_edit d \<in> set (table_emits (domainTable (domains_busy s)) (adm_domains s)) \<Longrightarrow>
    domains_calls s (modify (domain_openEditor (Some d)))"
| "admin_tokenReady s \<Longrightarrow> dmp_drawerOpen s \<Longrightarrow> truthy (dmp_syncerKey s) \<Longrightarrow> domains_calls s copySyncerKey"
| "admin_tokenReady s \<Longrightarrow> dmp_drawerOpen s \<Longrightarrow> \<not> truthy (dmp_syncerKey s) \<Longrightarrow>
    domains_calls s (modify (domain_edit n v))"
| "admin_tokenReady s \<Longrightarrow> drawer_has_form (domainDrawer s) (page_domainEditor s) \<Longrightarrow>
    domains_calls s saveDomain"
| "admin_tokenReady s \<Longrightarrow> \<not> dmp_saving s \<Longrightarrow> domains_calls s (modify (\<lambda>s. s\<lparr>dmp_drawerOpen := False\<rparr>))"

lemmas domains_ops =
  domain_request_def dmp_set_saving_def saveDomain_def copySyncerKey_def refreshDomains_def
  domain_openEditor_def domain_edit_def

lemmas domains_defs [js_eval] = domains_ops domain_payload_def domain_form_of_def

lemma domain_form_submitted [simp]:
  "drawer_has_form (domainDrawer s) (page_domainEditor s) \<longleftrightarrow> dmp_drawerOpen s \<and> \<not> truthy (dmp_syncerKey s)"
  by (simp add: drawer_has_form_def domainDrawer_def page_domainEditor_def domainEditor_def EditorForm_def)

section \<open>Obligations\<close>

lemma dmp_load_flags [simp]:
  "load_flag_set f (s\<lparr>dmp_selectedDomainId := x\<rparr>) = load_flag_set f s"
  "load_flag_set f (s\<lparr>dmp_drawerOpen := b\<rparr>) = load_flag_set f s"
  "load_flag_set f (s\<lparr>dmp_saving := b\<rparr>) = load_flag_set f s"
  "load_flag_set f (s\<lparr>dmp_syncerKey := x\<rparr>) = load_flag_set f s"
  "load_flag_set f (s\<lparr>dmp_domainForm := g\<rparr>) = load_flag_set f s"
  by (cases f; simp)+

lemma dmp_session_wf [simp]:
  "session_wf (s\<lparr>dmp_selectedDomainId := x\<rparr>) = session_wf s"
  "session_wf (s\<lparr>dmp_drawerOpen := b\<rparr>) = session_wf s"
  "session_wf (s\<lparr>dmp_saving := b\<rparr>) = session_wf s"
  "session_wf (s\<lparr>dmp_syncerKey := x\<rparr>) = session_wf s"
  "session_wf (s\<lparr>dmp_domainForm := g\<rparr>) = session_wf s"
  by (simp_all add: session_wf_def)

lemma domains_calls_obey: "domains_calls s m \<Longrightarrow> obeys admin_ok admin_may {#} m {#}"
  by (induction rule: domains_calls.induct)
    (auto simp: domains_ops Let_def intro!: obeys_intro intro: shell_calls_obey)

lemma domains_calls_loads: "domains_calls s m \<Longrightarrow> loads_of {#} m"
  by (induction rule: domains_calls.induct)
    (auto simp: domains_ops Let_def intro!: obeys_intro intro: shell_calls_loads)

lemma domains_calls_keep: "domains_calls s m \<Longrightarrow> wf_kept m"
  by (induction rule: domains_calls.induct)
    (auto simp: domains_ops Let_def intro!: obeys_intro intro: shell_calls_keep)

interpretation domains_page: admin_page domains_calls
  by unfold_locales (fact domains_calls_obey domains_calls_loads domains_calls_keep)+

lemma domains_calls_enter: "domains_calls s m \<Longrightarrow> may_enter adm_pending credential_query s m"
proof (induction rule: domains_calls.induct)
  case (1 s m)
  then show ?case by (rule shell_calls_enter)
qed (auto simp: domains_ops Let_def session_path_def lit_def
    intro!: enters_never obeys_intro enters_not_fetch)

interpretation domains_entry: single_entry adm_pending credential_query domains_calls
  by unfold_locales (rule domains_calls_enter)

section \<open>One change at a time\<close>

interpretation domains_frame:
  shell_frame "excl_ok change_query" "excl_may dmp_saving" "dmp_saving :: 'z domains_page_scheme \<Rightarrow> _" data_change
  by unfold_locales (auto simp: excl_may_same excl_ok_def data_change_def)

lemma change_ok [simp]:
  "excl_ok change_query (Some (WriteClipboard t)) G" "excl_ok change_query (Some (Fetch rq)) {#()#}"
  "excl_ok change_query (Some Confirm) G"
  by (simp_all add: excl_ok_def)

lemma domains_calls_excl: "domains_calls s m \<Longrightarrow> obeys (excl_ok change_query) (excl_may dmp_saving) {#} m {#}"
  by (induction rule: domains_calls.induct)
    (auto simp: domains_ops Let_def intro!: obeys_intro obeys_exclusively domains_frame.frame_ops
      domains_frame.frame_adminFetch intro: domains_frame.frame_shell)

interpretation domains_saves: exclusive_work dmp_saving change_query domains_calls
  by unfold_locales (rule domains_calls_excl)

section \<open>Properties\<close>

definition domains_page0 :: domains_page where
  "domains_page0 = admin_shell.extend (admin_api.extend
     (admin_api0\<lparr>adm_authenticated := True, adm_csrfToken := lit ''t''\<rparr>) (admin_shell.fields [] (lit ''/admin/domains'')))
     (domains_page.fields None True False None blankDomainForm True)"

definition domain0 :: Domain where
  "domain0 = \<lparr>dom_id = lit ''d'', dom_name = lit ''n'', dom_enabled = True, dom_mirror_root_dn = [],
     dom_quarantine_ou_dn = [], dom_upn_suffix = [], dom_employee_id_attribute = [],
     dom_managed_group_id_attribute = [], dom_applied_directory_revision = 0,
     dom_applied_credential_revision = 0\<rparr>"

lemmas domains_page0_eval =
  domains_page0_def admin_shell.defs admin_api.defs domains_page.defs admin_api0_def

lemma saveDomain_accepted:
  assumes "admin_tokenReady s" and "\<not> dmp_saving s"
    and "\<And>i. dmp_selectedDomainId s = Some i \<Longrightarrow> i \<noteq> [] \<and> encodeURIComponent i = Some e"
    and "list_all (\<lambda>ok. response_ok ok \<and> rs_status ok \<noteq> 204) [k1, k2, k3]"
  shows "\<exists>rq qs s' m. run saveDomain [Responded k1, Json (P_domain_saved r), Responded k2,
      Json (P_domains ds df), Responded k3, Json (P_sync sd)] s = (Fetch rq # qs, s', [m]) \<and>
    outcome m = Some (Inr ()) \<and>
    (if dmp_selectedDomainId s = None then
       rq_method rq = POST \<and> rq_path rq = lit ''/api/admin/domains'' \<and>
       rq_body rq = Some (JObj ((lit ''id'', JStr (df_id (dmp_domainForm s))) # domain_payload (dmp_domainForm s)))
     else
       rq_method rq = PATCH \<and> rq_path rq = lit ''/api/admin/domains/'' @ e \<and>
       rq_body rq = Some (JObj (domain_payload (dmp_domainForm s)))) \<and>
    dmp_selectedDomainId s' = Some (dom_id (dmr_domain r)) \<and> dmp_syncerKey s' = Some (dmr_syncer_key r) \<and>
    \<not> dmp_saving s' \<and> adm_domains s' = ds \<and> adm_syncDomains s' = sd \<and>
    adm_toasts s' = adm_toasts s @
      [Success (if dmp_selectedDomainId s = None then M_domain_created else M_domain_updated)]"
proof (cases "dmp_selectedDomainId s")
  case None
  with assms show ?thesis
    by (simp add: js_eval exec_defs Let_def)
next
  case (Some i)
  with assms show ?thesis
    by (simp add: js_eval exec_defs Let_def)
qed

lemma saveDomain_rejected:
  assumes "\<not> dmp_saving s" and "\<And>ok. r = Responded ok \<Longrightarrow> \<not> response_ok ok"
  shows "\<exists>qs s' m f. run saveDomain [r] s = (qs, s', [m]) \<and> outcome m = Some (Inr ()) \<and>
    adm_toasts s' = adm_toasts s @ [Failure f] \<and> \<not> dmp_saving s' \<and> adm_pending s' = adm_pending s \<and>
    dmp_domainForm s' = dmp_domainForm s \<and> dmp_drawerOpen s' = dmp_drawerOpen s \<and>
    dmp_selectedDomainId s' = dmp_selectedDomainId s \<and> dmp_syncerKey s' = dmp_syncerKey s"
proof (cases r)
  case (Responded ok)
  with assms have "\<not> (200 \<le> rs_status ok \<and> rs_status ok \<le> 299)"
    by (simp add: response_ok_def)
  with Responded assms(1) show ?thesis
    by (auto simp: js_eval exec_defs Let_def split: option.splits)
qed (use assms(1) in \<open>auto simp: js_eval exec_defs Let_def split: option.splits\<close>)

text \<open>
  C14: saving sends one request with the fields of the form: \<open>POST\<close> with the identifier for a new
  domain, \<open>PATCH\<close> to the encoded identifier for an existing one. When it is accepted, the page
  shows the key of the answer, selects the domain of the answer, so that another save updates
  it, and loads the domains and their synchronisation state again before it reports success. When
  it is refused or gets no answer, the call ends with one error message and without throwing;
  form, drawer, selection and key are as before. In both cases \<open>saving\<close> is reset.
\<close>

theorem saveDomain_outcomes:
  assumes "admin_tokenReady s" and "\<not> dmp_saving s"
    and "\<And>i. dmp_selectedDomainId s = Some i \<Longrightarrow> i \<noteq> [] \<and> encodeURIComponent i = Some e"
    and "list_all (\<lambda>ok. response_ok ok \<and> rs_status ok \<noteq> 204) [k1, k2, k3]"
    and "\<And>ok. x = Responded ok \<Longrightarrow> \<not> response_ok ok"
  shows "(\<exists>rq qs s' m. run saveDomain [Responded k1, Json (P_domain_saved r), Responded k2,
      Json (P_domains ds df), Responded k3, Json (P_sync sd)] s = (Fetch rq # qs, s', [m]) \<and>
    outcome m = Some (Inr ()) \<and>
    (if dmp_selectedDomainId s = None then
       rq_method rq = POST \<and> rq_path rq = lit ''/api/admin/domains'' \<and>
       rq_body rq = Some (JObj ((lit ''id'', JStr (df_id (dmp_domainForm s))) # domain_payload (dmp_domainForm s)))
     else
       rq_method rq = PATCH \<and> rq_path rq = lit ''/api/admin/domains/'' @ e \<and>
       rq_body rq = Some (JObj (domain_payload (dmp_domainForm s)))) \<and>
    dmp_selectedDomainId s' = Some (dom_id (dmr_domain r)) \<and> dmp_syncerKey s' = Some (dmr_syncer_key r) \<and>
    \<not> dmp_saving s' \<and> adm_domains s' = ds \<and> adm_syncDomains s' = sd \<and>
    adm_toasts s' = adm_toasts s @
      [Success (if dmp_selectedDomainId s = None then M_domain_created else M_domain_updated)]) \<and>
   (\<exists>qs s' m f. run saveDomain [x] s = (qs, s', [m]) \<and> outcome m = Some (Inr ()) \<and>
    adm_toasts s' = adm_toasts s @ [Failure f] \<and> \<not> dmp_saving s' \<and> adm_pending s' = adm_pending s \<and>
    dmp_domainForm s' = dmp_domainForm s \<and> dmp_drawerOpen s' = dmp_drawerOpen s \<and>
    dmp_selectedDomainId s' = dmp_selectedDomainId s \<and> dmp_syncerKey s' = dmp_syncerKey s)"
  by (rule conjI [OF saveDomain_accepted [OF assms(1-4)] saveDomain_rejected [OF assms(2,5)]])

theorem saveDomain_outcomes_witness:
  "\<exists>rq qs s' m. run saveDomain [Responded \<lparr>rs_status = 201, rs_statusText = []\<rparr>,
      Json (P_domain_saved \<lparr>dmr_domain = domain0, dmr_syncer_key = lit ''k''\<rparr>),
      Responded \<lparr>rs_status = 200, rs_statusText = []\<rparr>,
      Json (P_domains [domain0] (adm_domainAttributeDefaults domains_page0)),
      Responded \<lparr>rs_status = 200, rs_statusText = []\<rparr>, Json (P_sync [])] domains_page0 = (Fetch rq # qs, s', [m]) \<and>
    rq_method rq = POST \<and> dmp_syncerKey s' = Some (lit ''k'')"
proof -
  let ?k = "\<lparr>rs_status = 201, rs_statusText = []\<rparr>" and ?l = "\<lparr>rs_status = 200, rs_statusText = []\<rparr>"
  have "admin_tokenReady domains_page0" "\<not> dmp_saving domains_page0"
    "dmp_selectedDomainId domains_page0 = None"
    "list_all (\<lambda>ok. response_ok ok \<and> rs_status ok \<noteq> 204) [?k, ?l, ?l]"
    by (simp_all add: domains_page0_eval admin_tokenReady_def response_ok_def)
  from saveDomain_outcomes [OF this(1,2) _ this(4), of "[]" "Rejected NonError"
      "\<lparr>dmr_domain = domain0, dmr_syncer_key = lit ''k''\<rparr>"
      "[domain0]" "adm_domainAttributeDefaults domains_page0" "[]"] this(3)
  show ?thesis by fastforce
qed

end
