(* ===== verification/Clients_Page.thy ===== *)
theory Clients_Page
  imports Admin_Shell Editors
begin

text \<open>
  The page of the OAuth clients, \<open>portal/web/app/pages/admin/clients.vue\<close>, over its editor
  (\<open>Editors\<close>) and its table (\<open>Tables\<close>). \<open>clp_clipboard\<close> says whether the browser offers a clipboard. The
  confirmation dialogue is a query that the environment answers. \<open>clients_calls\<close> are the events of
  the page under the conditions of its templates.
\<close>

section \<open>State\<close>

datatype DrawerView = View_editor | View_secret

definition blankEditorForm :: OAuthClientEditorModel where
  "blankEditorForm = \<lparr>em_name = [], em_client_type = Web, em_redirect_uris = [],
     em_allowed_scopes = [Openid], em_enabled = True\<rparr>"

record clients_page = admin_shell +
  clp_drawerOpen :: bool
  clp_drawerView :: DrawerView
  clp_selectedClientId :: "jsstr option"
  clp_saving :: bool
  clp_secret :: "OAuthClientSecretResponse option"
  clp_editorForm :: OAuthClientEditorModel
  clp_clipboard :: bool

definition clients_busy :: "'z clients_page_scheme \<Rightarrow> bool" where
  "clients_busy s \<longleftrightarrow> clp_saving s \<or> 0 < adm_pending s"

definition client_drawerTitle :: "'z clients_page_scheme \<Rightarrow> jsstr" where
  "client_drawerTitle s =
     (if clp_drawerView s = View_secret then [0x5BA2, 0x6237, 0x7AEF, 0x5BC6, 0x94A5]
      else if truthy (clp_selectedClientId s) then [0x7F16, 0x8F91, 0x63A5, 0x5165, 0x5E94, 0x7528] else [0x65B0, 0x5EFA, 0x63A5, 0x5165, 0x5E94, 0x7528])"

definition clientDrawer :: "'z clients_page_scheme \<Rightarrow> drawer" where
  "clientDrawer s = \<lparr>dr_visible = clp_drawerOpen s, dr_title = client_drawerTitle s, dr_blocked = clp_saving s,
     dr_close = (if clp_drawerView s = View_secret then close_text else cancel_text),
     dr_submit = (if clp_drawerView s = View_editor then Some (lit ''oauth-client-form'', save_text) else None)\<rparr>"

definition secret_shown :: "'z clients_page_scheme \<Rightarrow> bool" where
  "secret_shown s \<longleftrightarrow> clp_drawerView s = View_secret \<and> clp_secret s \<noteq> None"

section \<open>Handlers\<close>

definition newline :: jsstr where
  "newline = [0xA]"

definition editor_form_of :: "OAuthClient \<Rightarrow> OAuthClientEditorModel" where
  "editor_form_of c = \<lparr>em_name = oc_name c, em_client_type = oc_client_type c,
     em_redirect_uris = join newline (oc_redirect_uris c), em_allowed_scopes = oc_allowed_scopes c,
     em_enabled = oc_enabled c\<rparr>"

definition client_openEditor :: "OAuthClient option \<Rightarrow> 'z clients_page_scheme \<Rightarrow> 'z clients_page_scheme" where
  "client_openEditor client s =
     s\<lparr>clp_selectedClientId := map_option oc_client_id client, clp_secret := None,
       clp_drawerView := View_editor,
       clp_editorForm := (case client of None \<Rightarrow> blankEditorForm | Some c \<Rightarrow> editor_form_of c),
       clp_drawerOpen := True\<rparr>"

definition redirectUris :: "OAuthClientEditorModel \<Rightarrow> jsstr list" where
  "redirectUris form = filter (\<lambda>uri. uri \<noteq> []) (map trim (split_lines (em_redirect_uris form)))"

definition clp_set_saving :: "bool \<Rightarrow> 'z clients_page_scheme \<Rightarrow> 'z clients_page_scheme" where
  "clp_set_saving b s = s\<lparr>clp_saving := b\<rparr>"

definition update_request_of :: "OAuthClientEditorModel \<Rightarrow> UpdateOAuthClientRequest" where
  "update_request_of f = \<lparr>uq_name = trim (em_name f), uq_redirect_uris = redirectUris f,
     uq_allowed_scopes = em_allowed_scopes f, uq_enabled = em_enabled f\<rparr>"

definition create_request_of :: "OAuthClientEditorModel \<Rightarrow> CreateOAuthClientRequest" where
  "create_request_of f = \<lparr>cr_name = trim (em_name f), cr_client_type = em_client_type f,
     cr_redirect_uris = redirectUris f, cr_allowed_scopes = em_allowed_scopes f, cr_enabled = em_enabled f\<rparr>"

definition show_created :: "OAuthClientCreateResponse \<Rightarrow> 'z clients_page_scheme \<Rightarrow> 'z clients_page_scheme" where
  "show_created response s =
     (let s = s\<lparr>clp_selectedClientId := Some (oc_client_id (ccr_client response))\<rparr> in
      if truthy (ccr_client_secret response) then
        s\<lparr>clp_secret := Some \<lparr>csr_client_id = oc_client_id (ccr_client response),
            csr_client_secret = the (ccr_client_secret response)\<rparr>,
          clp_drawerView := View_secret\<rparr>
      else s\<lparr>clp_drawerOpen := False\<rparr>)"

definition save_client_action :: "jsstr option \<Rightarrow> ('z clients_page_scheme, unit) prog" where
  "save_client_action clientId = reading (\<lambda>s.
     if truthy clientId then
       seqThen (updateOAuthClient (the clientId) (update_request_of (clp_editorForm s)))
         (modify (\<lambda>s. s\<lparr>clp_drawerOpen := False\<rparr>))
     else
       andThen (createOAuthClient (create_request_of (clp_editorForm s)))
         (\<lambda>response. modify (show_created response)))"

definition saveClient :: "('z clients_page_scheme, unit) prog" where
  "saveClient = reading (\<lambda>s.
     if clp_saving s then Ret ()
     else if trim (em_name (clp_editorForm s)) = [] then
       modify (admin_notify (Failure M_client_enter_name))
     else if redirectUris (clp_editorForm s) = [] then
       modify (admin_notify (Failure M_client_enter_uri))
     else
       withFlag clp_set_saving (reading (\<lambda>s.
         let clientId = clp_selectedClientId s in
         runAction (save_client_action clientId)
           (Some (if truthy clientId then M_client_updated else M_client_created)))))"

definition toggleClient :: "OAuthClient \<Rightarrow> ('z clients_page_scheme, unit) prog" where
  "toggleClient client =
     (let enabled = \<not> oc_enabled client in
      withFlag clp_set_saving
        (runAction
          (void (updateOAuthClient (oc_client_id client)
             \<lparr>uq_name = oc_name client, uq_redirect_uris = oc_redirect_uris client,
              uq_allowed_scopes = oc_allowed_scopes client, uq_enabled = enabled\<rparr>))
          (Some (if enabled then M_client_enabled else M_client_disabled))))"

definition removeClient :: "OAuthClient \<Rightarrow> ('z clients_page_scheme, unit) prog" where
  "removeClient client = andThen askConfirm (\<lambda>confirmed.
     if \<not> confirmed then Ret ()
     else withFlag clp_set_saving
       (runAction (deleteOAuthClient (oc_client_id client)) (Some M_client_deleted)))"

definition regenerateSecret :: "('z clients_page_scheme, unit) prog" where
  "regenerateSecret = reading (\<lambda>s.
     let clientId = clp_selectedClientId s in
     if \<not> truthy clientId then Ret ()
     else andThen askConfirm (\<lambda>confirmed.
       if \<not> confirmed then Ret ()
       else withFlag clp_set_saving
         (runAction
           (andThen (regenerateOAuthClientSecret (the clientId)) (\<lambda>response.
              modify (\<lambda>s. s\<lparr>clp_secret := Some response, clp_drawerView := View_secret\<rparr>)))
           None)))"

definition copySecret :: "('z clients_page_scheme, unit) prog" where
  "copySecret = reading (\<lambda>s.
     let value = map_option csr_client_secret (clp_secret s) in
     if \<not> truthy value \<or> \<not> clp_clipboard s
     then modify (admin_notify (Failure M_secret_no_clipboard))
     else catching
       (seqThen (writeClipboard (the value)) (modify (admin_notify (Success M_secret_copied))))
       (\<lambda>_. modify (admin_notify (Failure M_secret_copy_failed))))"

definition refreshClients :: "('z admin_api_scheme, unit) prog" where
  "refreshClients = runAction loadOAuthClients (Some M_clients_refreshed)"

text \<open>The editor as the page fills it in, and a change of one of its fields.\<close>

definition page_clientEditor :: "'z clients_page_scheme \<Rightarrow> OAuthClientEditorModel editor" where
  "page_clientEditor s = clientEditor (clp_selectedClientId s) (clp_saving s)"

definition client_edit :: "nat \<Rightarrow> input_value \<Rightarrow> 'z clients_page_scheme \<Rightarrow> 'z clients_page_scheme" where
  "client_edit n v s = s\<lparr>clp_editorForm := edit_form (page_clientEditor s) n v (clp_editorForm s)\<rparr>"

inductive clients_calls :: "'z clients_page_scheme \<Rightarrow> ('z clients_page_scheme, unit) prog \<Rightarrow> bool" where
  "shell_calls s m \<Longrightarrow> clients_calls s m"
| "admin_tokenReady s \<Longrightarrow> clients_calls s refreshClients"
| "admin_tokenReady s \<Longrightarrow> \<not> clients_busy s \<Longrightarrow> clients_calls s (modify (client_openEditor None))"
| "admin_tokenReady s \<Longrightarrow> Emit_edit c \<in> set (table_emits (clientTable (clients_busy s)) (adm_oauthClients s)) \<Longrightarrow>
    clients_calls s (modify (client_openEditor (Some c)))"
| "admin_tokenReady s \<Longrightarrow> Emit_toggle c \<in> set (table_emits (clientTable (clients_busy s)) (adm_oauthClients s)) \<Longrightarrow>
    clients_calls s (toggleClient c)"
| "admin_tokenReady s \<Longrightarrow> Emit_remove c \<in> set (table_emits (clientTable (clients_busy s)) (adm_oauthClients s)) \<Longrightarrow>
    clients_calls s (removeClient c)"
| "admin_tokenReady s \<Longrightarrow> clp_drawerOpen s \<Longrightarrow> \<not> secret_shown s \<Longrightarrow> clients_calls s saveClient"
| "admin_tokenReady s \<Longrightarrow> clp_drawerOpen s \<Longrightarrow> \<not> secret_shown s \<Longrightarrow>
    clients_calls s (modify (client_edit n v))"
| "admin_tokenReady s \<Longrightarrow> clp_drawerOpen s \<Longrightarrow> \<not> secret_shown s \<Longrightarrow> \<not> clp_saving s \<Longrightarrow>
    regenerate_shown (clp_selectedClientId s) (clp_editorForm s) \<Longrightarrow>
    clients_calls s regenerateSecret"
| "admin_tokenReady s \<Longrightarrow> clp_drawerOpen s \<Longrightarrow> secret_shown s \<Longrightarrow> clients_calls s copySecret"
| "admin_tokenReady s \<Longrightarrow> \<not> clp_saving s \<Longrightarrow> clients_calls s (modify (\<lambda>s. s\<lparr>clp_drawerOpen := False\<rparr>))"

lemmas clients_ops =
  client_openEditor_def client_edit_def clp_set_saving_def save_client_action_def saveClient_def
  toggleClient_def removeClient_def regenerateSecret_def copySecret_def refreshClients_def

lemmas clients_defs [js_eval] = clients_ops show_created_def update_request_of_def create_request_of_def editor_form_of_def

section \<open>Obligations\<close>

lemma clp_load_flags [simp]:
  "load_flag_set f (s\<lparr>clp_drawerOpen := b\<rparr>) = load_flag_set f s"
  "load_flag_set f (s\<lparr>clp_drawerView := v\<rparr>) = load_flag_set f s"
  "load_flag_set f (s\<lparr>clp_selectedClientId := x\<rparr>) = load_flag_set f s"
  "load_flag_set f (s\<lparr>clp_saving := b\<rparr>) = load_flag_set f s"
  "load_flag_set f (s\<lparr>clp_secret := y\<rparr>) = load_flag_set f s"
  "load_flag_set f (s\<lparr>clp_editorForm := g\<rparr>) = load_flag_set f s"
  by (cases f; simp)+

lemma clp_session_wf [simp]:
  "session_wf (s\<lparr>clp_drawerOpen := b\<rparr>) = session_wf s"
  "session_wf (s\<lparr>clp_drawerView := v\<rparr>) = session_wf s"
  "session_wf (s\<lparr>clp_selectedClientId := x\<rparr>) = session_wf s"
  "session_wf (s\<lparr>clp_saving := b\<rparr>) = session_wf s"
  "session_wf (s\<lparr>clp_secret := y\<rparr>) = session_wf s"
  "session_wf (s\<lparr>clp_editorForm := g\<rparr>) = session_wf s"
  by (simp_all add: session_wf_def)

lemma show_created_fields [simp]:
  "adm_pending (show_created x s) = adm_pending s"
  "adm_toasts (show_created x s) = adm_toasts s"
  "adm_oauthClients (show_created x s) = adm_oauthClients s"
  "load_flag_set f (show_created x s) = load_flag_set f s"
  "session_wf (show_created x s) = session_wf s"
  "clp_saving (show_created x s) = clp_saving s"
  "clp_editorForm (show_created x s) = clp_editorForm s"
  "clp_selectedClientId (show_created x s) = Some (oc_client_id (ccr_client x))"
  "clp_drawerOpen (show_created x s) \<longleftrightarrow> truthy (ccr_client_secret x) \<and> clp_drawerOpen s"
  by (simp_all add: show_created_def Let_def)

lemma clients_calls_obey: "clients_calls s m \<Longrightarrow> obeys admin_ok admin_may {#} m {#}"
  by (induction rule: clients_calls.induct)
    (auto simp: clients_ops Let_def intro!: obeys_intro intro: shell_calls_obey)

lemma clients_calls_loads: "clients_calls s m \<Longrightarrow> loads_of {#} m"
  by (induction rule: clients_calls.induct)
    (auto simp: clients_ops Let_def intro!: obeys_intro intro: shell_calls_loads)

lemma clients_calls_keep: "clients_calls s m \<Longrightarrow> wf_kept m"
  by (induction rule: clients_calls.induct)
    (auto simp: clients_ops Let_def intro!: obeys_intro intro: shell_calls_keep)

interpretation clients_page: admin_page clients_calls
  by unfold_locales (fact clients_calls_obey clients_calls_loads clients_calls_keep)+

lemma clients_calls_enter: "clients_calls s m \<Longrightarrow> may_enter adm_pending credential_query s m"
proof (induction rule: clients_calls.induct)
  case (1 s m)
  then show ?case by (rule shell_calls_enter)
qed (auto simp: clients_ops Let_def intro!: enters_never obeys_intro)

interpretation clients_entry: single_entry adm_pending credential_query clients_calls
  by unfold_locales (rule clients_calls_enter)

section \<open>The saving flag\<close>

abbreviation client_saves :: "unit multiset \<Rightarrow> ('z clients_page_scheme, 'a) prog \<Rightarrow> bool" where
  "client_saves G m \<equiv> obeys anywhere (flag_may (\<lambda>_. clp_saving)) G m G"

interpretation clients_frame:
  shell_frame anywhere "flag_may (\<lambda>_ :: unit. clp_saving)" "clp_saving :: 'z clients_page_scheme \<Rightarrow> _" "\<lambda>_. False"
  by unfold_locales (auto simp: flag_may_def anywhere_def)

lemma client_saves_withFlag:
  "(\<And>G. client_saves G m) \<Longrightarrow> client_saves G (withFlag clp_set_saving m)"
  by (rule flag_withFlag [where f = "()"]) (auto simp: clp_set_saving_def)

lemma clients_calls_saves: "clients_calls s m \<Longrightarrow> client_saves {#} m"
proof (induction rule: clients_calls.induct)
  case (1 s m)
  then show ?case by (rule clients_frame.frame_shell)
qed (auto simp: client_openEditor_def client_edit_def save_client_action_def saveClient_def
      toggleClient_def removeClient_def regenerateSecret_def copySecret_def refreshClients_def Let_def
      intro!: obeys_intro client_saves_withFlag clients_frame.frame_ops)

interpretation clients_saving: flagged "\<lambda>_ :: unit. clp_saving" clients_calls
  by unfold_locales (rule clients_calls_saves)

section \<open>The drawer\<close>

text \<open>
  The view of the secret has a secret to show, and the form of a new client asks for \<open>openid\<close>.
\<close>

definition client_drawer_wf :: "'z clients_page_scheme \<Rightarrow> bool" where
  "client_drawer_wf s \<longleftrightarrow>
     (clp_drawerView s = View_secret \<longrightarrow> clp_secret s \<noteq> None) \<and>
     (clp_selectedClientId s = None \<longrightarrow> Openid \<in> set (em_allowed_scopes (clp_editorForm s)))"

interpretation client_drawer_frame:
  shell_frame anywhere "keeps client_drawer_wf" "client_drawer_wf :: 'z clients_page_scheme \<Rightarrow> _" "\<lambda>_. False"
  by unfold_locales (auto simp: keeps_def anywhere_def client_drawer_wf_def)

lemma client_drawer_steps:
  "client_drawer_wf (client_openEditor c s)"
  "client_drawer_wf s \<Longrightarrow> client_drawer_wf (client_edit n v s)"
  "client_drawer_wf s \<Longrightarrow> client_drawer_wf (show_created x s)"
  "client_drawer_wf s \<Longrightarrow> client_drawer_wf (s\<lparr>clp_secret := Some y, clp_drawerView := View_secret\<rparr>)"
  "client_drawer_wf (s\<lparr>clp_drawerOpen := b\<rparr>) = client_drawer_wf s"
  "client_drawer_wf (s\<lparr>clp_saving := b\<rparr>) = client_drawer_wf s"
  by (auto simp: client_drawer_wf_def client_openEditor_def client_edit_def page_clientEditor_def
      client_openid_fixed show_created_def Let_def blankEditorForm_def split: option.splits)

lemma clients_calls_drawer: "clients_calls s m \<Longrightarrow> obeys anywhere (keeps client_drawer_wf) {#} m {#}"
proof (induction rule: clients_calls.induct)
  case (1 s m)
  then show ?case by (rule client_drawer_frame.frame_shell)
qed (auto simp: clp_set_saving_def save_client_action_def saveClient_def toggleClient_def removeClient_def
      regenerateSecret_def copySecret_def refreshClients_def Let_def client_drawer_steps
      intro!: obeys_intro client_drawer_frame.frame_sessions client_drawer_frame.frame_clients
        client_drawer_frame.frame_loads client_drawer_frame.frame_runAction)

interpretation clients_drawer: state_invariant client_drawer_wf clients_calls
  by unfold_locales (rule clients_calls_drawer)

text \<open>Then the form of the editor can be saved exactly when it is shown.\<close>

lemma client_form_submitted:
  "client_drawer_wf s \<Longrightarrow>
    drawer_has_form (clientDrawer s) (page_clientEditor s) \<longleftrightarrow> clp_drawerOpen s \<and> \<not> secret_shown s"
  by (cases "clp_drawerView s") (auto simp: client_drawer_wf_def drawer_has_form_def clientDrawer_def
      page_clientEditor_def clientEditor_def EditorForm_def secret_shown_def)

section \<open>Outcomes\<close>

text \<open>
  What two answers to a save give back: the body of a successful response. The outcome of a save is
  a function of it: \<open>client_updated\<close> and \<open>client_created\<close> say what the returned client and secret do to the
  page, \<open>client_unsaved\<close> what is left when nothing usable came back.
\<close>

definition returned :: "answer list \<Rightarrow> payload option" where
  "returned rs = (case rs of
     Responded k # Json p # _ \<Rightarrow> if response_ok k \<and> rs_status k \<noteq> 204 then Some p else None
   | _ \<Rightarrow> None)"

definition client_updated :: "OAuthClient \<Rightarrow> 'z clients_page_scheme \<Rightarrow> 'z clients_page_scheme \<Rightarrow> bool" where
  "client_updated c s s' \<longleftrightarrow>
     adm_toasts s' = adm_toasts s @ [Success M_client_updated] \<and> \<not> clp_drawerOpen s' \<and>
     adm_oauthClients s' = replace_client c (adm_oauthClients s)"

definition client_created ::
  "OAuthClientCreateResponse \<Rightarrow> 'z clients_page_scheme \<Rightarrow> 'z clients_page_scheme \<Rightarrow> bool" where
  "client_created x s s' \<longleftrightarrow>
     adm_toasts s' = adm_toasts s @ [Success M_client_created] \<and>
     adm_oauthClients s' = adm_oauthClients s @ [ccr_client x] \<and>
     clp_selectedClientId s' = Some (oc_client_id (ccr_client x)) \<and>
     (if truthy (ccr_client_secret x)
      then clp_drawerOpen s' = clp_drawerOpen s \<and> secret_shown s' \<and>
        clp_secret s' = Some \<lparr>csr_client_id = oc_client_id (ccr_client x),
          csr_client_secret = the (ccr_client_secret x)\<rparr>
      else \<not> clp_drawerOpen s' \<and> clp_secret s' = clp_secret s)"

definition client_unsaved :: "'z clients_page_scheme \<Rightarrow> 'z clients_page_scheme \<Rightarrow> bool" where
  "client_unsaved s s' \<longleftrightarrow>
     (\<exists>f. adm_toasts s' = adm_toasts s @ [Failure f]) \<and> clp_drawerOpen s' = clp_drawerOpen s \<and>
     clp_drawerView s' = clp_drawerView s \<and> clp_selectedClientId s' = clp_selectedClientId s \<and>
     clp_secret s' = clp_secret s \<and> (adm_oauthClients s' = adm_oauthClients s \<or> admin_cleared s')"

text \<open>The request of a save, if one is sent, and its outcome.\<close>

definition client_save_request :: "'z clients_page_scheme \<Rightarrow> (http_method \<times> jsstr \<times> json) option" where
  "client_save_request s =
     (if \<not> admin_tokenReady s then None
      else if truthy (clp_selectedClientId s) then
        map_option (\<lambda>e. (PATCH, client_path e, update_request_json (update_request_of (clp_editorForm s))))
          (encodeURIComponent (the (clp_selectedClientId s)))
      else Some (POST, lit ''/api/admin/oauth-clients'', create_request_json (create_request_of (clp_editorForm s))))"

definition client_save_outcome ::
  "answer list \<Rightarrow> 'z clients_page_scheme \<Rightarrow> 'z clients_page_scheme \<Rightarrow> bool" where
  "client_save_outcome rs s s' \<longleftrightarrow>
     (case (truthy (clp_selectedClientId s), returned rs) of
        (True, Some (P_client c)) \<Rightarrow> client_updated c s s'
      | (False, Some (P_client_created x)) \<Rightarrow> client_created x s s'
      | _ \<Rightarrow> client_unsaved s s')"

lemma clp_fields [simp]:
  "clp_drawerOpen (admin_notify t s) = clp_drawerOpen s" "clp_drawerOpen (clearSession s) = clp_drawerOpen s"
  "clp_drawerView (admin_notify t s) = clp_drawerView s" "clp_drawerView (clearSession s) = clp_drawerView s"
  "clp_selectedClientId (admin_notify t s) = clp_selectedClientId s"
  "clp_selectedClientId (clearSession s) = clp_selectedClientId s"
  "clp_saving (admin_notify t s) = clp_saving s" "clp_saving (clearSession s) = clp_saving s"
  "clp_secret (admin_notify t s) = clp_secret s" "clp_secret (clearSession s) = clp_secret s"
  "clp_editorForm (admin_notify t s) = clp_editorForm s" "clp_editorForm (clearSession s) = clp_editorForm s"
  by (simp_all add: admin_notify_def clearSession_def resetData_def)

lemma ensures_runAction [simp]:
  "ensures (runAction m msg) P n s \<longleftrightarrow>
     ensures m (\<lambda>n s r. case r of
       Inl e \<Rightarrow> P n (admin_notify (Failure (admin_requestErrorMessage e M_request_failed)) s) (Inr ())
     | Inr _ \<Rightarrow> P n (case msg of None \<Rightarrow> s | Some t \<Rightarrow> admin_notify (Success t) s) (Inr ())) n s"
  by (simp add: runAction_def sum.case_eq_if)

lemma saveClient_run:
  assumes "\<not> clp_saving s" "trim (em_name (clp_editorForm s)) \<noteq> []" "redirectUris (clp_editorForm s) \<noteq> []"
  shows "\<exists>qs s' m. run saveClient (r1 # r2 # rs) s = (qs, s', [m]) \<and> outcome m = Some (Inr ()) \<and>
     \<not> clp_saving s' \<and> clp_editorForm s' = clp_editorForm s \<and>
     (case client_save_request s of
        None \<Rightarrow> qs = [] \<and> client_unsaved s s'
      | Some (method, path, body) \<Rightarrow>
          (\<exists>rq. hd qs = Fetch rq \<and> rq_method rq = method \<and> rq_path rq = path \<and> rq_body rq = Some body) \<and>
          client_save_outcome (r1 # r2 # rs) s s')"
proof (cases "client_save_request s")
  case None
  with assms show ?thesis
    by (cases "encodeURIComponent (the (clp_selectedClientId s))")
      (auto simp: client_save_request_def js_eval exec_defs Let_def client_unsaved_def admin_cleared_def split: if_splits)
next
  case (Some q)
  obtain e where e: "admin_tokenReady s" "truthy (clp_selectedClientId s) \<Longrightarrow> encodeURIComponent (the (clp_selectedClientId s)) = Some e"
    using Some by (auto simp: client_save_request_def split: if_splits)
  note eval = js_eval exec_defs Let_def client_unsaved_def admin_cleared_def client_save_outcome_def returned_def
     client_save_request_def client_updated_def client_created_def secret_shown_def
  show ?thesis
  proof (cases "truthy (clp_selectedClientId s)")
    case True
    with assms e show ?thesis
      by (cases r1; cases r2) (auto simp: eval response_ok_def split: payload.split)
  next
    case False
    with assms e show ?thesis
      by (cases r1; cases r2) (auto simp: eval response_ok_def split: payload.split)
  qed
qed
lemma removeClient_ensures:
  "ensures (removeClient c) (\<lambda>_ s' r. (r = Inr () \<or> s' = s) \<and> (s' = s \<or> \<not> clp_saving s')) 3 s"
  unfolding removeClient_def
  by (auto simp: clp_set_saving_def intro!: ensures_mono [OF deleteOAuthClient_ensures])

lemma redirectUris_join:
  assumes "\<forall>u \<in> set us. clean_item 0xA u"
  shows "filter (\<lambda>u. u \<noteq> []) (map trim (split_lines (join newline us))) = us"
  using assms
proof (induction newline us rule: join.induct)
  case (3 u v us)
  have "0xA \<notin> set u" "trim u = u" "u \<noteq> []" "last u \<noteq> 0xD"
    using 3 by (auto simp: clean_item_def trim_id trimmed_def is_ws_def)
  moreover have "join newline (u # v # us) = u @ 0xA # join newline (v # us)"
    by (simp add: newline_def)
  ultimately show ?case
    using 3 by (simp add: split_lines_append del: split_lines.simps join.simps(3))
qed (auto simp: clean_item_def trim_id split_lines_free)

lemma redirectUris_clean: "u \<in> set (redirectUris f) \<Longrightarrow> clean_item 0xA u"
  using split_lines_item_free set_trim by (fastforce simp: redirectUris_def clean_item_def trim_trimmed)

lemma editor_uris_kept:
  "\<forall>u \<in> set (oc_redirect_uris c). clean_item 0xA u \<Longrightarrow>
    redirectUris (clp_editorForm (client_openEditor (Some c) s)) = oc_redirect_uris c"
  using redirectUris_join [of "oc_redirect_uris c"]
  by (simp add: redirectUris_def client_openEditor_def editor_form_of_def)

text \<open>A deletion waits for its confirmation; only a consent sends the request.\<close>

lemma removeClient_confirmed:
  assumes "admin_tokenReady s" and "encodeURIComponent (oc_client_id c) = Some e"
  shows "\<exists>m. call (removeClient c) (s, []) = (s, [m]) \<and> waits m = [Confirm] \<and>
    (case answer 0 (Confirmed b) (s, [m]) of (s', ms) \<Rightarrow>
       if b then clp_saving s' \<and>
         (\<exists>rq. pool_waits (s', ms) = [Fetch rq] \<and> rq_method rq = DELETE \<and> rq_path rq = client_path e)
       else s' = s \<and> idle (s', ms))"
  using assms by (simp add: js_eval exec_defs Let_def idle_def)

section \<open>Properties\<close>

definition client0 :: OAuthClient where
  "client0 = \<lparr>oc_client_id = lit ''c'', oc_name = lit ''n'', oc_client_type = Web,
     oc_redirect_uris = [lit ''u'', lit ''v''], oc_allowed_scopes = [Openid], oc_enabled = True\<rparr>"

lemma encode_client0: "encodeURIComponent (lit ''c'') = Some (lit ''c'')"
  by (simp add: encodeURIComponent_def lit_def is_high_def is_low_def encode_point_def unreserved_def)

definition clients_page0 :: clients_page where
  "clients_page0 = admin_shell.extend (admin_api.extend
     (admin_api0\<lparr>adm_authenticated := True, adm_csrfToken := lit ''t'', adm_oauthClients := [client0]\<rparr>)
       (admin_shell.fields [] (lit ''/admin/clients'')))
     (clients_page.fields True View_editor None False None blankEditorForm True)"

lemmas clients_page0_eval =
  clients_page0_def admin_shell.defs admin_api.defs clients_page.defs admin_api0_def

text \<open>
  C17: saving a client ends after at most two answers, never throws, and its outcome is determined by
  them. While another save runs it does nothing; without a name or a redirect URI it only shows what
  is missing; without a session or with an identifier that cannot be encoded nothing is sent.
  Otherwise the first request updates the selected client, or creates one, with the trimmed name,
  the redirect URIs, scopes and flags of the form. A returned client replaces the one of its
  identifier in the list and closes the drawer; a returned new client is appended and selected, and
  its secret, if the answer has one, is kept and shown in the open drawer, which is closed otherwise.
  With any other answers the drawer, its view, the selection and the secret stay as they were, with
  one error message. The form is never changed and \<open>saving\<close> is reset.
\<close>

theorem saveClient_outcome:
  assumes "2 \<le> length rs"
  shows "\<exists>qs s' m. run saveClient rs s = (qs, s', [m]) \<and> outcome m = Some (Inr ()) \<and>
    (if clp_saving s then qs = [] \<and> s' = s
     else if trim (em_name (clp_editorForm s)) = [] then
       qs = [] \<and> s' = admin_notify (Failure M_client_enter_name) s
     else if redirectUris (clp_editorForm s) = [] then
       qs = [] \<and> s' = admin_notify (Failure M_client_enter_uri) s
     else \<not> clp_saving s' \<and> clp_editorForm s' = clp_editorForm s \<and>
       (case client_save_request s of
          None \<Rightarrow> qs = [] \<and> client_unsaved s s'
        | Some (method, path, body) \<Rightarrow>
            (\<exists>rq. hd qs = Fetch rq \<and> rq_method rq = method \<and> rq_path rq = path \<and> rq_body rq = Some body) \<and>
            client_save_outcome rs s s'))"
proof -
  from assms obtain r1 r2 rest where rs: "rs = r1 # r2 # rest"
    by (auto simp: Suc_le_length_iff numeral_2_eq_2)
  consider (invalid) "clp_saving s \<or> trim (em_name (clp_editorForm s)) = [] \<or> redirectUris (clp_editorForm s) = []"
    | (valid) "\<not> clp_saving s" "trim (em_name (clp_editorForm s)) \<noteq> []" "redirectUris (clp_editorForm s) \<noteq> []"
    by blast
  then show ?thesis
  proof cases
    case invalid
    then show ?thesis
      by (auto simp: saveClient_def async_defs exec_defs)
  next
    case valid
    from saveClient_run [OF this, of r1 r2 rest] valid show ?thesis
      unfolding rs by simp
  qed
qed

theorem saveClient_outcome_witness:
  "\<exists>qs s' m. run saveClient
      [Responded \<lparr>rs_status = 200, rs_statusText = []\<rparr>,
       Json (P_client_created \<lparr>ccr_client = client0, ccr_client_secret = Some (lit ''s'')\<rparr>)]
      (clients_page0\<lparr>clp_editorForm := editor_form_of client0\<rparr>) = (qs, s', [m]) \<and>
     adm_oauthClients s' = [client0, client0] \<and> secret_shown s' \<and>
     clp_secret s' = Some \<lparr>csr_client_id = lit ''c'', csr_client_secret = lit ''s''\<rparr>"
proof -
  let ?s = "clients_page0\<lparr>clp_editorForm := editor_form_of client0\<rparr>"
  let ?x = "\<lparr>ccr_client = client0, ccr_client_secret = Some (lit ''s'')\<rparr>"
  let ?rs = "[Responded \<lparr>rs_status = 200, rs_statusText = []\<rparr>, Json (P_client_created ?x)]"
  have "redirectUris (editor_form_of client0) = oc_redirect_uris client0"
    using editor_uris_kept [of client0 clients_page0]
    by (simp add: client_openEditor_def client0_def clean_item_def trimmed_def lit_def is_ws_def)
  then have form: "\<not> clp_saving ?s" "trim (em_name (clp_editorForm ?s)) \<noteq> []"
    "redirectUris (clp_editorForm ?s) \<noteq> []"
    by (simp_all add: clients_page0_eval editor_form_of_def client0_def trim_eval)
  have "client_save_request ?s \<noteq> None" "\<not> truthy (clp_selectedClientId ?s)"
    "adm_oauthClients ?s = [client0]"
    by (simp_all add: client_save_request_def clients_page0_eval admin_tokenReady_def truthy_def)
  moreover have "returned ?rs = Some (P_client_created ?x)"
    by (simp add: returned_def response_ok_def)
  moreover have "truthy (ccr_client_secret ?x)" "oc_client_id client0 = lit ''c''"
    by (simp_all add: truthy_def client0_def)
  ultimately show ?thesis
    using saveClient_outcome [of ?rs ?s] form
    by (auto simp: client_save_outcome_def client_created_def)
qed

end
