(* ===== verification/Directory_Page.thy ===== *)
theory Directory_Page
  imports Admin_Shell Editors
begin

text \<open>
  The page of the directory, \<open>portal/web/app/pages/admin/directory.vue\<close>, over its editors
  (\<open>Editors\<close>) and tables (\<open>Tables\<close>): organizational units, users and groups. Handlers read the
  reactive state where the code reads it, which matters after an \<open>await\<close>. The two collations of
  \<open>localeCompare\<close> are parameters, as in \<open>Ou_Tree\<close>. \<open>directory_calls\<close> are the events of the page:
  a click on a row of a table opens an editor at any time, as the tables ignore \<open>busy\<close> there, and
  a form whose submit button is disabled cannot be submitted.
\<close>

section \<open>State\<close>

datatype EditorKey = Ed_ou | Ed_user | Ed_group

record directory_page = admin_shell +
  dir_selectedOuId :: "jsstr option"
  dir_activeTab :: jsstr
  dir_editor :: "EditorKey option"
  dir_saving :: bool
  dir_editingOuId :: "jsstr option"
  dir_editingUserId :: "jsstr option"
  dir_editingGroupId :: "jsstr option"
  dir_ouForm :: OuForm
  dir_userForm :: UserForm
  dir_groupForm :: GroupForm
  dir_resetPasswordTarget :: "UserRecord option"
  dir_resetPasswordValue :: jsstr

text \<open>The operator \<open>??\<close>, and \<open>?? ''\<close>.\<close>

definition nullish :: "'a option \<Rightarrow> 'a option \<Rightarrow> 'a option" where
  "nullish x y = (case x of None \<Rightarrow> y | Some v \<Rightarrow> Some v)"

definition orEmpty :: "jsstr option \<Rightarrow> jsstr" where
  "orEmpty x = (case x of None \<Rightarrow> [] | Some v \<Rightarrow> v)"

section \<open>Computed values\<close>

definition directory_busy :: "'z directory_page_scheme \<Rightarrow> bool" where
  "directory_busy s \<longleftrightarrow> dir_saving s \<or> 0 < adm_pending s"

definition treeItems ::
  "jsstr comparator \<Rightarrow> jsstr comparator \<Rightarrow> 'z directory_page_scheme \<Rightarrow> OuTreeItem list" where
  "treeItems names ids s = flattenOus names ids (adm_organizationalUnits s)"

definition treeData ::
  "jsstr comparator \<Rightarrow> jsstr comparator \<Rightarrow> 'z directory_page_scheme \<Rightarrow> OuTreeNode list" where
  "treeData names ids s = buildOuTree names ids (adm_organizationalUnits s)"

definition selectedOu :: "'z directory_page_scheme \<Rightarrow> OrganizationalUnit option" where
  "selectedOu s = find (\<lambda>ou. Some (ou_id ou) = dir_selectedOuId s) (adm_organizationalUnits s)"

definition selectedUsers :: "'z directory_page_scheme \<Rightarrow> UserRecord list" where
  "selectedUsers s =
     (if truthy (dir_selectedOuId s)
      then filter (\<lambda>user. Some (ur_organizational_unit_id user) = dir_selectedOuId s) (adm_users s)
      else [])"

definition selectedGroups :: "'z directory_page_scheme \<Rightarrow> GroupRecord list" where
  "selectedGroups s =
     (if truthy (dir_selectedOuId s)
      then filter (\<lambda>grp. Some (gr_organizational_unit_id grp) = dir_selectedOuId s) (adm_groups s)
      else [])"

definition selectedKeys :: "'z directory_page_scheme \<Rightarrow> jsstr list" where
  "selectedKeys s = (if truthy (dir_selectedOuId s) then [the (dir_selectedOuId s)] else [])"

definition set_selectedKeys :: "jsstr list \<Rightarrow> 'z directory_page_scheme \<Rightarrow> 'z directory_page_scheme" where
  "set_selectedKeys keys s =
     s\<lparr>dir_selectedOuId := (if keys = [] then None else Some (last keys))\<rparr>"

definition ouEditorOpen :: "'z directory_page_scheme \<Rightarrow> bool" where
  "ouEditorOpen s \<longleftrightarrow> dir_editor s = Some Ed_ou"

definition set_ouEditorOpen :: "bool \<Rightarrow> 'z directory_page_scheme \<Rightarrow> 'z directory_page_scheme" where
  "set_ouEditorOpen value s = (if \<not> value \<and> \<not> dir_saving s then s\<lparr>dir_editor := None\<rparr> else s)"

definition userEditorOpen :: "'z directory_page_scheme \<Rightarrow> bool" where
  "userEditorOpen s \<longleftrightarrow> dir_editor s = Some Ed_user"

definition set_userEditorOpen :: "bool \<Rightarrow> 'z directory_page_scheme \<Rightarrow> 'z directory_page_scheme" where
  "set_userEditorOpen value s = (if \<not> value \<and> \<not> dir_saving s then s\<lparr>dir_editor := None\<rparr> else s)"

definition groupEditorOpen :: "'z directory_page_scheme \<Rightarrow> bool" where
  "groupEditorOpen s \<longleftrightarrow> dir_editor s = Some Ed_group"

definition set_groupEditorOpen :: "bool \<Rightarrow> 'z directory_page_scheme \<Rightarrow> 'z directory_page_scheme" where
  "set_groupEditorOpen value s = (if \<not> value \<and> \<not> dir_saving s then s\<lparr>dir_editor := None\<rparr> else s)"

definition resetPasswordOpen :: "'z directory_page_scheme \<Rightarrow> bool" where
  "resetPasswordOpen s \<longleftrightarrow> dir_resetPasswordTarget s \<noteq> None"

definition set_resetPasswordOpen :: "bool \<Rightarrow> 'z directory_page_scheme \<Rightarrow> 'z directory_page_scheme" where
  "set_resetPasswordOpen value s =
     (if \<not> value \<and> \<not> dir_saving s
      then s\<lparr>dir_resetPasswordTarget := None, dir_resetPasswordValue := []\<rparr> else s)"

text \<open>The tabs of the right-hand side, and what is shown where there is nothing to list.\<close>

definition sectionOptions :: "(jsstr \<times> jsstr \<times> jsstr) list" where
  "sectionOptions = [(lit ''users'', [0x7528, 0x6237], lit ''ph:users''), (lit ''groups'', [0x5B89, 0x5168, 0x7EC4], lit ''ph:shield'')]"

definition ous_empty_state ::
  "jsstr comparator \<Rightarrow> jsstr comparator \<Rightarrow> 'z directory_page_scheme \<Rightarrow> (jsstr \<times> jsstr) option" where
  "ous_empty_state names ids s =
     (if 0 < length (treeData names ids s) then None
      else Some ([0x8FD8, 0x6CA1, 0x6709, 0x7EC4, 0x7EC7, 0x5355, 0x5143], ([0x5148, 0x521B, 0x5EFA] @ lit '' OU'' @ [0xFF0C, 0x518D, 0x7EF4, 0x62A4, 0x7528, 0x6237, 0x548C, 0x5B89, 0x5168, 0x7EC4, 0x3002])))"

definition selection_empty_state :: "'z directory_page_scheme \<Rightarrow> (jsstr \<times> jsstr) option" where
  "selection_empty_state s =
     (if selectedOu s \<noteq> None then None
      else Some ([0x8FD8, 0x6CA1, 0x6709, 0x9009, 0x62E9, 0x7EC4, 0x7EC7, 0x5355, 0x5143],
        if 0 < length (adm_organizationalUnits s)
        then ([0x5728, 0x5DE6, 0x4FA7] @ lit '' OU '' @ [0x6811, 0x4E2D, 0x9009, 0x62E9, 0x4E00, 0x4E2A] @ lit '' OU'' @ [0xFF0C, 0x67E5, 0x770B, 0x5B83, 0x7684, 0x7528, 0x6237, 0x548C, 0x5B89, 0x5168, 0x7EC4, 0x3002])
        else ([0x5148, 0x521B, 0x5EFA, 0x7B2C, 0x4E00, 0x4E2A] @ lit '' OU'' @ [0x3002])))"

text \<open>The watcher of the organizational units.\<close>

definition watch_ous ::
  "jsstr comparator \<Rightarrow> jsstr comparator \<Rightarrow> 'z directory_page_scheme \<Rightarrow> 'z directory_page_scheme" where
  "watch_ous names ids s =
     (if adm_organizationalUnits s = [] then s\<lparr>dir_selectedOuId := None\<rparr>
      else case find (\<lambda>ou. Some (ou_id ou) = dir_selectedOuId s) (adm_organizationalUnits s) of
        None \<Rightarrow> s\<lparr>dir_selectedOuId := Some (ou_id (sortOus names ids (adm_organizationalUnits s) ! 0))\<rparr>
      | Some _ \<Rightarrow> s)"

section \<open>Editors\<close>

definition openOuEditor ::
  "OrganizationalUnit option \<Rightarrow> jsstr option \<Rightarrow> 'z directory_page_scheme \<Rightarrow> 'z directory_page_scheme" where
  "openOuEditor ou parentId s =
     s\<lparr>dir_editingOuId := map_option ou_id ou, dir_editingUserId := None, dir_editingGroupId := None,
       dir_ouForm := blankOuForm\<lparr>of_id := orEmpty (map_option ou_id ou),
         of_name := orEmpty (map_option ou_name ou),
         of_parent_id := orEmpty (nullish (Option.bind ou ou_parent_id) parentId)\<rparr>,
       dir_editor := Some Ed_ou\<rparr>"

definition ouForNode :: "jsstr \<Rightarrow> 'z directory_page_scheme \<Rightarrow> OrganizationalUnit option" where
  "ouForNode nodeKey s = find (\<lambda>ou. ou_id ou = nodeKey) (adm_organizationalUnits s)"

text \<open>The parameter \<open>parentId\<close> defaults to the selected unit.\<close>

definition editOuNode :: "jsstr \<Rightarrow> 'z directory_page_scheme \<Rightarrow> 'z directory_page_scheme" where
  "editOuNode nodeKey s = (case ouForNode nodeKey s of
     None \<Rightarrow> s | Some ou \<Rightarrow> openOuEditor (Some ou) (dir_selectedOuId s) s)"

text \<open>
  \<open>runAction\<close> with an action that assigns a local variable of its caller: the value of the variable
  afterwards, \<open>initial\<close> when the action has failed.
\<close>

definition runActionFor ::
  "('z admin_api_scheme, 'a) prog \<Rightarrow> message option \<Rightarrow> 'a \<Rightarrow> ('z admin_api_scheme, 'a) prog" where
  "runActionFor action successMessage initial =
     catching
       (andThen action (\<lambda>x. seqThen
         (modify (\<lambda>s. case successMessage of None \<Rightarrow> s | Some m \<Rightarrow> admin_notify (Success m) s)) (Ret x)))
       (\<lambda>e. seqThen (modify (admin_notify (Failure (admin_requestErrorMessage e M_request_failed))))
         (Ret initial))"

lemma runActionFor_unit: "runActionFor m msg () = runAction m msg"
  by (simp add: runActionFor_def runAction_def async_defs)

definition show_user ::
  "UserRecord option \<Rightarrow> jsstr \<Rightarrow> 'z directory_page_scheme \<Rightarrow> 'z directory_page_scheme" where
  "show_user user employeeId s =
     s\<lparr>dir_editingUserId := map_option ur_employee_id user, dir_editingOuId := None,
       dir_editingGroupId := None,
       dir_userForm := blankUserForm\<lparr>uf_employee_id := employeeId,
         uf_username := orEmpty (map_option ur_username user),
         uf_display_name := orEmpty (map_option ur_display_name user),
         uf_surname := orEmpty (map_option ur_surname user),
         uf_given_name := orEmpty (map_option ur_given_name user),
         uf_email := orEmpty (Option.bind user ur_email),
         uf_mobile := orEmpty (Option.bind user ur_mobile),
         uf_organizational_unit_id :=
           orEmpty (nullish (map_option ur_organizational_unit_id user) (dir_selectedOuId s)),
         uf_status := (case user of None \<Rightarrow> Active | Some u \<Rightarrow> ur_status u)\<rparr>,
       dir_editor := Some Ed_user\<rparr>"

definition openUserEditor :: "UserRecord option \<Rightarrow> ('z directory_page_scheme, unit) prog" where
  "openUserEditor user = reading (\<lambda>s.
     if user = None \<and> \<not> truthy (dir_selectedOuId s) then Ret ()
     else case user of
       Some u \<Rightarrow> modify (show_user (Some u) (ur_employee_id u))
     | None \<Rightarrow>
         andThen
           (runActionFor
             (andThen (adminFetch (lit ''/api/admin/users/next-employee-id'') init0)
               (bodyAs (\<lambda>p. case p of P_employee_id i \<Rightarrow> Some i | _ \<Rightarrow> None)))
             None [])
           (\<lambda>nextEmployeeId. if nextEmployeeId = [] then Ret () else modify (show_user None nextEmployeeId)))"

definition openGroupEditor :: "GroupRecord option \<Rightarrow> 'z directory_page_scheme \<Rightarrow> 'z directory_page_scheme" where
  "openGroupEditor grp s =
     (if grp = None \<and> \<not> truthy (dir_selectedOuId s) then s
      else
        s\<lparr>dir_editingGroupId := map_option gr_id grp, dir_editingOuId := None, dir_editingUserId := None,
          dir_groupForm := blankGroupForm\<lparr>gf_id := orEmpty (map_option gr_id grp),
            gf_name := orEmpty (map_option gr_name grp),
            gf_organizational_unit_id :=
              orEmpty (nullish (map_option gr_organizational_unit_id grp) (dir_selectedOuId s)),
            gf_member_employee_ids :=
              orEmpty (map_option (\<lambda>g. join comma_space (gr_member_employee_ids g)) grp)\<rparr>,
          dir_editor := Some Ed_group\<rparr>)"

definition openResetPassword :: "UserRecord \<Rightarrow> 'z directory_page_scheme \<Rightarrow> 'z directory_page_scheme" where
  "openResetPassword user s = s\<lparr>dir_resetPasswordTarget := Some user, dir_resetPasswordValue := []\<rparr>"

section \<open>Saving\<close>

definition dir_set_saving :: "bool \<Rightarrow> 'z directory_page_scheme \<Rightarrow> 'z directory_page_scheme" where
  "dir_set_saving b s = s\<lparr>dir_saving := b\<rparr>"

definition ou_payload :: "OuForm \<Rightarrow> (jsstr \<times> json) list" where
  "ou_payload f = [(lit ''name'', JStr (of_name f)),
     (lit ''parent_id'', json_opt (nullable (of_parent_id f)))]"

definition close_editor :: "('z directory_page_scheme, unit) prog" where
  "close_editor = modify (\<lambda>s. s\<lparr>dir_editor := None\<rparr>)"

definition save_ou_action :: "('z directory_page_scheme, unit) prog" where
  "save_ou_action = reading (\<lambda>s.
     let payload = ou_payload (dir_ouForm s) in
     seqThen
       (if truthy (dir_editingOuId s) then
          withSegment (the (dir_editingOuId s)) (\<lambda>e.
            void (adminFetch (lit ''/api/admin/ous/'' @ e) (init_body PATCH (JObj payload))))
        else
          seqThen
            (adminFetch (lit ''/api/admin/ous'')
              (init_body POST (JObj ((lit ''id'', JStr (of_id (dir_ouForm s))) # payload))))
            (modify (\<lambda>s. s\<lparr>dir_selectedOuId := Some (of_id (dir_ouForm s))\<rparr>)))
       (seqThen (promiseAll [loadOus, loadSyncDomains]) close_editor))"

definition saveOu :: "('z directory_page_scheme, unit) prog" where
  "saveOu = withFlag dir_set_saving (reading (\<lambda>s.
     runAction save_ou_action
       (Some (if truthy (dir_editingOuId s) then M_ou_updated else M_ou_created))))"

definition remove_ou_action :: "OrganizationalUnit \<Rightarrow> ('z directory_page_scheme, unit) prog" where
  "remove_ou_action ou =
     withSegment (ou_id ou) (\<lambda>e.
       seqThen (adminFetch (lit ''/api/admin/ous/'' @ e) (init_of DELETE))
         (seqThen
           (modify (\<lambda>s. if dir_selectedOuId s = Some (ou_id ou) then s\<lparr>dir_selectedOuId := None\<rparr> else s))
           (seqThen
             (modify (\<lambda>s. if dir_editingOuId s = Some (ou_id ou)
                then s\<lparr>dir_editor := None, dir_editingOuId := None\<rparr> else s))
             (promiseAll [loadOus, loadUsers, loadGroups, loadSyncDomains]))))"

definition ou_in_use :: "OrganizationalUnit \<Rightarrow> 'z directory_page_scheme \<Rightarrow> bool" where
  "ou_in_use ou s \<longleftrightarrow>
     list_ex (\<lambda>item. ou_parent_id item = Some (ou_id ou)) (adm_organizationalUnits s) \<or>
     list_ex (\<lambda>user. ur_organizational_unit_id user = ou_id ou) (adm_users s) \<or>
     list_ex (\<lambda>grp. gr_organizational_unit_id grp = ou_id ou) (adm_groups s)"

definition removeOu :: "OrganizationalUnit \<Rightarrow> ('z directory_page_scheme, unit) prog" where
  "removeOu ou = reading (\<lambda>s.
     if ou_in_use ou s then modify (admin_notify (Warning M_ou_not_empty))
     else andThen askConfirm (\<lambda>confirmed.
       if \<not> confirmed then Ret ()
       else withFlag dir_set_saving (runAction (remove_ou_action ou) (Some M_ou_deleted))))"

definition removeOuNode :: "jsstr \<Rightarrow> ('z directory_page_scheme, unit) prog" where
  "removeOuNode nodeKey = reading (\<lambda>s. case ouForNode nodeKey s of None \<Rightarrow> Ret () | Some ou \<Rightarrow> removeOu ou)"

definition user_payload :: "UserForm \<Rightarrow> (jsstr \<times> json) list" where
  "user_payload f =
     [(lit ''username'', JStr (uf_username f)), (lit ''display_name'', JStr (uf_display_name f)),
      (lit ''surname'', JStr (uf_surname f)), (lit ''given_name'', JStr (uf_given_name f)),
      (lit ''email'', json_opt (nullable (uf_email f))),
      (lit ''mobile'', json_opt (nullable (uf_mobile f))),
      (lit ''organizational_unit_id'', JStr (uf_organizational_unit_id f)),
      (lit ''status'', JStr (status_name (uf_status f)))]"

definition save_user_action :: "('z directory_page_scheme, unit) prog" where
  "save_user_action = reading (\<lambda>s.
     let payload = user_payload (dir_userForm s) in
     seqThen
       (if truthy (dir_editingUserId s) then
          withSegment (the (dir_editingUserId s)) (\<lambda>e.
            adminFetch (lit ''/api/admin/users/'' @ e) (init_body PATCH (JObj payload)))
        else
          adminFetch (lit ''/api/admin/users'')
            (init_body POST (JObj ((lit ''initial_password'', JStr (uf_initial_password (dir_userForm s))) # payload))))
       (seqThen
         (modify (\<lambda>s. s\<lparr>dir_selectedOuId := Some (uf_organizational_unit_id (dir_userForm s))\<rparr>))
         (seqThen (promiseAll [loadUsers, loadSyncDomains]) close_editor)))"

definition saveUser :: "('z directory_page_scheme, unit) prog" where
  "saveUser = withFlag dir_set_saving (reading (\<lambda>s.
     runAction save_user_action
       (Some (if truthy (dir_editingUserId s) then M_user_updated else M_user_created))))"

definition group_payload :: "GroupForm \<Rightarrow> (jsstr \<times> json) list" where
  "group_payload f = [(lit ''name'', JStr (gf_name f)),
     (lit ''organizational_unit_id'', JStr (gf_organizational_unit_id f))]"

definition put_members :: "jsstr \<Rightarrow> jsstr list \<Rightarrow> ('z admin_api_scheme, payload option) prog" where
  "put_members groupId members =
     withSegment groupId (\<lambda>e.
       adminFetch (lit ''/api/admin/groups/'' @ e @ lit ''/members'')
         (init_body PUT (JObj [(lit ''member_employee_ids'', JArr (map JStr members))])))"

text \<open>
  The second request reads \<open>editingGroupId\<close> or \<open>groupForm.id\<close> again; \<open>encodeURIComponent(null)\<close> is
  \<open>null\<close>.
\<close>

definition save_group_action :: "('z directory_page_scheme, unit) prog" where
  "save_group_action = reading (\<lambda>s.
     let payload = group_payload (dir_groupForm s);
         members = splitMembers (gf_member_employee_ids (dir_groupForm s)) in
     seqThen
       (if truthy (dir_editingGroupId s) then
          seqThen
            (withSegment (the (dir_editingGroupId s)) (\<lambda>e.
               adminFetch (lit ''/api/admin/groups/'' @ e) (init_body PATCH (JObj payload))))
            (reading (\<lambda>s. void (put_members
               (case dir_editingGroupId s of None \<Rightarrow> lit ''null'' | Some i \<Rightarrow> i) members)))
        else
          seqThen
            (adminFetch (lit ''/api/admin/groups'')
              (init_body POST (JObj ((lit ''id'', JStr (gf_id (dir_groupForm s))) # payload))))
            (if 0 < length members
             then reading (\<lambda>s. void (put_members (gf_id (dir_groupForm s)) members)) else Ret ()))
       (seqThen
         (modify (\<lambda>s. s\<lparr>dir_selectedOuId := Some (gf_organizational_unit_id (dir_groupForm s))\<rparr>))
         (seqThen (promiseAll [loadGroups, loadSyncDomains]) close_editor)))"

definition saveGroup :: "('z directory_page_scheme, unit) prog" where
  "saveGroup = withFlag dir_set_saving (reading (\<lambda>s.
     runAction save_group_action
       (Some (if truthy (dir_editingGroupId s) then M_group_updated else M_group_created))))"

definition remove_user_action :: "UserRecord \<Rightarrow> ('z directory_page_scheme, unit) prog" where
  "remove_user_action user =
     withSegment (ur_employee_id user) (\<lambda>e.
       seqThen (adminFetch (lit ''/api/admin/users/'' @ e) (init_of DELETE))
         (seqThen
           (modify (\<lambda>s. if dir_editingUserId s = Some (ur_employee_id user)
              then s\<lparr>dir_editor := None, dir_editingUserId := None\<rparr> else s))
           (seqThen
             (modify (\<lambda>s. if map_option ur_employee_id (dir_resetPasswordTarget s) = Some (ur_employee_id user)
                then s\<lparr>dir_resetPasswordTarget := None, dir_resetPasswordValue := []\<rparr> else s))
             (promiseAll [loadUsers, loadGroups, loadSyncDomains]))))"

definition removeUser :: "UserRecord \<Rightarrow> ('z directory_page_scheme, unit) prog" where
  "removeUser user = andThen askConfirm (\<lambda>confirmed.
     if \<not> confirmed then Ret ()
     else withFlag dir_set_saving (runAction (remove_user_action user) (Some M_user_deleted)))"

definition reset_password_action :: "UserRecord \<Rightarrow> ('z directory_page_scheme, unit) prog" where
  "reset_password_action target =
     withSegment (ur_employee_id target) (\<lambda>e. reading (\<lambda>s.
       seqThen
         (adminFetch (lit ''/api/admin/users/'' @ e @ lit ''/password-reset'')
           (init_body POST (JObj [(lit ''new_password'', JStr (dir_resetPasswordValue s))])))
         (seqThen loadSyncDomains
           (modify (\<lambda>s. s\<lparr>dir_resetPasswordTarget := None, dir_resetPasswordValue := []\<rparr>)))))"

definition resetUserPassword :: "('z directory_page_scheme, unit) prog" where
  "resetUserPassword = reading (\<lambda>s.
     case dir_resetPasswordTarget s of
       None \<Rightarrow> Ret ()
     | Some target \<Rightarrow>
         withFlag dir_set_saving (runAction (reset_password_action target) (Some M_password_reset)))"

section \<open>The editors and their drawers\<close>

definition page_ouEditor ::
  "jsstr comparator \<Rightarrow> jsstr comparator \<Rightarrow> 'z directory_page_scheme \<Rightarrow> OuForm editor" where
  "page_ouEditor names ids s = ouEditor (treeItems names ids s) (dir_editingOuId s)"

definition page_userEditor ::
  "jsstr comparator \<Rightarrow> jsstr comparator \<Rightarrow> 'z directory_page_scheme \<Rightarrow> UserForm editor" where
  "page_userEditor names ids s = userEditor (treeItems names ids s) (dir_editingUserId s) (dir_userForm s)"

definition page_groupEditor ::
  "jsstr comparator \<Rightarrow> jsstr comparator \<Rightarrow> 'z directory_page_scheme \<Rightarrow> GroupForm editor" where
  "page_groupEditor names ids s = groupEditor (treeItems names ids s) (dir_editingGroupId s)"

text \<open>The dialogue for a new password has an editor of one field, whose form is the text itself.\<close>

definition resetPasswordEditor :: "jsstr editor" where
  "resetPasswordEditor = EditorForm ''password-reset-form''
     [(text_field ''resetPasswordValue'' [0x65B0, 0x5BC6, 0x7801] (input_type ''password'') (\<lambda>f. f) (\<lambda>t _. t))
        \<lparr>fd_required := True\<rparr>]"

interpretation reset_password_editor: form_editor resetPasswordEditor "\<lambda>_. []"
  by (rule form_editorI) (simp_all add: resetPasswordEditor_def editor_defs)

definition resetPasswordText :: "'z directory_page_scheme \<Rightarrow> jsstr" where
  "resetPasswordText s =
     ([0x4E3A] @ lit '' '') @ orEmpty (map_option ur_display_name (dir_resetPasswordTarget s)) @
     [0xFF08] @ orEmpty (map_option ur_username (dir_resetPasswordTarget s)) @ [0xFF09, 0x8BBE, 0x7F6E, 0x65B0, 0x5BC6, 0x7801, 0x3002]"

definition ouDrawer :: "'z directory_page_scheme \<Rightarrow> drawer" where
  "ouDrawer s = \<lparr>dr_visible = ouEditorOpen s,
     dr_title = (if truthy (dir_editingOuId s) then ([0x7F16, 0x8F91] @ lit '' OU'') else ([0x65B0, 0x5EFA] @ lit '' OU'')),
     dr_blocked = dir_saving s, dr_close = cancel_text, dr_submit = Some (lit ''ou-form'', save_text)\<rparr>"

definition userDrawer :: "'z directory_page_scheme \<Rightarrow> drawer" where
  "userDrawer s = \<lparr>dr_visible = userEditorOpen s,
     dr_title = (if truthy (dir_editingUserId s) then [0x7F16, 0x8F91, 0x7528, 0x6237] else [0x65B0, 0x5EFA, 0x7528, 0x6237]),
     dr_blocked = dir_saving s, dr_close = cancel_text, dr_submit = Some (lit ''user-form'', save_text)\<rparr>"

definition resetPasswordModal :: "'z directory_page_scheme \<Rightarrow> drawer" where
  "resetPasswordModal s = \<lparr>dr_visible = resetPasswordOpen s, dr_title = [0x91CD, 0x7F6E, 0x5BC6, 0x7801],
     dr_blocked = dir_saving s, dr_close = cancel_text,
     dr_submit = Some (lit ''password-reset-form'', [0x91CD, 0x7F6E])\<rparr>"

definition groupDrawer :: "'z directory_page_scheme \<Rightarrow> drawer" where
  "groupDrawer s = \<lparr>dr_visible = groupEditorOpen s,
     dr_title = (if truthy (dir_editingGroupId s) then [0x7F16, 0x8F91, 0x5B89, 0x5168, 0x7EC4] else [0x65B0, 0x5EFA, 0x5B89, 0x5168, 0x7EC4]),
     dr_blocked = dir_saving s, dr_close = cancel_text, dr_submit = Some (lit ''group-form'', save_text)\<rparr>"

lemma directory_forms_submitted [simp]:
  "drawer_submits (ouDrawer s) (page_ouEditor names ids s) \<longleftrightarrow> ouEditorOpen s \<and> \<not> dir_saving s"
  "drawer_submits (userDrawer s) (page_userEditor names ids s) \<longleftrightarrow> userEditorOpen s \<and> \<not> dir_saving s"
  "drawer_submits (groupDrawer s) (page_groupEditor names ids s) \<longleftrightarrow> groupEditorOpen s \<and> \<not> dir_saving s"
  "drawer_submits (resetPasswordModal s) resetPasswordEditor \<longleftrightarrow> resetPasswordOpen s \<and> \<not> dir_saving s"
  by (simp_all add: drawer_submits_def drawer_has_form_def ouDrawer_def userDrawer_def groupDrawer_def
      resetPasswordModal_def page_ouEditor_def page_userEditor_def page_groupEditor_def ouEditor_def
      userEditor_def groupEditor_def resetPasswordEditor_def EditorForm_def)

text \<open>A change of a field of an editor.\<close>

definition ou_edit ::
  "jsstr comparator \<Rightarrow> jsstr comparator \<Rightarrow> nat \<Rightarrow> input_value \<Rightarrow> 'z directory_page_scheme \<Rightarrow>
   'z directory_page_scheme" where
  "ou_edit names ids n v s = s\<lparr>dir_ouForm := edit_form (page_ouEditor names ids s) n v (dir_ouForm s)\<rparr>"

definition user_edit ::
  "jsstr comparator \<Rightarrow> jsstr comparator \<Rightarrow> nat \<Rightarrow> input_value \<Rightarrow> 'z directory_page_scheme \<Rightarrow>
   'z directory_page_scheme" where
  "user_edit names ids n v s = s\<lparr>dir_userForm := edit_form (page_userEditor names ids s) n v (dir_userForm s)\<rparr>"

definition group_edit ::
  "jsstr comparator \<Rightarrow> jsstr comparator \<Rightarrow> nat \<Rightarrow> input_value \<Rightarrow> 'z directory_page_scheme \<Rightarrow>
   'z directory_page_scheme" where
  "group_edit names ids n v s =
     s\<lparr>dir_groupForm := edit_form (page_groupEditor names ids s) n v (dir_groupForm s)\<rparr>"

definition reset_password_edit ::
  "nat \<Rightarrow> input_value \<Rightarrow> 'z directory_page_scheme \<Rightarrow> 'z directory_page_scheme" where
  "reset_password_edit n v s =
     s\<lparr>dir_resetPasswordValue := edit_form resetPasswordEditor n v (dir_resetPasswordValue s)\<rparr>"

section \<open>Events\<close>

definition users_shown :: "'z directory_page_scheme \<Rightarrow> bool" where
  "users_shown s \<longleftrightarrow> admin_tokenReady s \<and> selectedOu s \<noteq> None \<and> dir_activeTab s = lit ''users''"

definition groups_shown :: "'z directory_page_scheme \<Rightarrow> bool" where
  "groups_shown s \<longleftrightarrow> admin_tokenReady s \<and> selectedOu s \<noteq> None \<and> dir_activeTab s \<noteq> lit ''users''"

text \<open>Events that only change the state of the page, and those that start a handler.\<close>

inductive directory_updates ::
  "jsstr comparator \<Rightarrow> jsstr comparator \<Rightarrow> 'z directory_page_scheme \<Rightarrow>
   ('z directory_page_scheme \<Rightarrow> 'z directory_page_scheme) \<Rightarrow> bool"
  for names :: "jsstr comparator" and ids :: "jsstr comparator" where
  "directory_updates names ids s (watch_ous names ids)"
| "admin_tokenReady s \<Longrightarrow> \<not> directory_busy s \<Longrightarrow>
    directory_updates names ids s (\<lambda>s. openOuEditor None (dir_selectedOuId s) s)"
| "admin_tokenReady s \<Longrightarrow> directory_updates names ids s (set_selectedKeys keys)"
| "admin_tokenReady s \<Longrightarrow> \<not> directory_busy s \<Longrightarrow> directory_updates names ids s (editOuNode k)"
| "admin_tokenReady s \<Longrightarrow> selectedOu s \<noteq> None \<Longrightarrow> t \<in> set (map fst sectionOptions) \<Longrightarrow>
    directory_updates names ids s (\<lambda>s. s\<lparr>dir_activeTab := t\<rparr>)"
| "admin_tokenReady s \<Longrightarrow> selectedOu s \<noteq> None \<Longrightarrow> dir_activeTab s = lit ''groups'' \<Longrightarrow>
    \<not> directory_busy s \<Longrightarrow> directory_updates names ids s (openGroupEditor None)"
| "groups_shown s \<Longrightarrow> Emit_edit g \<in> set (table_emits (groupTable (directory_busy s)) (selectedGroups s)) \<Longrightarrow>
    directory_updates names ids s (openGroupEditor (Some g))"
| "users_shown s \<Longrightarrow> Emit_resetPassword u \<in> set (table_emits (userTable (directory_busy s)) (selectedUsers s)) \<Longrightarrow>
    directory_updates names ids s (openResetPassword u)"
| "ouEditorOpen s \<Longrightarrow> directory_updates names ids s (ou_edit names ids n v)"
| "userEditorOpen s \<Longrightarrow> directory_updates names ids s (user_edit names ids n v)"
| "groupEditorOpen s \<Longrightarrow> directory_updates names ids s (group_edit names ids n v)"
| "resetPasswordOpen s \<Longrightarrow> directory_updates names ids s (reset_password_edit n v)"
| "directory_updates names ids s (set_ouEditorOpen b)"
| "directory_updates names ids s (set_userEditorOpen b)"
| "directory_updates names ids s (set_groupEditorOpen b)"
| "directory_updates names ids s (set_resetPasswordOpen b)"

inductive directory_calls ::
  "jsstr comparator \<Rightarrow> jsstr comparator \<Rightarrow> 'z directory_page_scheme \<Rightarrow>
   ('z directory_page_scheme, unit) prog \<Rightarrow> bool"
  for names :: "jsstr comparator" and ids :: "jsstr comparator" where
  "shell_calls s m \<Longrightarrow> directory_calls names ids s m"
| "directory_updates names ids s f \<Longrightarrow> directory_calls names ids s (modify f)"
| "admin_tokenReady s \<Longrightarrow> directory_calls names ids s refreshDirectory"
| "admin_tokenReady s \<Longrightarrow> \<not> directory_busy s \<Longrightarrow> directory_calls names ids s (removeOuNode k)"
| "admin_tokenReady s \<Longrightarrow> selectedOu s \<noteq> None \<Longrightarrow> dir_activeTab s \<noteq> lit ''groups'' \<Longrightarrow>
    \<not> directory_busy s \<Longrightarrow> directory_calls names ids s (openUserEditor None)"
| "users_shown s \<Longrightarrow> Emit_edit u \<in> set (table_emits (userTable (directory_busy s)) (selectedUsers s)) \<Longrightarrow>
    directory_calls names ids s (openUserEditor (Some u))"
| "users_shown s \<Longrightarrow> Emit_remove u \<in> set (table_emits (userTable (directory_busy s)) (selectedUsers s)) \<Longrightarrow>
    directory_calls names ids s (removeUser u)"
| "drawer_submits (ouDrawer s) (page_ouEditor names ids s) \<Longrightarrow> directory_calls names ids s saveOu"
| "drawer_submits (userDrawer s) (page_userEditor names ids s) \<Longrightarrow> directory_calls names ids s saveUser"
| "drawer_submits (groupDrawer s) (page_groupEditor names ids s) \<Longrightarrow> directory_calls names ids s saveGroup"
| "drawer_submits (resetPasswordModal s) resetPasswordEditor \<Longrightarrow> directory_calls names ids s resetUserPassword"

lemmas directory_updates_defs =
  watch_ous_def openOuEditor_def set_selectedKeys_def editOuNode_def openGroupEditor_def
  openResetPassword_def ou_edit_def user_edit_def group_edit_def reset_password_edit_def set_ouEditorOpen_def
  set_userEditorOpen_def set_groupEditorOpen_def set_resetPasswordOpen_def show_user_def

lemmas directory_ops =
  runActionFor_def openUserEditor_def close_editor_def save_ou_action_def saveOu_def
  remove_ou_action_def removeOu_def removeOuNode_def save_user_action_def saveUser_def put_members_def
  save_group_action_def saveGroup_def remove_user_action_def removeUser_def reset_password_action_def
  resetUserPassword_def

lemmas directory_defs [js_eval] = directory_ops dir_set_saving_def ou_payload_def user_payload_def
  group_payload_def json_opt_def orEmpty_def nullish_def

section \<open>Obligations\<close>

lemma dir_load_flags [simp]:
  "load_flag_set f (s\<lparr>dir_selectedOuId := a\<rparr>) = load_flag_set f s"
  "load_flag_set f (s\<lparr>dir_activeTab := t\<rparr>) = load_flag_set f s"
  "load_flag_set f (s\<lparr>dir_editor := e\<rparr>) = load_flag_set f s"
  "load_flag_set f (s\<lparr>dir_saving := b\<rparr>) = load_flag_set f s"
  "load_flag_set f (s\<lparr>dir_editingOuId := a\<rparr>) = load_flag_set f s"
  "load_flag_set f (s\<lparr>dir_editingUserId := a\<rparr>) = load_flag_set f s"
  "load_flag_set f (s\<lparr>dir_editingGroupId := a\<rparr>) = load_flag_set f s"
  "load_flag_set f (s\<lparr>dir_ouForm := fo\<rparr>) = load_flag_set f s"
  "load_flag_set f (s\<lparr>dir_userForm := fu\<rparr>) = load_flag_set f s"
  "load_flag_set f (s\<lparr>dir_groupForm := fg\<rparr>) = load_flag_set f s"
  "load_flag_set f (s\<lparr>dir_resetPasswordTarget := r\<rparr>) = load_flag_set f s"
  "load_flag_set f (s\<lparr>dir_resetPasswordValue := v\<rparr>) = load_flag_set f s"
  by (cases f; simp)+

lemma dir_session_wf [simp]:
  "session_wf (s\<lparr>dir_selectedOuId := a\<rparr>) = session_wf s"
  "session_wf (s\<lparr>dir_activeTab := t\<rparr>) = session_wf s"
  "session_wf (s\<lparr>dir_editor := e\<rparr>) = session_wf s"
  "session_wf (s\<lparr>dir_saving := b\<rparr>) = session_wf s"
  "session_wf (s\<lparr>dir_editingOuId := a\<rparr>) = session_wf s"
  "session_wf (s\<lparr>dir_editingUserId := a\<rparr>) = session_wf s"
  "session_wf (s\<lparr>dir_editingGroupId := a\<rparr>) = session_wf s"
  "session_wf (s\<lparr>dir_ouForm := fo\<rparr>) = session_wf s"
  "session_wf (s\<lparr>dir_userForm := fu\<rparr>) = session_wf s"
  "session_wf (s\<lparr>dir_groupForm := fg\<rparr>) = session_wf s"
  "session_wf (s\<lparr>dir_resetPasswordTarget := r\<rparr>) = session_wf s"
  "session_wf (s\<lparr>dir_resetPasswordValue := v\<rparr>) = session_wf s"
  by (simp_all add: session_wf_def)

text \<open>An update of the page changes nothing that the session knows.\<close>

lemma show_user_same [simp]:
  "adm_pending (show_user u i s) = adm_pending s"
  "load_flag_set f (show_user u i s) = load_flag_set f s"
  "session_wf (show_user u i s) = session_wf s"
  "dir_saving (show_user u i s) = dir_saving s"
  by (simp_all add: show_user_def)

lemma directory_updates_same:
  "directory_updates names ids s0 g \<Longrightarrow>
    adm_pending (g s) = adm_pending s \<and> load_flag_set f (g s) = load_flag_set f s \<and>
    session_wf (g s) = session_wf s \<and> dir_saving (g s) = dir_saving s"
  by (induction rule: directory_updates.induct) (auto simp: directory_updates_defs split: option.splits)

lemma directory_calls_obey: "directory_calls names ids s m \<Longrightarrow> obeys admin_ok admin_may {#} m {#}"
  by (induction rule: directory_calls.induct)
    (auto simp: directory_ops dir_set_saving_def directory_updates_same Let_def
      intro!: obeys_intro intro: shell_calls_obey split: option.splits)

lemma directory_calls_loads: "directory_calls names ids s m \<Longrightarrow> loads_of {#} m"
  by (induction rule: directory_calls.induct)
    (auto simp: directory_ops dir_set_saving_def directory_updates_same Let_def
      intro!: obeys_intro intro: shell_calls_loads split: option.splits if_splits)

lemma directory_calls_keep: "directory_calls names ids s m \<Longrightarrow> wf_kept m"
  by (induction rule: directory_calls.induct)
    (auto simp: directory_ops dir_set_saving_def directory_updates_same Let_def
      intro!: obeys_intro intro: shell_calls_keep split: option.splits)

interpretation directory_page: admin_page "directory_calls names ids"
  by unfold_locales (fact directory_calls_obey directory_calls_loads directory_calls_keep)+

lemma directory_calls_enter:
  "directory_calls names ids s m \<Longrightarrow> may_enter adm_pending credential_query s m"
proof (induction rule: directory_calls.induct)
  case (1 s m)
  then show ?case by (rule shell_calls_enter)
qed (auto simp: directory_ops refreshDirectory_def dir_set_saving_def directory_updates_same Let_def
    session_path_def lit_def intro!: enters_never obeys_intro enters_not_fetch split: option.splits if_splits)

interpretation directory_entry: single_entry adm_pending credential_query "directory_calls names ids"
  by unfold_locales (rule directory_calls_enter)

section \<open>The saving flag\<close>

abbreviation directory_saves :: "unit multiset \<Rightarrow> ('z directory_page_scheme, 'a) prog \<Rightarrow> bool" where
  "directory_saves G m \<equiv> obeys anywhere (flag_may (\<lambda>_. dir_saving)) G m G"

interpretation directory_frame:
  shell_frame anywhere "flag_may (\<lambda>_ :: unit. dir_saving)" "dir_saving :: 'z directory_page_scheme \<Rightarrow> _" "\<lambda>_. False"
  by unfold_locales (auto simp: flag_may_def anywhere_def)

lemma directory_saves_withFlag:
  "(\<And>G. directory_saves G m) \<Longrightarrow> directory_saves G (withFlag dir_set_saving m)"
  by (rule flag_withFlag [where f = "()"]) (auto simp: dir_set_saving_def)

lemma directory_calls_saves: "directory_calls names ids s m \<Longrightarrow> directory_saves {#} m"
proof (induction rule: directory_calls.induct)
  case (1 s m)
  then show ?case by (rule directory_frame.frame_shell)
qed (auto simp: directory_ops directory_updates_same Let_def
      intro!: obeys_intro directory_saves_withFlag directory_frame.frame_ops
        directory_frame.frame_adminFetch split: option.splits if_splits)

interpretation directory_saving: flagged "\<lambda>_ :: unit. dir_saving" "directory_calls names ids"
  by unfold_locales (rule directory_calls_saves)

section \<open>Which object is edited\<close>

text \<open>
  At most one object is being edited, it is of the kind of the open editor, and the form has its
  identifier. (An empty identifier counts as none for the editors.)
\<close>

definition editing_wf :: "'z directory_page_scheme \<Rightarrow> bool" where
  "editing_wf s \<longleftrightarrow>
     (dir_editingOuId s \<noteq> None \<longrightarrow> dir_editingUserId s = None \<and> dir_editingGroupId s = None \<and>
        dir_editor s \<in> {None, Some Ed_ou}) \<and>
     (dir_editingUserId s \<noteq> None \<longrightarrow> dir_editingGroupId s = None \<and> dir_editor s \<in> {None, Some Ed_user}) \<and>
     (dir_editingGroupId s \<noteq> None \<longrightarrow> dir_editor s \<in> {None, Some Ed_group}) \<and>
     (truthy (dir_editingOuId s) \<longrightarrow> Some (of_id (dir_ouForm s)) = dir_editingOuId s) \<and>
     (truthy (dir_editingUserId s) \<longrightarrow> Some (uf_employee_id (dir_userForm s)) = dir_editingUserId s) \<and>
     (truthy (dir_editingGroupId s) \<longrightarrow> Some (gf_id (dir_groupForm s)) = dir_editingGroupId s)"

lemma editing_wfD:
  assumes "editing_wf s"
  shows "length (filter (\<lambda>x. x \<noteq> None) [dir_editingOuId s, dir_editingUserId s, dir_editingGroupId s]) \<le> 1"
    and "ouEditorOpen s \<longrightarrow> dir_editingUserId s = None \<and> dir_editingGroupId s = None"
    and "userEditorOpen s \<longrightarrow> dir_editingOuId s = None \<and> dir_editingGroupId s = None"
    and "groupEditorOpen s \<longrightarrow> dir_editingOuId s = None \<and> dir_editingUserId s = None"
    and "truthy (dir_editingOuId s) \<longrightarrow> Some (of_id (dir_ouForm s)) = dir_editingOuId s"
    and "truthy (dir_editingUserId s) \<longrightarrow> Some (uf_employee_id (dir_userForm s)) = dir_editingUserId s"
    and "truthy (dir_editingGroupId s) \<longrightarrow> Some (gf_id (dir_groupForm s)) = dir_editingGroupId s"
  using assms by (auto simp: editing_wf_def ouEditorOpen_def userEditorOpen_def groupEditorOpen_def)

interpretation editing_frame:
  shell_frame anywhere "keeps editing_wf" "editing_wf :: 'z directory_page_scheme \<Rightarrow> _" "\<lambda>_. False"
  by unfold_locales (auto simp: keeps_def anywhere_def editing_wf_def)

lemma editing_same [simp]:
  "editing_wf (s\<lparr>dir_saving := b\<rparr>) = editing_wf s"
  "editing_wf (s\<lparr>dir_selectedOuId := a\<rparr>) = editing_wf s"
  "editing_wf (s\<lparr>dir_activeTab := t\<rparr>) = editing_wf s"
  "editing_wf (s\<lparr>dir_resetPasswordTarget := r\<rparr>) = editing_wf s"
  "editing_wf (s\<lparr>dir_resetPasswordValue := v\<rparr>) = editing_wf s"
  by (simp_all add: editing_wf_def)

lemma editing_steps:
  "editing_wf s \<Longrightarrow> editing_wf (s\<lparr>dir_editor := None\<rparr>)"
  "editing_wf s \<Longrightarrow> editing_wf (s\<lparr>dir_editor := None, dir_editingOuId := None\<rparr>)"
  "editing_wf s \<Longrightarrow> editing_wf (s\<lparr>dir_editor := None, dir_editingUserId := None\<rparr>)"
  "editing_wf (openOuEditor ou p s)" "editing_wf (show_user (Some u) (ur_employee_id u) s)"
  "editing_wf (show_user None i s)" "editing_wf s \<Longrightarrow> editing_wf (openGroupEditor g s)"
  by (auto simp: editing_wf_def openOuEditor_def show_user_def openGroupEditor_def orEmpty_def truthy_def
      split: option.splits)

lemma editing_edits:
  "editing_wf s \<Longrightarrow> editing_wf (ou_edit names ids n v s)"
  "editing_wf s \<Longrightarrow> editing_wf (user_edit names ids n v s)"
  "editing_wf s \<Longrightarrow> editing_wf (group_edit names ids n v s)"
  by (auto simp: editing_wf_def ou_edit_def user_edit_def group_edit_def page_ouEditor_def page_userEditor_def
      page_groupEditor_def ou_id_fixed user_id_fixed group_id_fixed)

lemma directory_updates_editing:
  "directory_updates names ids s0 g \<Longrightarrow> editing_wf s \<Longrightarrow> editing_wf (g s)"
  by (induction rule: directory_updates.induct)
    (auto simp: watch_ous_def set_selectedKeys_def editOuNode_def openResetPassword_def
      reset_password_edit_def set_ouEditorOpen_def set_userEditorOpen_def set_groupEditorOpen_def
      set_resetPasswordOpen_def editing_steps editing_edits split: option.splits)

lemma directory_calls_editing:
  "directory_calls names ids s m \<Longrightarrow> obeys anywhere (keeps editing_wf) {#} m {#}"
proof (induction rule: directory_calls.induct)
  case (1 s m)
  then show ?case by (rule editing_frame.frame_shell)
qed (auto simp: directory_ops dir_set_saving_def Let_def editing_steps directory_updates_editing
      intro!: obeys_intro editing_frame.frame_sessions editing_frame.frame_loads
        editing_frame.frame_runAction editing_frame.frame_adminFetch split: option.splits if_splits)

interpretation directory_editing: state_invariant editing_wf "directory_calls names ids"
  by unfold_locales (rule directory_calls_editing)

section \<open>Selection\<close>

lemma sortOus_first:
  assumes "ous \<noteq> []"
  shows "sortOus names ids ous ! 0 \<in> set ous \<and>
    (\<forall>ou \<in> set ous. compare (ou_order names ids) (sortOus names ids ous ! 0) ou \<noteq> Greater)"
proof -
  have ne: "sortOus names ids ous \<noteq> []"
    using assms by (metis set_empty set_sortOus)
  then obtain x xs where xs: "sortOus names ids ous = x # xs"
    by (cases "sortOus names ids ous") auto
  then have "sorted (ou_order names ids) (x # xs)"
    by (metis sorted_sort sortOus_def)
  then have "\<forall>y \<in> set xs. compare (ou_order names ids) x y \<noteq> Greater"
    by (auto simp: sorted_Cons_imp_not_less compare.greater_iff_sym_less dest: sorted_Cons_imp_not_less)
  moreover have "set ous = set (x # xs)"
    by (metis set_sortOus xs)
  ultimately show ?thesis
    by (simp add: xs)
qed

lemma selectedOu_None_iff:
  "selectedOu s = None \<longleftrightarrow> (\<forall>ou \<in> set (adm_organizationalUnits s). dir_selectedOuId s \<noteq> Some (ou_id ou))"
  by (auto simp: selectedOu_def find_None_iff)

section \<open>Properties\<close>

definition ou0 :: OrganizationalUnit where
  "ou0 = \<lparr>ou_id = lit ''o'', ou_name = lit ''n'', ou_parent_id = None, ou_changed_revision = 0\<rparr>"

definition group0 :: "jsstr \<Rightarrow> jsstr list \<Rightarrow> GroupRecord" where
  "group0 i ms = \<lparr>gr_id = i, gr_name = lit ''g'', gr_organizational_unit_id = lit ''o'',
     gr_member_employee_ids = ms, gr_changed_revision = 0\<rparr>"

definition directory_page0 :: directory_page where
  "directory_page0 = admin_shell.extend (admin_api.extend
     (admin_api0\<lparr>adm_authenticated := True, adm_csrfToken := lit ''t'', adm_organizationalUnits := [ou0],
        adm_groups := [group0 (lit ''a'') [lit ''m''], group0 (lit ''b'') []]\<rparr>)
       (admin_shell.fields [] (lit ''/admin/directory'')))
     (directory_page.fields (Some (lit ''o'')) (lit ''groups'') None False None None None blankOuForm
       blankUserForm blankGroupForm None [])"

lemmas directory_page0_eval =
  directory_page0_def admin_shell.defs admin_api.defs directory_page.defs admin_api0_def

lemma encode_examples:
  "encodeURIComponent (lit ''a'') = Some (lit ''a'')" "encodeURIComponent (lit ''b'') = Some (lit ''b'')"
  "encodeURIComponent (lit ''o'') = Some (lit ''o'')"
  by (simp_all add: encodeURIComponent_def lit_def is_high_def is_low_def encode_point_def unreserved_def)

lemma watch_ous_selection:
  "(if adm_organizationalUnits s = [] then dir_selectedOuId (watch_ous names ids s) = None
    else if selectedOu s \<noteq> None then watch_ous names ids s = s
    else \<exists>ou \<in> set (adm_organizationalUnits s). dir_selectedOuId (watch_ous names ids s) = Some (ou_id ou) \<and>
      (\<forall>ou' \<in> set (adm_organizationalUnits s). compare (ou_order names ids) ou ou' \<noteq> Greater)) \<and>
   (selectedOu (watch_ous names ids s) = None \<longleftrightarrow> adm_organizationalUnits s = [])"
proof (cases "adm_organizationalUnits s = [] \<or> selectedOu s \<noteq> None")
  case True
  then show ?thesis
    by (auto simp: watch_ous_def selectedOu_def split: option.splits)
next
  case False
  then have "watch_ous names ids s =
      s\<lparr>dir_selectedOuId := Some (ou_id (sortOus names ids (adm_organizationalUnits s) ! 0))\<rparr>"
    by (auto simp: watch_ous_def selectedOu_def split: option.splits)
  with False sortOus_first [of "adm_organizationalUnits s" names ids] show ?thesis
    by (auto simp: selectedOu_None_iff)
qed

text \<open>
  C22: the watcher leaves a valid selection alone. Otherwise it selects a unit that comes first among
  all units, roots or not, in the order by name and then identifier, or nothing when there are no
  units: afterwards a unit is selected exactly when there is one, and only without units the page
  shows a hint instead of users and groups.
\<close>

theorem watch_ous_selects:
  "(if adm_organizationalUnits s = [] then dir_selectedOuId (watch_ous names ids s) = None
    else if selectedOu s \<noteq> None then watch_ous names ids s = s
    else \<exists>ou \<in> set (adm_organizationalUnits s). dir_selectedOuId (watch_ous names ids s) = Some (ou_id ou) \<and>
      (\<forall>ou' \<in> set (adm_organizationalUnits s). compare (ou_order names ids) ou ou' \<noteq> Greater)) \<and>
   (selectedOu (watch_ous names ids s) = None \<longleftrightarrow> adm_organizationalUnits s = []) \<and>
   (selection_empty_state (watch_ous names ids s) = None \<longleftrightarrow> adm_organizationalUnits s \<noteq> [])"
proof -
  note * = watch_ous_selection [of s names ids]
  have "selection_empty_state (watch_ous names ids s) = None \<longleftrightarrow> adm_organizationalUnits s \<noteq> []"
    using conjunct2 [OF *] by (simp add: selection_empty_state_def)
  then show ?thesis
    by (rule conjI [OF conjunct1 [OF *] conjI [OF conjunct2 [OF *]]])
qed

theorem watch_ous_selects_witness:
  "dir_selectedOuId (watch_ous flat flat
     (directory_page0\<lparr>dir_selectedOuId := None\<rparr>)) = Some (lit ''o'')"
  using watch_ous_selects [of "directory_page0\<lparr>dir_selectedOuId := None\<rparr>"
      flat flat]
  by (simp add: directory_page0_eval selectedOu_def ou0_def)

text \<open>A deletion waits for its confirmation; only a consent sends the request.\<close>

lemma removeOu_confirmed:
  assumes "admin_tokenReady s" and "encodeURIComponent (ou_id ou) = Some e"
  shows "if ou_in_use ou s
    then \<exists>m. call (removeOu ou) (s, []) = (admin_notify (Warning M_ou_not_empty) s, [m]) \<and> finished m
    else \<exists>m. call (removeOu ou) (s, []) = (s, [m]) \<and> waits m = [Confirm] \<and>
      (case answer 0 (Confirmed b) (s, [m]) of (s', ms) \<Rightarrow>
         if b then dir_saving s' \<and>
           (\<exists>rq. pool_waits (s', ms) = [Fetch rq] \<and> rq_method rq = DELETE \<and>
              rq_path rq = lit ''/api/admin/ous/'' @ e)
         else s' = s \<and> idle (s', ms))"
  using assms by (simp add: js_eval exec_defs Let_def idle_def)

lemma removeUser_confirmed:
  assumes "admin_tokenReady s" and "encodeURIComponent (ur_employee_id u) = Some e"
  shows "\<exists>m. call (removeUser u) (s, []) = (s, [m]) \<and> waits m = [Confirm] \<and>
    (case answer 0 (Confirmed b) (s, [m]) of (s', ms) \<Rightarrow>
       if b then dir_saving s' \<and>
         (\<exists>rq. pool_waits (s', ms) = [Fetch rq] \<and> rq_method rq = DELETE \<and>
            rq_path rq = lit ''/api/admin/users/'' @ e)
       else s' = s \<and> idle (s', ms))"
  using assms by (simp add: js_eval exec_defs Let_def idle_def)

lemma openUserEditor_ensures:
  "ensures (openUserEditor None) (\<lambda>_ s' r. r = Inr () \<and>
     (s' = s \<or> truthy (dir_selectedOuId s) \<and>
       ((\<exists>i. i \<noteq> [] \<and> s' = show_user None i s) \<or>
        (\<exists>f. s' = admin_notify (Failure f) s \<or> s' = admin_notify (Failure f) (clearSession s))))) 2 s"
  by (auto simp: openUserEditor_def runActionFor_def intro!: ensures_mono [OF adminFetch_ensures]
      split: option.splits)

lemma saveOu_success:
  assumes "admin_tokenReady s"
    and "\<And>i. dir_editingOuId s = Some i \<Longrightarrow> i \<noteq> [] \<and> encodeURIComponent i = Some e"
    and "list_all (\<lambda>ok. response_ok ok \<and> rs_status ok \<noteq> 204) [k1, k2, k3]"
  shows "\<exists>rq qs s' m. run saveOu [Responded k1, Json p1, Responded k2, Json (P_ous xs), Responded k3,
      Json (P_sync sd)] s = (Fetch rq # qs, s', [m]) \<and> outcome m = Some (Inr ()) \<and>
    (if dir_editingOuId s = None then
       rq_method rq = POST \<and> rq_path rq = lit ''/api/admin/ous'' \<and>
       rq_body rq = Some (JObj ((lit ''id'', JStr (of_id (dir_ouForm s))) # ou_payload (dir_ouForm s))) \<and>
       dir_selectedOuId s' = Some (of_id (dir_ouForm s))
     else
       rq_method rq = PATCH \<and> rq_path rq = lit ''/api/admin/ous/'' @ e \<and>
       rq_body rq = Some (JObj (ou_payload (dir_ouForm s))) \<and> dir_selectedOuId s' = dir_selectedOuId s) \<and>
    adm_organizationalUnits s' = xs \<and> adm_syncDomains s' = sd \<and> dir_editor s' = None \<and> \<not> dir_saving s' \<and>
    adm_toasts s' = adm_toasts s @ [Success (if dir_editingOuId s = None then M_ou_created else M_ou_updated)]"
  using assms by (cases "dir_editingOuId s") (simp_all add: js_eval exec_defs Let_def)

lemma saveUser_success:
  assumes "admin_tokenReady s"
    and "\<And>i. dir_editingUserId s = Some i \<Longrightarrow> i \<noteq> [] \<and> encodeURIComponent i = Some e"
    and "list_all (\<lambda>ok. response_ok ok \<and> rs_status ok \<noteq> 204) [k1, k2, k3]"
  shows "\<exists>rq qs s' m. run saveUser [Responded k1, Json p1, Responded k2, Json (P_users us), Responded k3,
      Json (P_sync sd)] s = (Fetch rq # qs, s', [m]) \<and> outcome m = Some (Inr ()) \<and>
    (if dir_editingUserId s = None then
       rq_method rq = POST \<and> rq_path rq = lit ''/api/admin/users'' \<and>
       rq_body rq = Some (JObj ((lit ''initial_password'', JStr (uf_initial_password (dir_userForm s))) #
         user_payload (dir_userForm s)))
     else
       rq_method rq = PATCH \<and> rq_path rq = lit ''/api/admin/users/'' @ e \<and>
       rq_body rq = Some (JObj (user_payload (dir_userForm s)))) \<and>
    dir_selectedOuId s' = Some (uf_organizational_unit_id (dir_userForm s)) \<and>
    adm_users s' = us \<and> adm_syncDomains s' = sd \<and> dir_editor s' = None \<and> \<not> dir_saving s' \<and>
    adm_toasts s' = adm_toasts s @ [Success (if dir_editingUserId s = None then M_user_created else M_user_updated)]"
  using assms by (cases "dir_editingUserId s") (simp_all add: js_eval exec_defs Let_def)

lemma saveGroup_success:
  assumes "admin_tokenReady s" and "dir_editingGroupId s = Some i" and "i \<noteq> []"
    and "encodeURIComponent i = Some e"
    and "list_all (\<lambda>ok. response_ok ok \<and> rs_status ok \<noteq> 204) [k1, k2, k3, k4]"
  shows "\<exists>rq1 rq2 qs s' m. run saveGroup [Responded k1, Json p1, Responded k2, Json p2, Responded k3,
      Json (P_groups gs), Responded k4, Json (P_sync sd)] s = (Fetch rq1 # ReadJson # Fetch rq2 # qs, s', [m]) \<and>
    outcome m = Some (Inr ()) \<and>
    rq_method rq1 = PATCH \<and> rq_path rq1 = lit ''/api/admin/groups/'' @ e \<and>
    rq_body rq1 = Some (JObj (group_payload (dir_groupForm s))) \<and>
    rq_method rq2 = PUT \<and> rq_path rq2 = lit ''/api/admin/groups/'' @ e @ lit ''/members'' \<and>
    rq_body rq2 = Some (JObj [(lit ''member_employee_ids'',
      JArr (map JStr (splitMembers (gf_member_employee_ids (dir_groupForm s)))))]) \<and>
    adm_groups s' = gs \<and> adm_syncDomains s' = sd \<and> dir_editor s' = None \<and> \<not> dir_saving s' \<and>
    dir_selectedOuId s' = Some (gf_organizational_unit_id (dir_groupForm s)) \<and>
    adm_toasts s' = adm_toasts s @ [Success M_group_updated]"
  using assms by (simp add: js_eval exec_defs Let_def)

text \<open>
  C23: what saving in the directory sends and shows when all answers are good. A unit or user is
  created with one \<open>POST\<close> or changed with one \<open>PATCH\<close> to its encoded identifier, with the fields of
  the form (and the initial password of a new user only); an existing group gets its name and unit in a
  \<open>PATCH\<close> and then the members read from the form in a \<open>PUT\<close>. Then the collection and the
  synchronisation state are loaded again, the new unit, or the unit of the user or group, is
  selected, the editor is closed and success is reported.
\<close>

theorem directory_saves_succeed:
  assumes "admin_tokenReady s1" and "\<And>i. dir_editingOuId s1 = Some i \<Longrightarrow> i \<noteq> [] \<and> encodeURIComponent i = Some e1"
    and "admin_tokenReady s2" and "\<And>i. dir_editingUserId s2 = Some i \<Longrightarrow> i \<noteq> [] \<and> encodeURIComponent i = Some e2"
    and "admin_tokenReady s3" and "dir_editingGroupId s3 = Some i" and "i \<noteq> []"
    and "encodeURIComponent i = Some e3"
    and "list_all (\<lambda>ok. response_ok ok \<and> rs_status ok \<noteq> 204) [k1, k2, k3, k4]"
  shows "(\<exists>rq qs s' m. run saveOu [Responded k1, Json p1, Responded k2, Json (P_ous xs), Responded k3,
      Json (P_sync sd)] s1 = (Fetch rq # qs, s', [m]) \<and> outcome m = Some (Inr ()) \<and>
    (if dir_editingOuId s1 = None then
       rq_method rq = POST \<and> rq_path rq = lit ''/api/admin/ous'' \<and>
       rq_body rq = Some (JObj ((lit ''id'', JStr (of_id (dir_ouForm s1))) # ou_payload (dir_ouForm s1))) \<and>
       dir_selectedOuId s' = Some (of_id (dir_ouForm s1))
     else
       rq_method rq = PATCH \<and> rq_path rq = lit ''/api/admin/ous/'' @ e1 \<and>
       rq_body rq = Some (JObj (ou_payload (dir_ouForm s1))) \<and> dir_selectedOuId s' = dir_selectedOuId s1) \<and>
    adm_organizationalUnits s' = xs \<and> adm_syncDomains s' = sd \<and> dir_editor s' = None \<and> \<not> dir_saving s' \<and>
    adm_toasts s' = adm_toasts s1 @ [Success (if dir_editingOuId s1 = None then M_ou_created else M_ou_updated)]) \<and>
   (\<exists>rq qs s' m. run saveUser [Responded k1, Json p1, Responded k2, Json (P_users us), Responded k3,
      Json (P_sync sd)] s2 = (Fetch rq # qs, s', [m]) \<and> outcome m = Some (Inr ()) \<and>
    (if dir_editingUserId s2 = None then
       rq_method rq = POST \<and> rq_path rq = lit ''/api/admin/users'' \<and>
       rq_body rq = Some (JObj ((lit ''initial_password'', JStr (uf_initial_password (dir_userForm s2))) #
         user_payload (dir_userForm s2)))
     else
       rq_method rq = PATCH \<and> rq_path rq = lit ''/api/admin/users/'' @ e2 \<and>
       rq_body rq = Some (JObj (user_payload (dir_userForm s2)))) \<and>
    dir_selectedOuId s' = Some (uf_organizational_unit_id (dir_userForm s2)) \<and>
    adm_users s' = us \<and> adm_syncDomains s' = sd \<and> dir_editor s' = None \<and> \<not> dir_saving s' \<and>
    adm_toasts s' = adm_toasts s2 @ [Success (if dir_editingUserId s2 = None then M_user_created else M_user_updated)]) \<and>
   (\<exists>rq1 rq2 qs s' m. run saveGroup [Responded k1, Json p1, Responded k2, Json p2, Responded k3,
      Json (P_groups gs), Responded k4, Json (P_sync sd)] s3 = (Fetch rq1 # ReadJson # Fetch rq2 # qs, s', [m]) \<and>
    outcome m = Some (Inr ()) \<and>
    rq_method rq1 = PATCH \<and> rq_path rq1 = lit ''/api/admin/groups/'' @ e3 \<and>
    rq_body rq1 = Some (JObj (group_payload (dir_groupForm s3))) \<and>
    rq_method rq2 = PUT \<and> rq_path rq2 = lit ''/api/admin/groups/'' @ e3 @ lit ''/members'' \<and>
    rq_body rq2 = Some (JObj [(lit ''member_employee_ids'',
      JArr (map JStr (splitMembers (gf_member_employee_ids (dir_groupForm s3)))))]) \<and>
    adm_groups s' = gs \<and> adm_syncDomains s' = sd \<and> dir_editor s' = None \<and> \<not> dir_saving s' \<and>
    dir_selectedOuId s' = Some (gf_organizational_unit_id (dir_groupForm s3)) \<and>
    adm_toasts s' = adm_toasts s3 @ [Success M_group_updated])"
proof -
  have "list_all (\<lambda>ok. response_ok ok \<and> rs_status ok \<noteq> 204) [k1, k2, k3]"
    using assms(9) by simp
  then show ?thesis
    by (intro conjI saveOu_success saveUser_success saveGroup_success [OF assms(5-9)] assms(1-4))
qed

theorem directory_saves_succeed_witness:
  "\<exists>rq1 rq2 qs s' m. run saveGroup (concat (map (\<lambda>p. [Responded \<lparr>rs_status = 200, rs_statusText = []\<rparr>, Json p])
      [P_other, P_other, P_groups [], P_sync []]))
      (openGroupEditor (Some (group0 (lit ''a'') [lit ''m''])) directory_page0) =
        (Fetch rq1 # ReadJson # Fetch rq2 # qs, s', [m]) \<and> adm_groups s' = []"
proof -
  let ?s = "openGroupEditor (Some (group0 (lit ''a'') [lit ''m''])) directory_page0"
    and ?k = "\<lparr>rs_status = 200, rs_statusText = []\<rparr>"
  have h: "admin_tokenReady directory_page0" "dir_editingOuId directory_page0 = None"
    "dir_editingUserId directory_page0 = None" "admin_tokenReady ?s" "dir_editingGroupId ?s = Some (lit ''a'')"
    "lit ''a'' \<noteq> []" "encodeURIComponent (lit ''a'') = Some (lit ''a'')"
    "list_all (\<lambda>ok. response_ok ok \<and> rs_status ok \<noteq> 204) [?k, ?k, ?k, ?k]"
    by (simp_all add: openGroupEditor_def directory_page0_eval admin_tokenReady_def group0_def
        encode_examples response_ok_def)
  have o: "\<And>i. dir_editingOuId directory_page0 = Some i \<Longrightarrow> i \<noteq> [] \<and> encodeURIComponent i = Some []"
    and u: "\<And>i. dir_editingUserId directory_page0 = Some i \<Longrightarrow> i \<noteq> [] \<and> encodeURIComponent i = Some []"
    using h(2,3) by simp_all
  from directory_saves_succeed [OF h(1) o h(1) u h(4-8), of P_other "[]" "[]" "[]" P_other "[]"] show ?thesis
    by auto
qed



end
