(* ===== verification/Core_Requests.thy ===== *)
theory Core_Requests
  imports Directory_Page Domains_Page "HOL-Library.Monad_Syntax"
begin

text \<open>
  What the identity core makes of three requests of the console: the change of a user, the creation
  and the change of a domain (\<open>core/src/routes/admin.rs\<close>, with \<open>crates/store/src/models.rs\<close> and
  \<open>crates/store/src/repository.rs\<close>). A body is read as the derived deserialisers read an object: a
  missing or null field of an optional type is \<open>None\<close>, other fields must be there, a repeated field
  is refused, and so is an unknown one where the type denies it. A table is the list of its rows.
  Not modelled: other failures of the database, the allocation of revisions, keys and their hashes.
  The strings of the core are taken as the code units of the same text; they are well-formed.
\<close>

section \<open>Trimming in the core\<close>

text \<open>The characters with the property \<open>White_Space\<close>; all of them are single code units.\<close>

definition is_rust_ws :: "code_unit \<Rightarrow> bool" where
  "is_rust_ws c \<longleftrightarrow> (let n = unat c in
     n \<in> {0x9, 0xA, 0xB, 0xC, 0xD, 0x20, 0x85, 0xA0, 0x1680, 0x2028, 0x2029, 0x202F, 0x205F, 0x3000}
     \<or> 0x2000 \<le> n \<and> n \<le> 0x200A)"

definition rust_trim :: "jsstr \<Rightarrow> jsstr" where
  "rust_trim s = strip_end is_rust_ws (dropWhile is_rust_ws s)"

text \<open>The two notions of white space differ in two characters.\<close>

definition portable :: "jsstr \<Rightarrow> bool" where
  "portable s \<longleftrightarrow> 0x85 \<notin> set s \<and> 0xFEFF \<notin> set s"

lemma ws_agree: "c \<noteq> 0x85 \<Longrightarrow> c \<noteq> 0xFEFF \<Longrightarrow> is_rust_ws c = is_ws c"
proof -
  assume "c \<noteq> 0x85" "c \<noteq> 0xFEFF"
  then have "unat c \<noteq> 0x85" "unat c \<noteq> 0xFEFF"
    by (simp_all add: word_unat_eq_iff)
  then show ?thesis
    by (auto simp: is_rust_ws_def is_ws_def Let_def)
qed

lemma strip_end_cong: "(\<And>c. c \<in> set s \<Longrightarrow> P c = Q c) \<Longrightarrow> strip_end P s = strip_end Q s"
  unfolding strip_end_def by (intro arg_cong [where f = rev] dropWhile_cong refl) simp

lemma rust_trim_eq: "portable s \<Longrightarrow> rust_trim s = trim s"
proof -
  assume "portable s"
  then have *: "is_rust_ws c = is_ws c" if "c \<in> set s" for c
    using that by (intro ws_agree) (auto simp: portable_def)
  then have "dropWhile is_rust_ws s = dropWhile is_ws s"
    by (rule dropWhile_cong [OF refl])
  moreover have "strip_end is_rust_ws (dropWhile is_ws s) = strip_end is_ws (dropWhile is_ws s)"
    using * set_dropWhileD by (fastforce intro!: strip_end_cong)
  ultimately show ?thesis
    by (simp add: rust_trim_def trim_def)
qed

section \<open>Reading a body\<close>

definition serde_fields :: "string list \<Rightarrow> bool \<Rightarrow> json \<Rightarrow> (jsstr \<rightharpoonup> json) option" where
  "serde_fields names deny j = (case j of
     JObj kvs \<Rightarrow>
       if distinct (filter (\<lambda>k. k \<in> set (map lit names)) (map fst kvs)) \<and>
          (deny \<longrightarrow> set (map fst kvs) \<subseteq> set (map lit names))
       then Some (map_of kvs) else None
   | _ \<Rightarrow> None)"

definition de_string :: "(jsstr \<rightharpoonup> json) \<Rightarrow> string \<Rightarrow> jsstr option" where
  "de_string m k = (case m (lit k) of Some (JStr t) \<Rightarrow> Some t | _ \<Rightarrow> None)"

definition de_bool :: "(jsstr \<rightharpoonup> json) \<Rightarrow> string \<Rightarrow> bool option" where
  "de_bool m k = (case m (lit k) of Some (JBool b) \<Rightarrow> Some b | _ \<Rightarrow> None)"

definition de_optional :: "(jsstr \<rightharpoonup> json) \<Rightarrow> string \<Rightarrow> jsstr option option" where
  "de_optional m k = (case m (lit k) of
     None \<Rightarrow> Some None | Some JNull \<Rightarrow> Some None | Some (JStr t) \<Rightarrow> Some (Some t) | _ \<Rightarrow> None)"

definition de_status :: "(jsstr \<rightharpoonup> json) \<Rightarrow> string \<Rightarrow> UserStatus option" where
  "de_status m k = (case m (lit k) of
     Some (JStr t) \<Rightarrow>
       if t = lit ''active'' then Some Active else if t = lit ''disabled'' then Some Disabled else None
   | _ \<Rightarrow> None)"

text \<open>
  The errors of the routes, and the refusal of a body, which comes before the handler runs. The check
  of session and CSRF token is a parameter of a handler: \<open>None\<close>, or the error that it ends with.
\<close>

datatype core_error = BodyRejected | Unauthorized | Forbidden | NotFound | Conflict | Persistence

section \<open>Users\<close>

record UpdateUserDirectoryRequest =
  uu_username :: jsstr
  uu_display_name :: "jsstr option"
  uu_surname :: "jsstr option"
  uu_given_name :: "jsstr option"
  uu_email :: "jsstr option"
  uu_mobile :: "jsstr option"
  uu_telephone :: "jsstr option"
  uu_organizational_unit_id :: jsstr
  uu_status :: UserStatus

definition read_update_user :: "json \<Rightarrow> UpdateUserDirectoryRequest option" where
  "read_update_user j = do {
     m \<leftarrow> serde_fields [''username'', ''display_name'', ''surname'', ''given_name'', ''email'', ''mobile'',
       ''telephone'', ''organizational_unit_id'', ''status''] False j;
     username \<leftarrow> de_string m ''username'';
     display_name \<leftarrow> de_optional m ''display_name'';
     surname \<leftarrow> de_optional m ''surname'';
     given_name \<leftarrow> de_optional m ''given_name'';
     email \<leftarrow> de_optional m ''email'';
     mobile \<leftarrow> de_optional m ''mobile'';
     telephone \<leftarrow> de_optional m ''telephone'';
     organizational_unit_id \<leftarrow> de_string m ''organizational_unit_id'';
     status \<leftarrow> de_status m ''status'';
     Some \<lparr>uu_username = username, uu_display_name = display_name, uu_surname = surname,
       uu_given_name = given_name, uu_email = email, uu_mobile = mobile, uu_telephone = telephone,
       uu_organizational_unit_id = organizational_unit_id, uu_status = status\<rparr>
   }"

definition resolve_person_name ::
  "jsstr option \<Rightarrow> jsstr option \<Rightarrow> jsstr option \<Rightarrow> jsstr \<times> jsstr \<times> jsstr" where
  "resolve_person_name display_name surname given_name =
     (let display_name = rust_trim (orEmpty display_name);
          surname = rust_trim (orEmpty surname);
          given_name = rust_trim (orEmpty given_name);
          surname = (if surname = [] then (if display_name = [] then [] else display_name) else surname);
          display_name = (if display_name = [] then surname @ given_name else display_name)
      in (display_name, surname, given_name))"

text \<open>The patch of a user has the fields of the record, which is also the row of the table.\<close>

type_synonym UserDirectoryPatch = UserRecord

definition user_patch :: "jsstr \<Rightarrow> UpdateUserDirectoryRequest \<Rightarrow> UserDirectoryPatch" where
  "user_patch employee_id request =
     (case resolve_person_name (uu_display_name request) (uu_surname request) (uu_given_name request) of
        (display_name, surname, given_name) \<Rightarrow>
          \<lparr>ur_employee_id = employee_id, ur_username = uu_username request, ur_display_name = display_name,
           ur_surname = surname, ur_given_name = given_name, ur_email = uu_email request,
           ur_mobile = uu_mobile request, ur_telephone = uu_telephone request,
           ur_organizational_unit_id = uu_organizational_unit_id request, ur_status = uu_status request\<rparr>)"

text \<open>The row with the same key is deleted and the new one inserted; usernames are unique.\<close>

definition upsert_user :: "UserDirectoryPatch \<Rightarrow> UserRecord list \<Rightarrow> UserRecord list option" where
  "upsert_user user rows =
     (let rest = filter (\<lambda>row. ur_employee_id row \<noteq> ur_employee_id user) rows in
      if list_ex (\<lambda>row. ur_username row = ur_username user) rest then None else Some (rest @ [user]))"

definition update_user ::
  "core_error option \<Rightarrow> jsstr \<Rightarrow> json \<Rightarrow> UserRecord list \<Rightarrow> core_error + UserRecord \<times> UserRecord list" where
  "update_user authorized employee_id body rows = (case read_update_user body of
     None \<Rightarrow> Inl BodyRejected
   | Some request \<Rightarrow>
       (case authorized of
          Some e \<Rightarrow> Inl e
        | None \<Rightarrow>
            (case upsert_user (user_patch employee_id request) rows of
               None \<Rightarrow> Inl Persistence
             | Some rows' \<Rightarrow>
                 (case find (\<lambda>row. ur_employee_id row = employee_id) rows' of
                    None \<Rightarrow> Inl NotFound | Some user \<Rightarrow> Inr (user, rows')))))"

section \<open>Domains\<close>

definition DEFAULT_EMPLOYEE_ID_ATTRIBUTE :: jsstr where
  "DEFAULT_EMPLOYEE_ID_ATTRIBUTE = lit ''employeeID''"

definition DEFAULT_MANAGED_GROUP_ID_ATTRIBUTE :: jsstr where
  "DEFAULT_MANAGED_GROUP_ID_ATTRIBUTE = lit ''adminDescription''"

definition canonical :: DomainAttributeDefaults where
  "canonical = \<lparr>dad_employee_id_attribute = DEFAULT_EMPLOYEE_ID_ATTRIBUTE,
     dad_managed_group_id_attribute = DEFAULT_MANAGED_GROUP_ID_ATTRIBUTE\<rparr>"

definition attribute_or_default :: "jsstr option \<Rightarrow> jsstr \<Rightarrow> jsstr" where
  "attribute_or_default value dflt = (case map_option rust_trim value of
     Some value \<Rightarrow> if value \<noteq> [] then value else dflt | None \<Rightarrow> dflt)"

record DomainPatchRequest =
  dp_name :: jsstr
  dp_enabled :: bool
  dp_mirror_root_dn :: jsstr
  dp_quarantine_ou_dn :: jsstr
  dp_upn_suffix :: jsstr
  dp_employee_id_attribute :: "jsstr option"
  dp_managed_group_id_attribute :: "jsstr option"

definition domain_field_names :: "string list" where
  "domain_field_names = [''name'', ''enabled'', ''mirror_root_dn'', ''quarantine_ou_dn'', ''upn_suffix'',
     ''employee_id_attribute'', ''managed_group_id_attribute'']"

definition read_domain_fields :: "(jsstr \<rightharpoonup> json) \<Rightarrow> DomainPatchRequest option" where
  "read_domain_fields m = do {
     name \<leftarrow> de_string m ''name'';
     enabled \<leftarrow> de_bool m ''enabled'';
     mirror_root_dn \<leftarrow> de_string m ''mirror_root_dn'';
     quarantine_ou_dn \<leftarrow> de_string m ''quarantine_ou_dn'';
     upn_suffix \<leftarrow> de_string m ''upn_suffix'';
     employee_id_attribute \<leftarrow> de_optional m ''employee_id_attribute'';
     managed_group_id_attribute \<leftarrow> de_optional m ''managed_group_id_attribute'';
     Some \<lparr>dp_name = name, dp_enabled = enabled, dp_mirror_root_dn = mirror_root_dn,
       dp_quarantine_ou_dn = quarantine_ou_dn, dp_upn_suffix = upn_suffix,
       dp_employee_id_attribute = employee_id_attribute,
       dp_managed_group_id_attribute = managed_group_id_attribute\<rparr>
   }"

definition read_create_domain :: "json \<Rightarrow> (jsstr \<times> DomainPatchRequest) option" where
  "read_create_domain j = do {
     m \<leftarrow> serde_fields (''id'' # domain_field_names) True j;
     i \<leftarrow> de_string m ''id'';
     request \<leftarrow> read_domain_fields m;
     Some (i, request)
   }"

definition read_patch_domain :: "json \<Rightarrow> DomainPatchRequest option" where
  "read_patch_domain j = Option.bind (serde_fields domain_field_names True j) read_domain_fields"

definition create_domain ::
  "core_error option \<Rightarrow> json \<Rightarrow> Domain list \<Rightarrow> core_error + Domain \<times> Domain list" where
  "create_domain authorized body rows = (case read_create_domain body of
     None \<Rightarrow> Inl BodyRejected
   | Some (i, request) \<Rightarrow>
       (case authorized of Some e \<Rightarrow> Inl e | None \<Rightarrow>
         let domain = \<lparr>dom_id = i, dom_name = dp_name request, dom_enabled = dp_enabled request,
           dom_mirror_root_dn = dp_mirror_root_dn request, dom_quarantine_ou_dn = dp_quarantine_ou_dn request,
           dom_upn_suffix = dp_upn_suffix request,
           dom_employee_id_attribute =
             attribute_or_default (dp_employee_id_attribute request) DEFAULT_EMPLOYEE_ID_ATTRIBUTE,
           dom_managed_group_id_attribute =
             attribute_or_default (dp_managed_group_id_attribute request) DEFAULT_MANAGED_GROUP_ID_ATTRIBUTE,
           dom_applied_directory_revision = 0, dom_applied_credential_revision = 0\<rparr>
         in if list_ex (\<lambda>row. dom_id row = i) rows then Inl Conflict else Inr (domain, rows @ [domain])))"

definition patch_domain :: "DomainPatchRequest \<Rightarrow> Domain \<Rightarrow> Domain" where
  "patch_domain request d =
     d\<lparr>dom_name := dp_name request, dom_enabled := dp_enabled request,
       dom_mirror_root_dn := dp_mirror_root_dn request, dom_quarantine_ou_dn := dp_quarantine_ou_dn request,
       dom_upn_suffix := dp_upn_suffix request,
       dom_employee_id_attribute := (case dp_employee_id_attribute request of
           None \<Rightarrow> dom_employee_id_attribute d
         | Some value \<Rightarrow> attribute_or_default (Some value) DEFAULT_EMPLOYEE_ID_ATTRIBUTE),
       dom_managed_group_id_attribute := (case dp_managed_group_id_attribute request of
           None \<Rightarrow> dom_managed_group_id_attribute d
         | Some value \<Rightarrow> attribute_or_default (Some value) DEFAULT_MANAGED_GROUP_ID_ATTRIBUTE)\<rparr>"

definition update_domain ::
  "core_error option \<Rightarrow> jsstr \<Rightarrow> json \<Rightarrow> Domain list \<Rightarrow> core_error + Domain \<times> Domain list" where
  "update_domain authorized domain_id body rows = (case read_patch_domain body of
     None \<Rightarrow> Inl BodyRejected
   | Some request \<Rightarrow>
       (case authorized of Some e \<Rightarrow> Inl e | None \<Rightarrow>
         case find (\<lambda>row. dom_id row = domain_id) rows of
         None \<Rightarrow> Inl NotFound
       | Some d \<Rightarrow> Inr (patch_domain request d,
           map (\<lambda>row. if dom_id row = domain_id then patch_domain request row else row) rows)))"

section \<open>The console's bodies are read\<close>

lemmas serde_eval = serde_fields_def de_string_def de_bool_def de_optional_def de_status_def
  bind_eq_Some_conv

lemma read_user_payload:
  "read_update_user (JObj (user_payload f)) =
     Some \<lparr>uu_username = uf_username f, uu_display_name = Some (uf_display_name f),
       uu_surname = Some (uf_surname f), uu_given_name = Some (uf_given_name f),
       uu_email = nullable (uf_email f), uu_mobile = nullable (uf_mobile f), uu_telephone = None,
       uu_organizational_unit_id = uf_organizational_unit_id f, uu_status = uf_status f\<rparr>"
  by (cases "nullable (uf_email f)"; cases "nullable (uf_mobile f)"; cases "uf_status f")
    (simp_all add: read_update_user_def user_payload_def serde_eval json_opt_def status_name_def)

definition request_of_form :: "DomainForm \<Rightarrow> DomainPatchRequest" where
  "request_of_form f = \<lparr>dp_name = df_name f, dp_enabled = df_enabled f,
     dp_mirror_root_dn = df_mirror_root_dn f, dp_quarantine_ou_dn = df_quarantine_ou_dn f,
     dp_upn_suffix = df_upn_suffix f, dp_employee_id_attribute = Some (df_employee_id_attribute f),
     dp_managed_group_id_attribute = Some (df_managed_group_id_attribute f)\<rparr>"

lemma read_domain_payload:
  "read_patch_domain (JObj (domain_payload f)) = Some (request_of_form f)"
  "read_create_domain (JObj ((lit ''id'', JStr (df_id f)) # domain_payload f)) =
     Some (df_id f, request_of_form f)"
  by (simp_all add: read_patch_domain_def read_create_domain_def read_domain_fields_def domain_payload_def
      domain_field_names_def serde_eval request_of_form_def)

section \<open>Properties\<close>

lemma resolved_display_name:
  assumes "portable (uf_surname f)" "portable (uf_given_name f)" "portable (uf_display_name f)"
  shows "fst (resolve_person_name (Some (uf_display_name f)) (Some (uf_surname f)) (Some (uf_given_name f))) =
    (if trim (uf_display_name f) = [] then composedDisplayName f else trim (uf_display_name f))"
  using assms by (simp add: resolve_person_name_def rust_trim_eq composedDisplayName_def orEmpty_def Let_def)

lemma attribute_shown:
  "portable t \<Longrightarrow> attribute_or_default (Some t) d = (if trim t = [] then d else trim t)"
  by (simp add: attribute_or_default_def rust_trim_eq)

lemma user_patch_id [simp]: "ur_employee_id (user_patch i request) = i"
  by (simp add: user_patch_def split: prod.splits)

lemma find_snoc: "\<forall>x \<in> set xs. \<not> P x \<Longrightarrow> P y \<Longrightarrow> find P (xs @ [y]) = Some y"
  by (induction xs) auto

lemma upsert_found:
  "upsert_user p rows = Some rows' \<Longrightarrow> find (\<lambda>row. ur_employee_id row = ur_employee_id p) rows' = Some p"
  by (auto simp: upsert_user_def Let_def intro!: find_snoc split: if_splits)

text \<open>An accepted change stores what the request says, whatever the row was before.\<close>

lemma update_user_console:
  "update_user a i (JObj (user_payload f)) rows =
     (let p = user_patch i (the (read_update_user (JObj (user_payload f)))) in
      case a of Some e \<Rightarrow> Inl e
      | None \<Rightarrow> (case upsert_user p rows of None \<Rightarrow> Inl Persistence | Some rows' \<Rightarrow> Inr (p, rows')))"
  using upsert_found [of "user_patch i (the (read_update_user (JObj (user_payload f))))" rows]
  by (auto simp: update_user_def read_user_payload Let_def split: option.splits)

lemma placeholder_of_display_name:
  "fd_placeholder (ed_fields (userEditor items e f) ! 4) = Some (composedDisplayName f)"
  by (simp add: userEditor_def editor_defs)

lemma placeholder_of_attributes:
  "fd_placeholder (ed_fields (domainEditor e d) ! 6) = Some (dad_employee_id_attribute d)"
  "fd_placeholder (ed_fields (domainEditor e d) ! 7) = Some (dad_managed_group_id_attribute d)"
  by (simp_all add: domainEditor_def editor_defs)

text \<open>
  C15: what the editors show in place of a field that is left blank is what the core stores for it: the
  display name of a user is composed of surname and given name, and the two attributes of a domain
  have the defaults that the core has sent, when it is created and when it is changed; a field that
  is filled in is stored without the white space around it. (Texts with one of the two characters
  that only one side trims are excluded.)
\<close>

theorem blank_fields_as_shown:
  assumes "update_user a1 i (JObj (user_payload f)) users = Inr (u, users')"
    and "create_domain a2 (JObj ((lit ''id'', JStr (df_id g)) # domain_payload g)) domains = Inr (d1, domains1)"
    and "update_domain a3 j (JObj (domain_payload g)) domains1 = Inr (d2, domains2)"
    and "list_all portable [uf_surname f, uf_given_name f, uf_display_name f, df_employee_id_attribute g,
      df_managed_group_id_attribute g]"
  shows "ur_display_name u = (if trim (uf_display_name f) = []
      then the (fd_placeholder (ed_fields (userEditor items e f) ! 4)) else trim (uf_display_name f)) \<and>
    (\<forall>d \<in> {d1, d2}.
      dom_employee_id_attribute d = (if trim (df_employee_id_attribute g) = []
        then the (fd_placeholder (ed_fields (domainEditor e' canonical) ! 6))
        else trim (df_employee_id_attribute g)) \<and>
      dom_managed_group_id_attribute d = (if trim (df_managed_group_id_attribute g) = []
        then the (fd_placeholder (ed_fields (domainEditor e' canonical) ! 7))
        else trim (df_managed_group_id_attribute g)))"
proof -
  have "ur_display_name u =
      fst (resolve_person_name (Some (uf_display_name f)) (Some (uf_surname f)) (Some (uf_given_name f)))"
    using assms(1) by (auto simp: update_user_console Let_def read_user_payload user_patch_def
        split: if_splits option.splits prod.splits)
  moreover have "dom_employee_id_attribute d1 =
      attribute_or_default (Some (df_employee_id_attribute g)) DEFAULT_EMPLOYEE_ID_ATTRIBUTE"
    "dom_managed_group_id_attribute d1 =
      attribute_or_default (Some (df_managed_group_id_attribute g)) DEFAULT_MANAGED_GROUP_ID_ATTRIBUTE"
    using assms(2) by (auto simp: create_domain_def read_domain_payload request_of_form_def Let_def split: if_splits option.splits)
  moreover have "dom_employee_id_attribute d2 =
      attribute_or_default (Some (df_employee_id_attribute g)) DEFAULT_EMPLOYEE_ID_ATTRIBUTE"
    "dom_managed_group_id_attribute d2 =
      attribute_or_default (Some (df_managed_group_id_attribute g)) DEFAULT_MANAGED_GROUP_ID_ATTRIBUTE"
    using assms(3) by (auto simp: update_domain_def read_domain_payload request_of_form_def patch_domain_def
        split: if_splits option.splits)
  ultimately show ?thesis
    using assms(4) by (simp add: resolved_display_name attribute_shown placeholder_of_display_name
        placeholder_of_attributes canonical_def)
qed

definition user_form0 :: UserForm where
  "user_form0 = blankUserForm\<lparr>uf_username := lit ''u'', uf_surname := lit ''s'', uf_given_name := lit ''g''\<rparr>"

theorem blank_fields_as_shown_witness:
  "\<exists>u users' d domains'. update_user None (lit ''1'') (JObj (user_payload user_form0)) [] = Inr (u, users') \<and>
     create_domain None (JObj ((lit ''id'', JStr (df_id blankDomainForm)) # domain_payload blankDomainForm)) [] =
       Inr (d, domains') \<and>
     ur_display_name u = lit ''sg'' \<and> dom_employee_id_attribute d = lit ''employeeID''"
proof -
  let ?g = blankDomainForm
  obtain u users' where u: "update_user None (lit ''1'') (JObj (user_payload user_form0)) [] = Inr (u, users')"
    by (simp add: update_user_console upsert_user_def Let_def)
  obtain d where d: "create_domain None (JObj ((lit ''id'', JStr (df_id ?g)) # domain_payload ?g)) [] = Inr (d, [d])"
    and i: "dom_id d = df_id ?g"
    by (simp add: create_domain_def read_domain_payload Let_def)
  obtain d' ds where d': "update_domain None (df_id ?g) (JObj (domain_payload ?g)) [d] = Inr (d', ds)"
    by (simp add: update_domain_def read_domain_payload i)
  have "list_all portable [uf_surname user_form0, uf_given_name user_form0, uf_display_name user_form0,
      df_employee_id_attribute ?g, df_managed_group_id_attribute ?g]"
    by (simp add: user_form0_def blankUserForm_def blankDomainForm_def portable_def lit_def)
  from blank_fields_as_shown [OF u d d' this, of "[]" None None] show ?thesis
    using u d by (simp add: placeholder_of_display_name placeholder_of_attributes canonical_def
        DEFAULT_EMPLOYEE_ID_ATTRIBUTE_def composedDisplayName_def user_form0_def blankUserForm_def
        blankDomainForm_def trim_eval)
qed

text \<open>
  A user record whose names are non-empty and trimmed, and whose contact data, if any, are so too.
\<close>

definition clean_user :: "UserRecord \<Rightarrow> bool" where
  "clean_user u \<longleftrightarrow>
     list_all (\<lambda>t. t \<noteq> [] \<and> trimmed t \<and> portable t) [ur_display_name u, ur_surname u] \<and>
     trimmed (ur_given_name u) \<and> portable (ur_given_name u) \<and>
     list_all (\<lambda>x. x = None \<or> x \<noteq> Some [] \<and> trimmed (the x)) [ur_email u, ur_mobile u]"

lemma nullable_shown: "x = None \<or> x \<noteq> Some [] \<and> trimmed (the x) \<Longrightarrow> nullable (orEmpty x) = x"
  by (cases x) (auto simp: orEmpty_def nullable_alt trim_id)

lemma unchanged_user_patch:
  assumes "clean_user u" and "f = dir_userForm (show_user (Some u) (ur_employee_id u) s)"
  shows "user_patch (ur_employee_id u) (the (read_update_user (JObj (user_payload f)))) = u\<lparr>ur_telephone := None\<rparr>"
proof -
  have f: "nullable (uf_email f) = ur_email u" "nullable (uf_mobile f) = ur_mobile u"
    using assms nullable_shown by (auto simp: clean_user_def show_user_def bind_def split: option.splits)
  show ?thesis
    using assms(1) by (simp add: read_user_payload f user_patch_def)
      (simp add: assms(2) show_user_def orEmpty_def nullish_def resolve_person_name_def rust_trim_eq trim_id
        clean_user_def Let_def)
qed

text \<open>
  C40: opening a user in the console and saving without any change erases the telephone number: the
  request has no such field, and the core replaces the whole row by what the request says. All
  other data stay as they are.
\<close>

theorem saving_user_erases_telephone:
  assumes "admin_tokenReady s" and "clean_user u"
    and "ur_employee_id u \<noteq> []" and "encodeURIComponent (ur_employee_id u) = Some e"
    and "list_all (\<lambda>r. ur_employee_id r = ur_employee_id u \<or> ur_username r \<noteq> ur_username u) rows"
  shows "\<exists>rq body rows'. pool_waits (call saveUser (show_user (Some u) (ur_employee_id u) s, [])) = [Fetch rq] \<and>
    rq_method rq = PATCH \<and> rq_path rq = lit ''/api/admin/users/'' @ e \<and> rq_body rq = Some body \<and>
    update_user None (ur_employee_id u) body rows = Inr (u\<lparr>ur_telephone := None\<rparr>, rows')"
proof -
  let ?f = "dir_userForm (show_user (Some u) (ur_employee_id u) s)"
  have "list_all (\<lambda>r. ur_username r \<noteq> ur_username u)
      (filter (\<lambda>r. ur_employee_id r \<noteq> ur_employee_id u) rows)"
    using assms(5) by (auto simp: list_all_iff)
  then have "\<exists>rows'. update_user None (ur_employee_id u) (JObj (user_payload ?f)) rows =
      Inr (u\<lparr>ur_telephone := None\<rparr>, rows')"
    using unchanged_user_patch [OF assms(2) refl, of s]
    by (auto simp: update_user_console upsert_user_def Let_def list_all_iff list_ex_iff)
  moreover have "\<exists>rq. pool_waits (call saveUser (show_user (Some u) (ur_employee_id u) s, [])) = [Fetch rq] \<and>
      rq_method rq = PATCH \<and> rq_path rq = lit ''/api/admin/users/'' @ e \<and>
      rq_body rq = Some (JObj (user_payload ?f))"
    using assms(1,3,4) by (simp add: js_eval exec_defs Let_def show_user_def)
  ultimately show ?thesis
    by blast
qed

definition user0 :: UserRecord where
  "user0 = \<lparr>ur_employee_id = lit ''a'', ur_username = lit ''u'', ur_display_name = lit ''d'',
     ur_surname = lit ''s'', ur_given_name = lit ''g'', ur_email = None, ur_mobile = None,
     ur_telephone = Some (lit ''5''), ur_organizational_unit_id = lit ''o'', ur_status = Active\<rparr>"

theorem saving_user_erases_telephone_witness:
  "\<exists>rq body rows'. pool_waits (call saveUser (show_user (Some user0) (ur_employee_id user0) directory_page0, [])) =
      [Fetch rq] \<and> rq_body rq = Some body \<and>
    update_user None (ur_employee_id user0) body [user0] = Inr (user0\<lparr>ur_telephone := None\<rparr>, rows') \<and>
    ur_telephone user0 \<noteq> None"
proof -
  have "admin_tokenReady directory_page0" "ur_employee_id user0 \<noteq> []"
    "encodeURIComponent (ur_employee_id user0) = Some (lit ''a'')" "ur_telephone user0 \<noteq> None"
    by (simp_all add: directory_page0_eval admin_tokenReady_def user0_def encode_examples)
  moreover have "clean_user user0"
    by (simp add: user0_def clean_user_def trimmed_def portable_def lit_def is_ws_def)
  ultimately show ?thesis
    using saving_user_erases_telephone [of directory_page0 user0 "lit ''a''" "[user0]"] by auto
qed

end
