(* ===== verification/Core_Directory.thy ===== *)
theory Core_Directory
  imports Core_Requests
begin

text \<open>
  Organizational units in the core: the change of a unit (\<open>core/src/routes/admin.rs\<close>) and the
  distinguished names that a batch for a domain is given (\<open>organizational_unit_dns_for_batch\<close> and
  \<open>escape_ldap_dn_value\<close> of \<open>crates/store/src/repository.rs\<close>). The names are computed for the units
  of a batch by walking up to a unit whose name is already known or to a root; a cycle and a missing
  unit are errors. The table does not change during the computation; the revision that a change
  allocates is a parameter.
\<close>

section \<open>Changing a unit\<close>

definition read_ou_patch :: "json \<Rightarrow> (jsstr \<times> jsstr option) option" where
  "read_ou_patch j = do {
     m \<leftarrow> serde_fields [''name'', ''parent_id''] False j;
     name \<leftarrow> de_string m ''name'';
     parent_id \<leftarrow> de_optional m ''parent_id'';
     Some (name, parent_id)
   }"

definition upsert_ou :: "int \<Rightarrow> OrganizationalUnit \<Rightarrow> OrganizationalUnit list \<Rightarrow> OrganizationalUnit list" where
  "upsert_ou revision ou rows =
     filter (\<lambda>row. ou_id row \<noteq> ou_id ou) rows @ [ou\<lparr>ou_changed_revision := revision\<rparr>]"

definition find_ou :: "OrganizationalUnit list \<Rightarrow> jsstr \<Rightarrow> OrganizationalUnit option" where
  "find_ou rows i = find (\<lambda>row. ou_id row = i) rows"

definition write_organizational_unit ::
  "int \<Rightarrow> jsstr \<Rightarrow> jsstr \<Rightarrow> jsstr option \<Rightarrow> OrganizationalUnit list \<Rightarrow>
   core_error + OrganizationalUnit \<times> OrganizationalUnit list" where
  "write_organizational_unit revision i name parent_id rows =
     (let rows' = upsert_ou revision \<lparr>ou_id = i, ou_name = name, ou_parent_id = parent_id, ou_changed_revision = 0\<rparr> rows in
      case find_ou rows' i of None \<Rightarrow> Inl NotFound | Some ou \<Rightarrow> Inr (ou, rows'))"

definition update_organizational_unit ::
  "core_error option \<Rightarrow> int \<Rightarrow> jsstr \<Rightarrow> json \<Rightarrow> OrganizationalUnit list \<Rightarrow>
   core_error + OrganizationalUnit \<times> OrganizationalUnit list" where
  "update_organizational_unit authorized revision i body rows = (case read_ou_patch body of
     None \<Rightarrow> Inl BodyRejected
   | Some (name, parent_id) \<Rightarrow>
       (case authorized of Some e \<Rightarrow> Inl e | None \<Rightarrow> write_organizational_unit revision i name parent_id rows))"

section \<open>Distinguished names\<close>

definition backslash :: code_unit where
  "backslash = 0x5C"

definition dn_special :: "code_unit \<Rightarrow> bool" where
  "dn_special c \<longleftrightarrow> c \<in> set (lit '',+\"'') \<or> c = backslash \<or> c \<in> set (lit ''<>;='')"

fun escape_from :: "bool \<Rightarrow> jsstr \<Rightarrow> jsstr" where
  "escape_from is_first [] = []"
| "escape_from is_first (c # cs) =
     (if is_first \<and> (c = 0x20 \<or> c = 0x23) \<or> cs = [] \<and> c = 0x20 \<or> dn_special c then [backslash, c] else [c]) @
     escape_from False cs"

definition escape_ldap_dn_value :: "jsstr \<Rightarrow> jsstr" where
  "escape_ldap_dn_value value = escape_from True value"

definition ou_dn :: "OrganizationalUnit \<Rightarrow> jsstr \<Rightarrow> jsstr" where
  "ou_dn ou parent_dn = lit ''OU='' @ escape_ldap_dn_value (ou_name ou) @ lit '','' @ parent_dn"

datatype dn_error = CyclicOu jsstr | MissingOu jsstr | MissingParentDn jsstr

type_synonym dns = "jsstr \<rightharpoonup> jsstr"

lemma find_ou_Some: "find_ou rows i = Some ou \<Longrightarrow> ou \<in> set rows \<and> ou_id ou = i"
  by (auto simp: find_ou_def find_Some_iff)

text \<open>The walk from a unit upwards.\<close>

function ou_chain ::
  "OrganizationalUnit list \<Rightarrow> dns \<Rightarrow> jsstr list \<Rightarrow> jsstr \<Rightarrow> dn_error + OrganizationalUnit list" where
  "ou_chain rows dns visited i =
     (if dns i \<noteq> None then Inr []
      else if i \<in> set visited then Inl (CyclicOu i)
      else case find_ou rows i of
        None \<Rightarrow> Inl (MissingOu i)
      | Some ou \<Rightarrow> (case ou_parent_id ou of
          None \<Rightarrow> Inr [ou]
        | Some p \<Rightarrow> (case ou_chain rows dns (i # visited) p of
            Inl e \<Rightarrow> Inl e | Inr chain \<Rightarrow> Inr (ou # chain))))"
  by auto

termination
proof (relation "measure (\<lambda>(rows, _, visited, _). card (ou_id ` set rows - set visited))")
  fix rows :: "OrganizationalUnit list" and dns :: dns and visited i ou p
  assume "i \<notin> set visited" "find_ou rows i = Some ou"
  then have "i \<in> ou_id ` set rows - set visited"
    using find_ou_Some by blast
  then have "card (ou_id ` set rows - set (i # visited)) < card (ou_id ` set rows - set visited)"
    by (intro psubset_card_mono) auto
  then show "((rows, dns, i # visited, p), rows, dns, visited, i) \<in>
      measure (\<lambda>(rows, _, visited, _). card (ou_id ` set rows - set visited))"
    by simp
qed simp

declare ou_chain.simps [simp del]

text \<open>The names along a chain, from its end.\<close>

fun insert_dns :: "jsstr \<Rightarrow> OrganizationalUnit list \<Rightarrow> dns \<Rightarrow> dn_error + dns" where
  "insert_dns mirror_root_dn [] dns = Inr dns"
| "insert_dns mirror_root_dn (ou # ous) dns = (case ou_parent_id ou of
     None \<Rightarrow> insert_dns mirror_root_dn ous (dns(ou_id ou \<mapsto> ou_dn ou mirror_root_dn))
   | Some p \<Rightarrow> (case dns p of
       None \<Rightarrow> Inl (MissingParentDn p)
     | Some parent_dn \<Rightarrow> insert_dns mirror_root_dn ous (dns(ou_id ou \<mapsto> ou_dn ou parent_dn))))"

fun dns_for_units :: "jsstr \<Rightarrow> OrganizationalUnit list \<Rightarrow> jsstr list \<Rightarrow> dns \<Rightarrow> dn_error + dns" where
  "dns_for_units mirror_root_dn rows [] dns = Inr dns"
| "dns_for_units mirror_root_dn rows (i # ids) dns = (case ou_chain rows dns [] i of
     Inl e \<Rightarrow> Inl e
   | Inr chain \<Rightarrow> (case insert_dns mirror_root_dn (rev chain) dns of
       Inl e \<Rightarrow> Inl e | Inr dns \<Rightarrow> dns_for_units mirror_root_dn rows ids dns))"

text \<open>
  \<open>involved\<close> are the identifiers of the units of a batch and of the units of its users and groups, in
  the order of the set that the code collects them in. The rows are those of one snapshot, so the
  cache of rows already read has no effect and is left out.
\<close>

definition organizational_unit_dns_for_batch ::
  "jsstr \<Rightarrow> OrganizationalUnit list \<Rightarrow> jsstr list \<Rightarrow> dn_error + dns" where
  "organizational_unit_dns_for_batch mirror_root_dn rows involved =
     dns_for_units mirror_root_dn rows involved Map.empty"

section \<open>Specification\<close>

text \<open>The units from a unit up to a root, and the name that they give.\<close>

fun is_path :: "OrganizationalUnit list \<Rightarrow> jsstr \<Rightarrow> OrganizationalUnit list \<Rightarrow> bool" where
  "is_path rows i [] = False"
| "is_path rows i (ou # us) \<longleftrightarrow> find_ou rows i = Some ou \<and>
     (case ou_parent_id ou of None \<Rightarrow> us = [] | Some p \<Rightarrow> is_path rows p us)"

definition dn_of :: "jsstr \<Rightarrow> OrganizationalUnit list \<Rightarrow> jsstr" where
  "dn_of root path = foldr ou_dn path root"

text \<open>Reading the first component of a name: up to a comma that is not escaped.\<close>

fun read_value :: "jsstr \<Rightarrow> (jsstr \<times> jsstr) option" where
  "read_value [] = None"
| "read_value [c] = (if c = 0x2C then Some ([], []) else None)"
| "read_value (c # d # cs) =
     (if c = backslash then map_option (\<lambda>(v, rest). (d # v, rest)) (read_value cs)
      else if c = 0x2C then Some ([], d # cs)
      else map_option (\<lambda>(v, rest). (c # v, rest)) (read_value (d # cs)))"

definition read_rdn :: "jsstr \<Rightarrow> (jsstr \<times> jsstr) option" where
  "read_rdn dn = (if take 3 dn = lit ''OU='' then read_value (drop 3 dn) else None)"

section \<open>Escaping\<close>

lemma read_value_plain:
  "c \<noteq> backslash \<Longrightarrow> c \<noteq> 0x2C \<Longrightarrow> xs \<noteq> [] \<Longrightarrow>
    read_value (c # xs) = map_option (\<lambda>(v, rest). (c # v, rest)) (read_value xs)"
  by (cases xs) auto

lemma read_value_escape: "read_value (escape_from b v @ 0x2C # rest) = Some (v, rest)"
proof (induction v arbitrary: b)
  case Nil
  then show ?case
    by (cases rest) (simp_all add: backslash_def)
next
  case (Cons c cs)
  have special: "dn_special 0x2C" "dn_special backslash"
    by (simp_all add: dn_special_def lit_def)
  show ?case
  proof (cases "b \<and> (c = 0x20 \<or> c = 0x23) \<or> cs = [] \<and> c = 0x20 \<or> dn_special c")
    case True
    then have "escape_from b (c # cs) = backslash # c # escape_from False cs"
      by simp
    with Cons show ?thesis
      by simp
  next
    case False
    then have "escape_from b (c # cs) = c # escape_from False cs" "c \<noteq> backslash" "c \<noteq> 0x2C"
      using special by auto
    with Cons show ?thesis
      by (simp add: read_value_plain)
  qed
qed

lemma read_rdn_dn: "read_rdn (dn_of root (ou # us)) = Some (ou_name ou, dn_of root us)"
  using read_value_escape [of True "ou_name ou" "dn_of root us"]
  by (simp add: read_rdn_def dn_of_def ou_dn_def escape_ldap_dn_value_def lit_def)

section \<open>Paths\<close>

lemma path_unique: "is_path rows i p \<Longrightarrow> is_path rows i q \<Longrightarrow> p = q"
proof (induction p arbitrary: i q)
  case (Cons ou us)
  then show ?case
    by (cases q) (auto split: option.splits)
qed simp

lemma path_suffix: "is_path rows i (us @ ou # vs) \<Longrightarrow> is_path rows (ou_id ou) (ou # vs)"
  by (induction us arbitrary: i) (auto dest: find_ou_Some split: option.splits)

lemma path_head_once:
  assumes "is_path rows i (ou # us)"
  shows "i \<notin> ou_id ` set us"
proof
  assume "i \<in> ou_id ` set us"
  then obtain u where "u \<in> set us" "ou_id u = i"
    by auto
  then obtain xs ys where us: "us = xs @ u # ys"
    by (auto dest: split_list)
  then have "is_path rows i (u # ys)"
    using path_suffix [of rows i "ou # xs" u ys] assms \<open>ou_id u = i\<close> by simp
  from path_unique [OF assms this] us have "length us = length ys"
    by simp
  then show False
    using us by simp
qed

lemma self_parent_no_path:
  assumes "find_ou rows i = Some ou" "ou_parent_id ou = Some i"
  shows "\<not> is_path rows i path"
proof
  assume p: "is_path rows i path"
  then obtain us where "path = ou # us"
    using assms(1) by (cases path) auto
  with p assms have "is_path rows i us"
    by simp
  from path_unique [OF p this] show False
    using \<open>path = ou # us\<close> by simp
qed

section \<open>Correctness of the names\<close>

definition dns_sound :: "jsstr \<Rightarrow> OrganizationalUnit list \<Rightarrow> dns \<Rightarrow> bool" where
  "dns_sound root rows dns \<longleftrightarrow> (\<forall>i d. dns i = Some d \<longrightarrow> (\<exists>path. is_path rows i path \<and> d = dn_of root path))"

lemma insert_dns_append:
  "insert_dns root (xs @ ys) dns =
     (case insert_dns root xs dns of Inl e \<Rightarrow> Inl e | Inr dns \<Rightarrow> insert_dns root ys dns)"
  by (induction xs arbitrary: dns) (auto split: option.splits)

lemma dns_sound_upd:
  assumes "dns_sound root rows dns" "find_ou rows i = Some ou"
    and "case ou_parent_id ou of None \<Rightarrow> pd = root | Some p \<Rightarrow> dns p = Some pd"
  shows "dns_sound root rows (dns(i \<mapsto> ou_dn ou pd))"
proof -
  have "\<exists>path. is_path rows i path \<and> ou_dn ou pd = dn_of root path"
  proof (cases "ou_parent_id ou")
    case None
    with assms show ?thesis
      by (intro exI [of _ "[ou]"]) (simp add: dn_of_def)
  next
    case (Some p)
    with assms obtain path where "is_path rows p path" "pd = dn_of root path"
      by (auto simp: dns_sound_def)
    with Some assms(2) show ?thesis
      by (intro exI [of _ "ou # path"]) (simp add: dn_of_def)
  qed
  with assms(1) show ?thesis
    by (simp add: dns_sound_def)
qed

lemma chain_inserted:
  assumes "ou_chain rows dns visited i = Inr chain" "dns_sound root rows dns"
  shows "\<exists>dns'. insert_dns root (rev chain) dns = Inr dns' \<and> dns_sound root rows dns' \<and>
    dns' i \<noteq> None \<and> dns \<subseteq>\<^sub>m dns'"
  using assms
proof (induction rows dns visited i arbitrary: chain rule: ou_chain.induct)
  case (1 rows dns visited i)
  show ?case
  proof (cases "dns i")
    case (Some d)
    with 1 show ?thesis
      by (simp add: ou_chain.simps [of _ _ _ i])
  next
    case None
    with 1(2) obtain ou where v: "i \<notin> set visited" and ou: "find_ou rows i = Some ou"
      by (auto simp: ou_chain.simps [of _ _ _ i] split: if_splits option.splits)
    have i: "ou_id ou = i"
      using find_ou_Some [OF ou] by simp
    show ?thesis
    proof (cases "ou_parent_id ou")
      case p: None
      then have "chain = [ou]"
        using 1(2) None v ou by (simp add: ou_chain.simps [of _ _ _ i])
      moreover have "dns_sound root rows (dns(i \<mapsto> ou_dn ou root))"
        using dns_sound_upd [OF 1(3) ou, of root] p by simp
      ultimately show ?thesis
        using p i None by (auto simp: map_le_def)
    next
      case p: (Some p)
      then obtain us where us: "ou_chain rows dns (i # visited) p = Inr us" "chain = ou # us"
        using 1(2) None v ou by (auto simp: ou_chain.simps [of _ _ _ i] split: sum.splits)
      obtain dns' pd where dns': "insert_dns root (rev us) dns = Inr dns'" "dns_sound root rows dns'"
        "dns' p = Some pd" "dns \<subseteq>\<^sub>m dns'"
        using 1(1) [OF _ v ou p us(1) 1(3)] None by auto
      have "dns_sound root rows (dns'(i \<mapsto> ou_dn ou pd))"
        using dns_sound_upd [OF dns'(2) ou, of pd] p dns'(3) by simp
      moreover have "dns \<subseteq>\<^sub>m dns'(i \<mapsto> ou_dn ou pd)"
        using dns'(4) None by (auto simp: map_le_def)
      ultimately show ?thesis
        using us(2) dns'(1,3) p i by (simp add: insert_dns_append)
    qed
  qed
qed

lemma chain_found:
  assumes "is_path rows i path" "set visited \<inter> ou_id ` set path = {}"
  shows "\<exists>chain. ou_chain rows dns visited i = Inr chain"
  using assms
proof (induction path arbitrary: i visited)
  case (Cons ou us)
  then have ou: "find_ou rows i = Some ou" and i: "ou_id ou = i"
    using find_ou_Some by fastforce+
  have v: "i \<notin> set visited"
    using Cons.prems(2) i by auto
  show ?case
  proof (cases "ou_parent_id ou")
    case None
    with ou v show ?thesis
      by (simp add: ou_chain.simps [of _ _ _ i])
  next
    case (Some p)
    with Cons.prems(1) have p: "is_path rows p us"
      by simp
    have "set (i # visited) \<inter> ou_id ` set us = {}"
      using path_head_once [OF Cons.prems(1)] Cons.prems(2) by auto
    with Cons.IH [OF p] obtain chain where "ou_chain rows dns (i # visited) p = Inr chain"
      by blast
    with Some ou v show ?thesis
      by (auto simp: ou_chain.simps [of _ _ _ i])
  qed
qed simp

lemma dns_for_units_correct:
  assumes "dns_sound root rows dns"
  shows "case dns_for_units root rows ids dns of
      Inl e \<Rightarrow> \<exists>i \<in> set ids. \<forall>path. \<not> is_path rows i path
    | Inr dns' \<Rightarrow> dns_sound root rows dns' \<and> dns \<subseteq>\<^sub>m dns' \<and> set ids \<subseteq> dom dns'"
  using assms
proof (induction ids arbitrary: dns)
  case (Cons i ids)
  show ?case
  proof (cases "ou_chain rows dns [] i")
    case (Inl e)
    then have "\<forall>path. \<not> is_path rows i path"
      using chain_found [of rows i _ "[]" dns] by fastforce
    with Inl show ?thesis
      by simp
  next
    case (Inr chain)
    from chain_inserted [OF Inr Cons.prems] obtain dns1 where dns1: "insert_dns root (rev chain) dns = Inr dns1"
      "dns_sound root rows dns1" "dns1 i \<noteq> None" "dns \<subseteq>\<^sub>m dns1"
      by blast
    from Cons.IH [OF dns1(2)] Inr dns1 show ?thesis
      by (auto simp: map_le_def dom_def split: sum.splits)
  qed
qed simp

section \<open>Properties\<close>

lemma batch_names:
  "case organizational_unit_dns_for_batch root rows ids of
     Inl e \<Rightarrow> \<exists>i \<in> set ids. \<forall>path. \<not> is_path rows i path
   | Inr dns \<Rightarrow> \<forall>i \<in> set ids. \<exists>path. is_path rows i path \<and> dns i = Some (dn_of root path)"
  using dns_for_units_correct [of root rows Map.empty ids]
  by (fastforce simp: organizational_unit_dns_for_batch_def dns_sound_def split: sum.splits)

text \<open>
  C16: the names of a batch are right, and there are names exactly when there can be: the computation
  always ends; it fails only if some unit of the batch has a missing ancestor or lies on or below a
  cycle, and otherwise gives every unit the name made of its own and all its ancestors' names below the
  root of the domain. From such a name the name of the unit can be read back, whatever characters it
  has, with the name of its parent as the rest.
\<close>

theorem batch_names_correct:
  "(case organizational_unit_dns_for_batch root rows ids of
      Inl e \<Rightarrow> \<exists>i \<in> set ids. \<forall>path. \<not> is_path rows i path
    | Inr dns \<Rightarrow> \<forall>i \<in> set ids. \<exists>path. is_path rows i path \<and> dns i = Some (dn_of root path)) \<and>
   read_rdn (dn_of root (ou # us)) = Some (ou_name ou, dn_of root us)"
  by (rule conjI [OF batch_names read_rdn_dn])

theorem batch_names_correct_witness:
  "\<exists>dns. organizational_unit_dns_for_batch (lit ''DC=x'') [ou0] [lit ''o''] = Inr dns \<and>
     dns (lit ''o'') = Some (lit ''OU=n,DC=x'')"
proof -
  have f: "find_ou [ou0] (lit ''o'') = Some ou0" "ou_parent_id ou0 = None"
    by (simp_all add: find_ou_def ou0_def)
  then obtain dns where dns: "organizational_unit_dns_for_batch (lit ''DC=x'') [ou0] [lit ''o''] = Inr dns"
    by (simp add: organizational_unit_dns_for_batch_def ou_chain.simps)
  with batch_names_correct [where root = "lit ''DC=x''" and rows = "[ou0]" and ids = "[lit ''o'']"] obtain path where
    "is_path [ou0] (lit ''o'') path" "dns (lit ''o'') = Some (dn_of (lit ''DC=x'') path)"
    by auto
  moreover from this(1) have "path = [ou0]"
    using f by (cases path) auto
  ultimately show ?thesis
    using dns by (simp add: dn_of_def ou_dn_def escape_ldap_dn_value_def ou0_def dn_special_def lit_def
        backslash_def)
qed

lemma upsert_ou_found:
  "find_ou (upsert_ou r ou rows) (ou_id ou) = Some (ou\<lparr>ou_changed_revision := r\<rparr>)"
  unfolding find_ou_def upsert_ou_def by (rule find_snoc) auto

lemma read_ou_payload: "read_ou_patch (JObj (ou_payload f)) = Some (of_name f, nullable (of_parent_id f))"
  by (cases "nullable (of_parent_id f)")
    (simp_all add: read_ou_patch_def ou_payload_def serde_eval json_opt_def)

lemma update_ou_console:
  "update_organizational_unit None r i (JObj (ou_payload f)) rows =
     (let ou = \<lparr>ou_id = i, ou_name = of_name f, ou_parent_id = nullable (of_parent_id f), ou_changed_revision = r\<rparr>
      in Inr (ou, upsert_ou r ou rows))"
  using upsert_ou_found [of r "\<lparr>ou_id = i, ou_name = of_name f, ou_parent_id = nullable (of_parent_id f),
      ou_changed_revision = 0\<rparr>" rows]
  by (simp add: update_organizational_unit_def read_ou_payload write_organizational_unit_def upsert_ou_def Let_def)

text \<open>
  C38: an organizational unit without parent that is opened in the editor while some unit is selected
  shows that unit as its parent; saved as it was opened, it is moved below the selected unit, and
  the core stores it so. The selected unit can be the unit itself: then no batch that involves the
  unit, also because of its users and groups, can be computed any more.
\<close>

theorem editing_root_ou_moves_it:
  assumes "admin_tokenReady s" and "ouForNode k s = Some ou" and "ou_parent_id ou = None"
    and "dir_selectedOuId s = Some x" and "nullable x = Some x"
    and "ou_id ou \<noteq> []" and "encodeURIComponent (ou_id ou) = Some e"
  shows "\<exists>rq body ou' rows'. pool_waits (call saveOu (editOuNode k s, [])) = [Fetch rq] \<and> rq_method rq = PATCH \<and>
    rq_path rq = lit ''/api/admin/ous/'' @ e \<and> rq_body rq = Some body \<and>
    update_organizational_unit None r (ou_id ou) body rows = Inr (ou', rows') \<and>
    ou_name ou' = ou_name ou \<and> ou_parent_id ou' = Some x \<and>
    (x = ou_id ou \<and> x \<in> set ids \<longrightarrow> (\<exists>err. organizational_unit_dns_for_batch root rows' ids = Inl err))"
proof -
  let ?f = "dir_ouForm (editOuNode k s)"
  let ?ou = "\<lparr>ou_id = ou_id ou, ou_name = ou_name ou, ou_parent_id = Some x, ou_changed_revision = r\<rparr>"
  have f: "of_name ?f = ou_name ou" "nullable (of_parent_id ?f) = Some x"
    using assms(2-5) by (simp_all add: editOuNode_def openOuEditor_def orEmpty_def nullish_def)
  have "\<exists>rq. pool_waits (call saveOu (editOuNode k s, [])) = [Fetch rq] \<and> rq_method rq = PATCH \<and>
      rq_path rq = lit ''/api/admin/ous/'' @ e \<and> rq_body rq = Some (JObj (ou_payload ?f))"
    using assms by (simp add: js_eval exec_defs Let_def editOuNode_def openOuEditor_def)
  moreover have "update_organizational_unit None r (ou_id ou) (JObj (ou_payload ?f)) rows =
      Inr (?ou, upsert_ou r ?ou rows)"
    using f by (simp add: update_ou_console Let_def)
  moreover have "\<exists>err. organizational_unit_dns_for_batch root (upsert_ou r ?ou rows) ids = Inl err"
    if "x = ou_id ou" "x \<in> set ids"
    using batch_names [where root = root and rows = "upsert_ou r ?ou rows" and ids = ids] that
      self_parent_no_path [of "upsert_ou r ?ou rows" x ?ou] upsert_ou_found [of r ?ou rows]
    by (auto split: sum.splits)
  ultimately show ?thesis
    by fastforce
qed

theorem editing_root_ou_moves_it_witness:
  "\<exists>rq body ou' rows' err. pool_waits (call saveOu (editOuNode (lit ''o'') directory_page0, [])) = [Fetch rq] \<and>
     rq_body rq = Some body \<and> update_organizational_unit None 7 (lit ''o'') body [ou0] = Inr (ou', rows') \<and>
     ou_parent_id ou' = Some (lit ''o'') \<and> organizational_unit_dns_for_batch [] rows' [lit ''o''] = Inl err"
proof -
  have "admin_tokenReady directory_page0" "ouForNode (lit ''o'') directory_page0 = Some ou0"
    "ou_parent_id ou0 = None" "dir_selectedOuId directory_page0 = Some (lit ''o'')"
    "ou_id ou0 \<noteq> []" "encodeURIComponent (ou_id ou0) = Some (lit ''o'')" and i: "ou_id ou0 = lit ''o''"
    by (simp_all add: directory_page0_eval admin_tokenReady_def ou0_def encode_examples ouForNode_def)
  moreover have "nullable (lit ''o'') = Some (lit ''o'')"
    by (simp add: nullable_def trim_eval)
  ultimately show ?thesis
    using editing_root_ou_moves_it [where s = directory_page0 and k = "lit ''o''" and ou = ou0 and x = "lit ''o''" and
        e = "lit ''o''" and rows = "[ou0]" and ids = "[lit ''o'']" and root = "[]" and r = 7] by fastforce
qed

end
