(* ===== verification/Spec2Isabelle.thy ===== *)
theory Spec2Isabelle
  imports Forms Ou_Tree Oidc_Utils Json_Text Tables Editors User_Pages Authorize_Page Domains_Page Clients_Page
    Directory_Page Core_Requests Core_Directory
begin

text \<open>
  Adscope Identity, the portal's web application (\<open>src/portal/web/app\<close>, TypeScript and Vue).

  \<^bold>\<open>The program.\<close> The portal is a single-page application in front of the identity core. An ordinary
  user signs in (\<open>pages/login.vue\<close>), edits contact data and password (\<open>pages/me.vue\<close>) and consents
  to OpenID Connect requests (\<open>pages/authorize.vue\<close>); these pages share the session of
  \<open>composables/useUserApi.ts\<close>. An administrator maintains the directory, the domains and the OAuth
  clients (\<open>pages/admin\<close>) inside a shell (\<open>components/admin/AdminShell.vue\<close>) over the session and
  the data of \<open>composables/useAdminApi.ts\<close>. Pure helpers are in \<open>utils\<close>, the types in \<open>types\<close>.

  \<^bold>\<open>How it is modelled.\<close> Handlers are \<open>async\<close> functions that suspend on requests, bodies, dialogues,
  the router and the clipboard. They are programs of the type \<open>async\<close> (theory \<open>Async\<close>) over the
  reactive state, which is one record per page that extends the record of its session. The code
  between two suspensions is atomic; \<open>reachable\<close> closes a page under all events of its template
  (the \<open>_calls\<close> relations) and all orders of answers, and \<open>Promise.all\<close> leaves the siblings of a
  rejected child running. The server and the browser are the environment: every query may get any
  answer of its kind.

  \<^item> \<open>Prelude\<close>: strings of 16-bit code units, collections of rules, lists.
  \<^item> \<open>Js_String\<close>: \<open>trim\<close>, \<open>split\<close>, \<open>join\<close>, \<open>encodeURIComponent\<close> with its inverse.
  \<^item> \<open>Json_Text\<close>: \<open>JSON.stringify\<close>, with a reader of JSON texts as its specification.
  \<^item> \<open>Async\<close>: programs, \<open>start\<close>, \<open>deliver\<close>, \<open>reachable\<close>; the calculus \<open>obeys\<close> of obligations with its
    locales (counting requests, flags, exclusive work, invariants) and the total-correctness
    predicate \<open>ensures\<close>, whose bound is the number of answers a call needs at most.
  \<^item> \<open>Portal_Types\<close> (\<open>types\<close>), \<open>Forms\<close> (\<open>utils/forms.ts\<close>), \<open>Ou_Tree\<close> (\<open>utils/directory.ts\<close>),
    \<open>Oidc_Utils\<close> (\<open>utils/oidc.ts\<close>), \<open>Wire\<close> (requests, responses, queries, messages).
  \<^item> \<open>User_Api\<close> (\<open>useUserApi.ts\<close>) and \<open>Admin_Api\<close> (\<open>useAdminApi.ts\<close>): every function of the two
    composables, with the locales \<open>user_frame\<close> and \<open>admin_frame\<close> that carry a promise of a page
    over the functions of its session.
  \<^item> \<open>Tables\<close> (\<open>DomainTable.vue\<close>, \<open>UserTable.vue\<close>, \<open>GroupTable.vue\<close>, \<open>OAuthClientTable.vue\<close>): columns,
    slots, buttons and events, with the contract \<open>data_table\<close> of a table towards its page.
  \<^item> \<open>Editors\<close> (\<open>OuEditor.vue\<close>, \<open>UserEditor.vue\<close>, \<open>GroupEditor.vue\<close>, \<open>DomainEditor.vue\<close>,
    \<open>OAuthClientEditor.vue\<close>, \<open>EditorForm.vue\<close>): every field with its label, control and conditions and
    the part of the form that it is bound to, with the contract \<open>form_editor\<close> (the laws of
    independent lenses), and drawers with the form that their button submits.
  \<^item> \<open>User_Pages\<close> (login, account, user shell, redirects), \<open>Authorize_Page\<close> (consent),
    \<open>Admin_Shell\<close> (with the contract \<open>admin_page\<close> of a console page), \<open>Domains_Page\<close>,
    \<open>Clients_Page\<close> and \<open>Directory_Page\<close>.
  \<^item> \<open>Core_Requests\<close>: what the identity core (\<open>core/src/routes/admin.rs\<close>, \<open>crates/store\<close>) does with
    a changed user and a new or changed domain, so that what the console promises can be compared
    with what is stored. \<open>Core_Directory\<close>: a changed unit, and the distinguished names that the core
    computes for a batch of changes (\<open>organizational_unit_dns_for_batch\<close>).

  \<^bold>\<open>What is shown.\<close> For all interleavings: the counters of pending requests agree with the requests in
  flight, loading and saving flags are reset, at most one account or domain change and at most one
  sign-in is in flight,
  the drawers of the console stay consistent, only one object is edited at a time and its
  identifier stays in the form,
  the access token in use is the stored one, a session is ready exactly when a CSRF token is held,
  only the newest load determines what the consent page shows, and the login page redirects only
  to the authorization path. For single calls: what is sent and what becomes of every answer, with a
  bound on the number of answers. For the helpers: round trips, the order and depth of the unit
  tree, and how far its two representations agree. For what is shown: tables whose columns,
  slots and fields fit together and that offer no change while they are busy, and claims whose
  texts can be read back. For the editors: every field changes its own part of the form and
  nothing else, every other form can be filled in, and what must not change cannot be changed. Across components: a consent page that
  finds nobody signed in leads through the login page back to the same authorization request, and
  what an editor shows for a blank field is what the core stores. For the core: the names of a batch
  are those of the unit tree, and exist exactly when there is no cycle or gap. Six theorems describe behaviour
  that the code does not intend:
  \<open>late_contact_update_restores_profile\<close>, \<open>late_load_survives_clearSession\<close>,
  \<open>savePassword_without_confirmation\<close>, \<open>editing_root_ou_moves_it\<close>,
  \<open>members_sent_to_other_group\<close> and \<open>saving_user_erases_telephone\<close>.

  \<^bold>\<open>Parameters.\<close> The URL parser of the browser (hypothesis \<open>search_wf\<close>: a \<open>search\<close> is empty or starts
  with a question mark; in one theorem, that it splits a path with a query as the URL standard says)
  and the two collations of \<open>localeCompare\<close> (their type \<open>comparator\<close> is that
  of consistent comparisons).

  \<^bold>\<open>Not modelled.\<close> The markup and styling of the templates, the component library \<open>@stellar/ui\<close>
  with its theme and its rendering of tables and controls, \<open>app.vue\<close> and \<open>PageHeader.vue\<close>
  (frames around slots), \<open>nuxt.config.ts\<close> (configuration), the generated bundle under
  \<open>portal/static\<close>, and of the Rust side everything but the requests above and the names: the other routes
  of the core, the database, the syncer and the server of the portal, which forwards requests.
  Time is not modelled, and the watcher of the organizational units may run at any moment. A body
  of a successful response is assumed to have its declared type, as the code assumes it: a body of
  another type is an error here, where the code would store it unchecked. There is one tab: another
  tab of the browser that changes the shared \<open>localStorage\<close> is not modelled. The numbers in claims
  are integers. The identifiers that are involved in a batch are an argument of
  \<open>organizational_unit_dns_for_batch\<close>, which does not collect them from units, users and groups itself.
\<close>

section \<open>Forms\<close>

text \<open>
  C20: the editors that show a list as one text read it back unchanged: the members of a group joined
  by a comma and a space, for ids that are non-empty, trimmed and free of commas, and the redirect
  URIs of a client, one per line, for URIs that are non-empty, trimmed and free of line breaks.
  Whatever is typed in, only such URIs are sent.
\<close>

theorem list_fields_round_trip:
  assumes "\<forall>m \<in> set (gr_member_employee_ids g). clean_item comma m"
    and "\<forall>u \<in> set (oc_redirect_uris c). clean_item 0xA u"
  shows "splitMembers (gf_member_employee_ids (dir_groupForm (openGroupEditor (Some g) s))) =
      gr_member_employee_ids g \<and>
    redirectUris (clp_editorForm (client_openEditor (Some c) s')) = oc_redirect_uris c \<and>
    (\<forall>u \<in> set (redirectUris f). clean_item 0xA u)"
proof (intro conjI ballI)
  show "splitMembers (gf_member_employee_ids (dir_groupForm (openGroupEditor (Some g) s))) =
      gr_member_employee_ids g"
    using splitMembers_join [OF assms(1)] by (simp add: openGroupEditor_def orEmpty_def)
qed (use editor_uris_kept [OF assms(2)] redirectUris_clean in blast)+

theorem list_fields_round_trip_witness:
  "splitMembers (gf_member_employee_ids (dir_groupForm
      (openGroupEditor (Some (group0 (lit ''a'') [lit ''m'', lit ''n''])) directory_page0))) = [lit ''m'', lit ''n''] \<and>
   redirectUris (clp_editorForm (client_openEditor (Some client0) clients_page0)) = [lit ''u'', lit ''v'']"
proof -
  have "\<forall>m \<in> set (gr_member_employee_ids (group0 (lit ''a'') [lit ''m'', lit ''n''])). clean_item comma m"
    "\<forall>u \<in> set (oc_redirect_uris client0). clean_item 0xA u"
    by (simp_all add: group0_def client0_def clean_item_def trimmed_def lit_def is_ws_def comma_def)
  from list_fields_round_trip [OF this, of directory_page0 clients_page0] show ?thesis
    by (simp add: group0_def client0_def)
qed

section \<open>Organizational units\<close>

text \<open>
  C7: with distinct identifiers every organizational unit occurs exactly once in the flat list, and
  its identifier exactly once in the tree, whatever the parents are: missing parents and cycles
  neither lose nor repeat a unit.
\<close>

theorem every_ou_once:
  assumes "distinct (map ou_id ous)"
  shows "mset (map ti_ou (flattenOus names ids ous)) = mset ous \<and>
    mset (map fst (tree_rows (buildOuTree names ids ous))) = mset (map ou_id ous)"
  using flattenOus_mset [OF assms] buildOuTree_keys [OF assms] by blast

definition cyclic_ous :: "OrganizationalUnit list" where
  "cyclic_ous = [ou0, ou0\<lparr>ou_id := lit ''p'', ou_parent_id := Some (lit ''q'')\<rparr>,
     ou0\<lparr>ou_id := lit ''q'', ou_parent_id := Some (lit ''p'')\<rparr>]"

theorem every_ou_once_witness:
  "mset (map ti_ou (flattenOus flat flat cyclic_ous)) = mset cyclic_ous"
proof -
  have "distinct (map ou_id cyclic_ous)"
    by (simp add: cyclic_ous_def ou0_def)
  from every_ou_once [OF this] show ?thesis
    by blast
qed

text \<open>
  C8: in the flat list an item of depth greater than zero comes after its parent, which is one level
  higher; and a unit that hangs below a root by \<open>k\<close> steps has depth \<open>k\<close>.
\<close>

theorem flat_list_depths:
  assumes "distinct (map ou_id ous)" and "rooted ous ou k"
  shows "\<lparr>ti_ou = ou, ti_depth = k\<rparr> \<in> set (flattenOus names ids ous) \<and>
    (\<forall>j < length (flattenOus names ids ous).
       ti_depth (flattenOus names ids ous ! j) = 0 \<or>
       (\<exists>it \<in> set (take j (flattenOus names ids ous)).
          Suc (ti_depth it) = ti_depth (flattenOus names ids ous ! j) \<and>
          ou_parent_id (ti_ou (flattenOus names ids ous ! j)) = Some (ou_id (ti_ou it))))"
  using rooted_depth [OF assms] flattenOus_nested [of names ids ous]
  by (simp add: nested_def parent_before_def)

theorem flat_list_depths_witness:
  "\<lparr>ti_ou = ou0, ti_depth = 0\<rparr> \<in> set (flattenOus flat flat cyclic_ous)"
proof -
  have "distinct (map ou_id cyclic_ous)" "rooted cyclic_ous ou0 0"
    by (auto simp: cyclic_ous_def ou0_def intro!: rooted.intros)
  from flat_list_depths [OF this] show ?thesis
    by blast
qed

text \<open>
  C6: how the flat list of the editors and the tree of the page agree. When every unit hangs below a
  root they are the same: the list is the preorder traversal of the tree, with names and depths.
  In general, with distinct identifiers, the list begins with exactly the units that hang below a
  root, and these are the first rows of the tree too; the tree then ends with all other units, side
  by side in the order by name and identifier (where the list may nest them).
\<close>

theorem list_is_preorder_of_tree:
  "((\<forall>ou \<in> set ous. \<exists>k. rooted ous ou k) \<longrightarrow>
      map item_row (flattenOus names ids ous) = tree_rows (buildOuTree names ids ous)) \<and>
   (distinct (map ou_id ous) \<longrightarrow>
      (\<exists>items rest. flattenOus names ids ous = items @ rest \<and>
        ti_ou ` set items = {ou \<in> set ous. \<exists>k. rooted ous ou k} \<and>
        tree_rows (buildOuTree names ids ous) = map item_row items @
          map (\<lambda>ou. (ou_id ou, ou_name ou, 0))
            (filter (\<lambda>ou. \<nexists>k. rooted ous ou k) (sortOus names ids ous))))"
  using flattenOus_preorder [of ous names ids] flattenOus_rooted_part [of ous names ids] by blast

theorem list_is_preorder_of_tree_witness:
  "map item_row (flattenOus flat flat [ou0]) = tree_rows (buildOuTree flat flat [ou0]) \<and>
   (\<exists>items rest. flattenOus flat flat cyclic_ous = items @ rest \<and>
     ti_ou ` set items = {ou \<in> set cyclic_ous. \<exists>k. rooted cyclic_ous ou k})"
proof -
  have "\<forall>ou \<in> set [ou0]. \<exists>k. rooted [ou0] ou k"
    by (auto simp: ou0_def intro!: exI [of _ 0] rooted.intros)
  note single = list_is_preorder_of_tree [THEN conjunct1, THEN mp, OF this, of flat flat]
  have "distinct (map ou_id cyclic_ous)"
    by (simp add: cyclic_ous_def ou0_def)
  from list_is_preorder_of_tree [THEN conjunct2, THEN mp, OF this, of flat flat]
  obtain items rest where "flattenOus flat flat cyclic_ous = items @ rest"
    "ti_ou ` set items = {ou \<in> set cyclic_ous. \<exists>k. rooted cyclic_ous ou k}"
    by (elim exE conjE)
  then show ?thesis
    by (intro conjI single exI [of _ items] exI [of _ rest])
qed

section \<open>Requests\<close>

text \<open>
  C4: what credentials the requests carry. \<open>adminFetch\<close>, through which the console reads and changes
  its data, sends nothing without a session; with one it sends a single request, counted as pending,
  which carries the CSRF token exactly when its method is not \<open>GET\<close>, \<open>HEAD\<close> or \<open>OPTIONS\<close>. \<open>userFetch\<close>,
  through which a user reads and changes the account, sends nothing without a token; with one it
  sends a single request to the given path, counted as pending, that carries the trimmed token as
  its bearer credential. The requests beside these two functions that begin and end a session:
  entering the console sends the trimmed management credential in the body and no CSRF token,
  leaving it sends the CSRF token and nothing without a session; a login sends the trimmed name and
  the password in the body and neither login nor logout has a bearer credential.
\<close>

theorem requests_carry_credentials:
  assumes "csrf_header \<notin> fst ` set (in_headers init)"
    and "lit ''authorization'' \<notin> fst ` set (in_headers init')"
  shows "(case call (adminFetch path init) (s, []) of (s', ms) \<Rightarrow>
    if admin_tokenReady s then
      adm_pending s' = adm_pending s + 1 \<and>
      (\<exists>rq. pool_waits (s', ms) = [Fetch rq] \<and> rq_path rq = path \<and> rq_body rq = in_body init \<and>
         map_of (rq_headers rq) csrf_header =
           (if rq_method rq \<in> {GET, HEAD, OPTIONS} then None else Some (adm_csrfToken s)))
    else s' = s \<and> pool_waits (s', ms) = []) \<and>
   (case call (userFetch path' init') (t, []) of (t', ms) \<Rightarrow>
    if user_tokenReady t then
      usr_pending t' = usr_pending t + 1 \<and>
      (\<exists>rq. pool_waits (t', ms) = [Fetch rq] \<and> rq_path rq = path' \<and> rq_body rq = in_body init' \<and>
         map_of (rq_headers rq) (lit ''authorization'') = Some (lit ''Bearer '' @ trim (usr_accessToken t)))
    else t' = t \<and> pool_waits (t', ms) = []) \<and>
   pool_waits (call (authenticateToken tok b) (s, [])) =
     (if trim tok = [] then [] else [Fetch \<lparr>rq_path = session_path, rq_method = POST,
        rq_headers = json_content, rq_body = Some (JObj [(lit ''token'', JStr (trim tok))])\<rparr>]) \<and>
   pool_waits (call admin_logout (s, [])) =
     (if adm_authenticated s then [Fetch \<lparr>rq_path = session_path, rq_method = DELETE,
        rq_headers = [(csrf_header, adm_csrfToken s)], rq_body = None\<rparr>] else []) \<and>
   pool_waits (call (login u pw) (t, [])) =
     (if trim u = [] \<or> pw = [] then [] else [Fetch \<lparr>rq_path = lit ''/api/auth/login'', rq_method = POST,
        rq_headers = json_content,
        rq_body = Some (JObj [(lit ''username'', JStr (trim u)), (lit ''password'', JStr pw)])\<rparr>]) \<and>
   pool_waits (call (user_logout b) (t, [])) =
     [Fetch \<lparr>rq_path = lit ''/api/auth/logout'', rq_method = POST, rq_headers = [], rq_body = None\<rparr>]"
proof (intro conjI)
  show "pool_waits (call (authenticateToken tok b) (s, [])) =
     (if trim tok = [] then [] else [Fetch \<lparr>rq_path = session_path, rq_method = POST,
        rq_headers = json_content, rq_body = Some (JObj [(lit ''token'', JStr (trim tok))])\<rparr>])"
    and "pool_waits (call admin_logout (s, [])) =
     (if adm_authenticated s then [Fetch \<lparr>rq_path = session_path, rq_method = DELETE,
        rq_headers = [(csrf_header, adm_csrfToken s)], rq_body = None\<rparr>] else [])"
    and "pool_waits (call (login u pw) (t, [])) =
     (if trim u = [] \<or> pw = [] then [] else [Fetch \<lparr>rq_path = lit ''/api/auth/login'', rq_method = POST,
        rq_headers = json_content,
        rq_body = Some (JObj [(lit ''username'', JStr (trim u)), (lit ''password'', JStr pw)])\<rparr>])"
    and "pool_waits (call (user_logout b) (t, [])) =
     [Fetch \<lparr>rq_path = lit ''/api/auth/logout'', rq_method = POST, rq_headers = [], rq_body = None\<rparr>]"
    by (simp_all add: js_eval exec_defs Let_def)
qed (rule adminFetch_csrf [OF assms(1)] userFetch_authorized [OF assms(2)])+

theorem requests_carry_credentials_witness:
  "(\<exists>rq. pool_waits (call (adminFetch (lit ''/x'') (init_of DELETE))
      (admin_api0\<lparr>adm_authenticated := True, adm_csrfToken := lit ''t''\<rparr>, [])) = [Fetch rq]) \<and>
   pool_waits (call (userFetch (lit ''/api/me'') init0) (user_api0, [])) = []"
  using requests_carry_credentials [where init = "init_of DELETE" and path = "lit ''/x''"
      and s = "admin_api0\<lparr>adm_authenticated := True, adm_csrfToken := lit ''t''\<rparr>"
      and init' = init0 and path' = "lit ''/api/me''" and t = user_api0
      and tok = "[]" and b = True and u = "[]" and pw = "[]"]
  by (auto simp: init_of_def init0_def admin_tokenReady_def user_api0_def user_tokenReady_def split: prod.splits)

section \<open>Addresses of objects\<close>

text \<open>
  C9: each request about one client, to update it, to delete it or to give it a new secret, goes to a
  path with a segment that stands for exactly that client: it contains no slash, question mark or
  hash and decodes to the identifier. An identifier that cannot be encoded is not sent at all.
\<close>

theorem client_requests_addressed:
  assumes "admin_tokenReady s"
  shows "case encodeURIComponent i of
      None \<Rightarrow> pool_waits (call (updateOAuthClient i u) (s, [])) = [] \<and>
        pool_waits (call (deleteOAuthClient i) (s, [])) = [] \<and>
        pool_waits (call (regenerateOAuthClientSecret i) (s, [])) = []
    | Some e \<Rightarrow>
        (\<exists>rq. pool_waits (call (updateOAuthClient i u) (s, [])) = [Fetch rq] \<and> rq_method rq = PATCH \<and>
          rq_path rq = lit ''/api/admin/oauth-clients/'' @ e \<and> rq_body rq = Some (update_request_json u)) \<and>
        (\<exists>rq. pool_waits (call (deleteOAuthClient i) (s, [])) = [Fetch rq] \<and> rq_method rq = DELETE \<and>
          rq_path rq = lit ''/api/admin/oauth-clients/'' @ e) \<and>
        (\<exists>rq. pool_waits (call (regenerateOAuthClientSecret i) (s, [])) = [Fetch rq] \<and> rq_method rq = POST \<and>
          rq_path rq = lit ''/api/admin/oauth-clients/'' @ e @ lit ''/secret'') \<and>
        slash \<notin> set e \<and> 0x3F \<notin> set e \<and> 0x23 \<notin> set e \<and> decodeURIComponent e = Some i"
proof (cases "encodeURIComponent i")
  case None
  then show ?thesis
    using assms by (simp add: js_eval exec_defs)
next
  case (Some e)
  then have "slash \<notin> set e \<and> 0x3F \<notin> set e \<and> 0x23 \<notin> set e \<and> decodeURIComponent e = Some i"
    using encode_component component_not_delimiter decode_encode by blast
  with Some assms show ?thesis
    by (simp add: js_eval exec_defs Let_def client_path_def)
qed

theorem client_requests_addressed_witness:
  "\<exists>rq. pool_waits (call (deleteOAuthClient (lit ''c'')) (clients_page0, [])) = [Fetch rq] \<and>
     rq_path rq = lit ''/api/admin/oauth-clients/'' @ lit ''c''"
proof -
  have "admin_tokenReady clients_page0"
    by (simp add: clients_page0_eval admin_tokenReady_def)
  from client_requests_addressed [OF this, of "lit ''c''"] show ?thesis
    by (auto simp add: encode_client0)
qed

section \<open>The console\<close>

text \<open>
  C5: on each page of the console, from a state at rest and under every interleaving of events and
  answers: \<open>pending\<close> lies between the number of requests that wait for a response and the number
  of those that wait for a response or a body; the session is ready exactly when a CSRF token is
  held; and when nothing runs any more, nothing is pending and no loading flag is set.
\<close>

theorem console_pages_sound:
  assumes "reachable domains_calls s1 c1" and "admin_rested s1"
    and "reachable clients_calls s2 c2" and "admin_rested s2"
    and "reachable (directory_calls names ids) s3 c3" and "admin_rested s3"
  shows "page_sound c1 \<and> page_sound c2 \<and> page_sound c3"
  using domains_page.page_is_sound [OF assms(1,2)] clients_page.page_is_sound [OF assms(3,4)]
    directory_page.page_is_sound [OF assms(5,6)] by blast

theorem console_pages_sound_witness:
  "page_sound (call refreshDomains (domains_page0, [])) \<and>
   page_sound (call refreshClients (clients_page0, [])) \<and>
   page_sound (call refreshDirectory (directory_page0, []))"
proof (rule console_pages_sound [where names = flat and ids = flat])
  have all: "(\<forall>f. P f) \<longleftrightarrow> P L_domains \<and> P L_ous \<and> P L_users \<and> P L_groups \<and> P L_sync \<and> P L_clients" for P
    by (metis load_flag.exhaust)
  show "admin_rested domains_page0" "admin_rested clients_page0" "admin_rested directory_page0"
    by (simp_all add: admin_rested_def session_wf_def all domains_page0_eval clients_page0_eval
        directory_page0_eval)
  have ready: "admin_tokenReady domains_page0" "admin_tokenReady clients_page0" "admin_tokenReady directory_page0"
    by (simp_all add: admin_tokenReady_def domains_page0_eval clients_page0_eval directory_page0_eval)
  show "reachable domains_calls domains_page0 (call refreshDomains (domains_page0, []))"
    using ready(1) by (intro reachable.intros domains_calls.intros(2)) simp
  show "reachable clients_calls clients_page0 (call refreshClients (clients_page0, []))"
    using ready(2) by (intro reachable.intros clients_calls.intros(2)) simp
  show "reachable (directory_calls flat flat) directory_page0 (call refreshDirectory (directory_page0, []))"
    using ready(3) by (intro reachable.intros directory_calls.intros(3)) simp
qed

text \<open>
  C18: on the pages of the clients and of the directory \<open>saving\<close> is reset when nothing runs any more,
  whatever saves, switches, deletions, new secrets and password resets have overlapped and however
  they ended: the drawers are never left blocked.
\<close>

theorem saving_released:
  assumes "reachable clients_calls s1 c1" and "\<not> clp_saving s1" and "idle c1"
    and "reachable (directory_calls names ids) s2 c2" and "\<not> dir_saving s2" and "idle c2"
  shows "\<not> clp_saving (fst c1) \<and> \<not> dir_saving (fst c2)"
  using clients_saving.idle_flags [OF assms(1) assms(2) assms(3)]
    directory_saving.idle_flags [OF assms(4) assms(5) assms(6)] by simp

theorem saving_released_witness:
  "\<not> clp_saving (fst (schedule [(0, Rejected NonError)] (call (toggleClient client0) (clients_page0, [])))) \<and>
   \<not> dir_saving (fst (schedule [(0, Rejected NonError)] (call saveOu
     (directory_page0\<lparr>dir_editor := Some Ed_ou\<rparr>, []))))"
proof (rule saving_released [of clients_page0 _ flat flat])
  let ?s = "directory_page0\<lparr>dir_editor := Some Ed_ou\<rparr>"
  have "clients_calls clients_page0 (toggleClient client0)"
    by (rule clients_calls.intros(5)) (simp_all add: clients_page0_eval admin_tokenReady_def clients_busy_def)
  then show "reachable clients_calls clients_page0
      (schedule [(0, Rejected NonError)] (call (toggleClient client0) (clients_page0, [])))"
    by (intro reachable_schedule reachable.intros) simp
  have "directory_calls names ids ?s saveOu" for names ids
    by (rule directory_calls.intros) (simp_all add: ouEditorOpen_def directory_page0_eval)
  then show "reachable (directory_calls flat flat) ?s
      (schedule [(0, Rejected NonError)] (call saveOu (?s, [])))"
    by (intro reachable_schedule reachable.intros) simp
  show "\<not> clp_saving clients_page0" "\<not> dir_saving ?s"
    by (simp_all add: clients_page0_eval directory_page0_eval)
  show "idle (schedule [(0, Rejected NonError)] (call (toggleClient client0) (clients_page0, [])))"
    by (simp add: js_eval exec_defs clients_page0_eval client0_def encode_client0 Let_def idle_def)
  show "idle (schedule [(0, Rejected NonError)] (call saveOu (?s, [])))"
    by (simp add: js_eval exec_defs directory_page0_eval Let_def idle_def)
qed

text \<open>
  C19: the drawers stay consistent under every interleaving of events and answers. On the page of the
  clients the view of the secret always has a secret to show, so that title, contents and buttons
  of the drawer agree and the form can be saved exactly when it is shown, and the form of a new
  client always asks for the scope \<open>openid\<close>. On the page of the directory at most one unit, user or
  group is being edited, only in the editor of its own kind, and whatever has been typed in, the
  form has the identifier of the edited object.
\<close>

theorem drawers_consistent:
  assumes "reachable clients_calls s1 c1" and "client_drawer_wf s1"
    and "reachable (directory_calls names ids) s2 c2" and "editing_wf s2"
  shows "(clp_drawerView (fst c1) = View_secret \<longleftrightarrow> secret_shown (fst c1)) \<and>
    (drawer_has_form (clientDrawer (fst c1)) (page_clientEditor (fst c1)) \<longleftrightarrow>
       clp_drawerOpen (fst c1) \<and> \<not> secret_shown (fst c1)) \<and>
    (clp_selectedClientId (fst c1) = None \<longrightarrow>
       Openid \<in> set (cr_allowed_scopes (create_request_of (clp_editorForm (fst c1))))) \<and>
    length (filter (\<lambda>x. x \<noteq> None)
      [dir_editingOuId (fst c2), dir_editingUserId (fst c2), dir_editingGroupId (fst c2)]) \<le> 1 \<and>
    (ouEditorOpen (fst c2) \<longrightarrow> dir_editingUserId (fst c2) = None \<and> dir_editingGroupId (fst c2) = None) \<and>
    (userEditorOpen (fst c2) \<longrightarrow> dir_editingOuId (fst c2) = None \<and> dir_editingGroupId (fst c2) = None) \<and>
    (groupEditorOpen (fst c2) \<longrightarrow> dir_editingOuId (fst c2) = None \<and> dir_editingUserId (fst c2) = None) \<and>
    (truthy (dir_editingOuId (fst c2)) \<longrightarrow> Some (of_id (dir_ouForm (fst c2))) = dir_editingOuId (fst c2)) \<and>
    (truthy (dir_editingUserId (fst c2)) \<longrightarrow>
       Some (uf_employee_id (dir_userForm (fst c2))) = dir_editingUserId (fst c2)) \<and>
    (truthy (dir_editingGroupId (fst c2)) \<longrightarrow> Some (gf_id (dir_groupForm (fst c2))) = dir_editingGroupId (fst c2))"
proof (intro conjI)
  have wf: "client_drawer_wf (fst c1)"
    by (rule clients_drawer.reachable_invariant [OF assms(1,2)])
  then show "drawer_has_form (clientDrawer (fst c1)) (page_clientEditor (fst c1)) \<longleftrightarrow>
      clp_drawerOpen (fst c1) \<and> \<not> secret_shown (fst c1)"
    by (rule client_form_submitted)
  from wf show "clp_drawerView (fst c1) = View_secret \<longleftrightarrow> secret_shown (fst c1)"
    and "clp_selectedClientId (fst c1) = None \<longrightarrow>
      Openid \<in> set (cr_allowed_scopes (create_request_of (clp_editorForm (fst c1))))"
    by (auto simp: client_drawer_wf_def secret_shown_def create_request_of_def)
qed (use editing_wfD [OF directory_editing.reachable_invariant [OF assms(3,4)]] in blast)+

theorem drawers_consistent_witness:
  "let c = call (modify (openGroupEditor (Some (group0 (lit ''a'') [lit ''m'']))) :: (directory_page, unit) prog)
       (directory_page0, []) in
     groupEditorOpen (fst c) \<and> dir_editingOuId (fst c) = None \<and> dir_editingUserId (fst c) = None"
proof -
  let ?g = "group0 (lit ''a'') [lit ''m'']"
  let ?c = "call (modify (openGroupEditor (Some ?g)) :: (directory_page, unit) prog) (directory_page0, [])"
  have clients: "reachable clients_calls clients_page0 (call refreshClients (clients_page0, []))"
    by (intro reachable.intros clients_calls.intros(2)) (simp add: admin_tokenReady_def clients_page0_eval)
  have wf: "client_drawer_wf clients_page0" "editing_wf directory_page0"
    by (simp_all add: client_drawer_wf_def editing_wf_def clients_page0_eval directory_page0_eval
        blankEditorForm_def truthy_def)
  have "directory_calls flat flat directory_page0 (modify (openGroupEditor (Some ?g)))"
    by (intro directory_calls.intros(2) directory_updates.intros(7))
      (auto simp: groups_shown_def selectedGroups_def selectedOu_def ou0_def group0_def truthy_def
        directory_page0_eval admin_tokenReady_def)
  then have directory: "reachable (directory_calls flat flat) directory_page0 ?c"
    by (intro reachable.intros) simp
  have "groupEditorOpen (fst ?c)"
    by (simp add: js_eval exec_defs groupEditorOpen_def openGroupEditor_def)
  with drawers_consistent [OF clients wf(1) directory wf(2)] show ?thesis
    unfolding Let_def by blast
qed

text \<open>
  C21: nothing is deleted unasked. Removing a client, a user or a unit first asks for confirmation and
  changes nothing until it is answered; a refusal ends the call without any request, and a consent
  sends exactly one \<open>DELETE\<close> to the encoded identifier of that object, with \<open>saving\<close> set. A unit
  with children, users or groups is refused at once with a warning.
\<close>

theorem deletions_confirmed:
  assumes "admin_tokenReady s1" and "encodeURIComponent (oc_client_id c) = Some e1"
    and "admin_tokenReady s2" and "encodeURIComponent (ur_employee_id u) = Some e2"
    and "encodeURIComponent (ou_id ou) = Some e3"
  shows "(\<exists>m. call (removeClient c) (s1, []) = (s1, [m]) \<and> waits m = [Confirm] \<and>
      (case answer 0 (Confirmed b) (s1, [m]) of (s', ms) \<Rightarrow>
         if b then clp_saving s' \<and>
           (\<exists>rq. pool_waits (s', ms) = [Fetch rq] \<and> rq_method rq = DELETE \<and> rq_path rq = client_path e1)
         else s' = s1 \<and> idle (s', ms))) \<and>
    (\<exists>m. call (removeUser u) (s2, []) = (s2, [m]) \<and> waits m = [Confirm] \<and>
      (case answer 0 (Confirmed b) (s2, [m]) of (s', ms) \<Rightarrow>
         if b then dir_saving s' \<and>
           (\<exists>rq. pool_waits (s', ms) = [Fetch rq] \<and> rq_method rq = DELETE \<and>
              rq_path rq = lit ''/api/admin/users/'' @ e2)
         else s' = s2 \<and> idle (s', ms))) \<and>
    (if ou_in_use ou s2
     then \<exists>m. call (removeOu ou) (s2, []) = (admin_notify (Warning M_ou_not_empty) s2, [m]) \<and> finished m
     else \<exists>m. call (removeOu ou) (s2, []) = (s2, [m]) \<and> waits m = [Confirm] \<and>
       (case answer 0 (Confirmed b) (s2, [m]) of (s', ms) \<Rightarrow>
          if b then dir_saving s' \<and>
            (\<exists>rq. pool_waits (s', ms) = [Fetch rq] \<and> rq_method rq = DELETE \<and>
               rq_path rq = lit ''/api/admin/ous/'' @ e3)
          else s' = s2 \<and> idle (s', ms)))"
  by (intro conjI removeClient_confirmed removeUser_confirmed removeOu_confirmed assms)

theorem deletions_confirmed_witness:
  "(\<exists>m. call (removeClient client0) (clients_page0, []) = (clients_page0, [m]) \<and> waits m = [Confirm]) \<and>
   (\<exists>m. call (removeOu ou0) (directory_page0, []) =
      (admin_notify (Warning M_ou_not_empty) directory_page0, [m]) \<and> finished m)"
proof -
  let ?u = "\<lparr>ur_employee_id = lit ''a'', ur_username = [], ur_display_name = [], ur_surname = [],
      ur_given_name = [], ur_email = None, ur_mobile = None, ur_telephone = None,
      ur_organizational_unit_id = [], ur_status = Active\<rparr>"
  have "admin_tokenReady clients_page0" "encodeURIComponent (oc_client_id client0) = Some (lit ''c'')"
    "admin_tokenReady directory_page0" "encodeURIComponent (ur_employee_id ?u) = Some (lit ''a'')"
    "encodeURIComponent (ou_id ou0) = Some (lit ''o'')" "ou_in_use ou0 directory_page0"
    by (simp_all add: clients_page0_eval directory_page0_eval admin_tokenReady_def client0_def ou0_def
        encode_client0 encode_examples ou_in_use_def group0_def)
  with deletions_confirmed [OF this(1-5)] show ?thesis
    by auto
qed

section \<open>One change at a time\<close>

text \<open>
  C10: on the account page and on the page of the domains at most one change, of the contact data or
  the password or of a domain, is in flight at any time, and then \<open>saving\<close> is set; when nothing runs
  any more \<open>saving\<close> is reset. So a form that is submitted again before its answer has come is sent
  once.
\<close>

theorem one_change_at_a_time:
  assumes "reachable me_calls s1 c1" and "\<not> me_saving s1"
    and "reachable domains_calls s2 c2" and "\<not> dmp_saving s2"
  shows "length (filter account_query (pool_waits c1)) \<le> (if me_saving (fst c1) then 1 else 0) \<and>
    (idle c1 \<longrightarrow> \<not> me_saving (fst c1)) \<and>
    length (filter change_query (pool_waits c2)) \<le> (if dmp_saving (fst c2) then 1 else 0) \<and>
    (idle c2 \<longrightarrow> \<not> dmp_saving (fst c2))"
  using me_saves.reachable_exclusive [OF assms(1,2)] me_saves.idle_not_busy [OF assms(1,2)]
    domains_saves.reachable_exclusive [OF assms(3,4)] domains_saves.idle_not_busy [OF assms(3,4)] by auto

theorem one_change_at_a_time_witness:
  "length (filter account_query (pool_waits (call saveContact (call saveContact (me_page0, []))))) \<le> 1 \<and>
   length (filter change_query (pool_waits (call saveDomain (call saveDomain (domains_page0, []))))) \<le> 1"
proof -
  have "me_contactOpen (fst (call saveContact (me_page0, []))) \<and> \<not> me_saving me_page0 \<and> me_contactOpen me_page0"
    by (simp add: js_eval exec_defs Let_def me_page0_def me_page.defs user_api.defs user_api0_def trim_eval)
  then have m: "reachable me_calls me_page0 (call saveContact (call saveContact (me_page0, [])))"
    "\<not> me_saving me_page0"
    by (auto intro!: reachable.intros me_calls.intros)
  have "dmp_drawerOpen (fst (call saveDomain (domains_page0, []))) \<and>
      \<not> truthy (dmp_syncerKey (fst (call saveDomain (domains_page0, [])))) \<and>
      admin_tokenReady (fst (call saveDomain (domains_page0, [])))"
    by (simp add: js_eval exec_defs Let_def domains_page0_eval)
  moreover have "\<not> dmp_saving domains_page0 \<and> dmp_drawerOpen domains_page0 \<and>
      \<not> truthy (dmp_syncerKey domains_page0) \<and> admin_tokenReady domains_page0"
    by (simp add: domains_page0_eval truthy_def admin_tokenReady_def)
  ultimately have d: "reachable domains_calls domains_page0 (call saveDomain (call saveDomain (domains_page0, [])))"
    "\<not> dmp_saving domains_page0"
    by (auto intro!: reachable.intros domains_calls.intros(7))
  from one_change_at_a_time [OF m d] show ?thesis
    by (auto split: if_splits)
qed

section \<open>Signing in\<close>

text \<open>
  C11: nobody signs in twice at once. On the login page at most one login request is in flight, and on
  every page of the console at most one request that hands in the management credential, under
  every interleaving: the disabled buttons are enough to keep a second one from being sent.
\<close>

theorem one_sign_in:
  assumes "reachable (login_calls parse) s0 c0" and "usr_pending s0 = 0"
    and "reachable domains_calls s1 c1" and "adm_pending s1 = 0"
    and "reachable clients_calls s2 c2" and "adm_pending s2 = 0"
    and "reachable (directory_calls names ids) s3 c3" and "adm_pending s3 = 0"
  shows "length (filter login_query (pool_waits c0)) \<le> 1 \<and>
    length (filter credential_query (pool_waits c1)) \<le> 1 \<and>
    length (filter credential_query (pool_waits c2)) \<le> 1 \<and>
    length (filter credential_query (pool_waits c3)) \<le> 1"
  using login_entry.reachable_single [OF assms(1,2)] domains_entry.reachable_single [OF assms(3,4)]
    clients_entry.reachable_single [OF assms(5,6)] directory_entry.reachable_single [OF assms(7,8)]
  by blast

theorem one_sign_in_witness:
  "length (filter login_query (pool_waits (call (submitLogin path_parser) (login_page0, [])))) \<le> 1"
proof -
  have "trim (lit ''a'') = lit ''a''"
    by (simp add: trim_eval)
  then have "\<not> login_disabled login_page0" and pending: "usr_pending login_page0 = 0"
    by (simp_all add: login_disabled_def user_loading_def login_page0_def login_page.defs user_api.defs
        user_api0_def)
  then have "reachable (login_calls path_parser) login_page0 (call (submitLogin path_parser) (login_page0, []))"
    by (intro reachable.intros login_calls.intros) simp
  moreover have "adm_pending domains_page0 = 0" "adm_pending clients_page0 = 0" "adm_pending directory_page0 = 0"
    by (simp_all add: domains_page0_eval clients_page0_eval directory_page0_eval)
  ultimately show ?thesis
    using one_sign_in [OF _ pending reach_init _ reach_init _ reach_init] by blast
qed

text \<open>
  C12: signing in resumes the authorization. When the consent page learns that nobody is signed in it
  leads to the login page with its own authorization path as \<open>continue\<close>. There a submitted form
  ends after at most five answers: a successful login clears the password and goes where \<open>continue\<close>
  allows, a failed one leaves the user signed out with the form as it was. And with the parameter of
  the consent page, for a URL parser that takes its path apart as the standard says, the target is
  exactly the authorization path that it came from, and mounting the login page does nothing.
\<close>

theorem sign_in_resumes_authorization:
  assumes "rs_status k = 401" and "\<not> login_disabled l" and "5 \<le> length rs"
  shows "pool_waits (schedule [(0, Responded k)] (call loadAuthorizationContext (s, []))) =
      [NavigateTo (lit ''/login'') [(lit ''continue'', page_authorizationPath s)]] \<and>
    (\<exists>qs l' m r. run (submitLogin parse) rs l = (qs, l', [m]) \<and> outcome m = Some r \<and>
      ((\<exists>t. signed_in t l') \<and> lgn_password l' = [] \<and> lgn_assigned l' = lgn_assigned l @ login_targets parse l \<or>
       r = Inr () \<and> signed_out l' \<and> lgn_password l' = lgn_password l \<and> lgn_assigned l' = lgn_assigned l)) \<and>
    (usr_client l \<longrightarrow> lgn_query_continue l = StringValue (page_authorizationPath s) \<longrightarrow>
     parse (page_authorizationPath s) (lgn_origin l @ lit ''/'') = Some \<lparr>url_origin = lgn_origin l,
       url_pathname = authorizationPath, url_search = azp_search s\<rparr> \<longrightarrow>
     login_targets parse l = [page_authorizationPath s] \<and>
     fst (call (login_onMounted parse) (l, [])) = l \<and> pool_waits (call (login_onMounted parse) (l, [])) = [])"
proof (intro conjI impI)
  show "pool_waits (schedule [(0, Responded k)] (call loadAuthorizationContext (s, []))) =
      [NavigateTo (lit ''/login'') [(lit ''continue'', page_authorizationPath s)]]"
    using assms(1) by (simp add: js_eval exec_defs Let_def)
  show "\<exists>qs l' m r. run (submitLogin parse) rs l = (qs, l', [m]) \<and> outcome m = Some r \<and>
      ((\<exists>t. signed_in t l') \<and> lgn_password l' = [] \<and> lgn_assigned l' = lgn_assigned l @ login_targets parse l \<or>
       r = Inr () \<and> signed_out l' \<and> lgn_password l' = lgn_password l \<and> lgn_assigned l' = lgn_assigned l)"
    by (rule ensures_outcome [OF submitLogin_ensures [OF assms(2)] assms(3)])
  assume "usr_client l" "lgn_query_continue l = StringValue (page_authorizationPath s)"
    "parse (page_authorizationPath s) (lgn_origin l @ lit ''/'') = Some \<lparr>url_origin = lgn_origin l,
       url_pathname = authorizationPath, url_search = azp_search s\<rparr>"
  then have c: "authorizationContinue parse l = Some (page_authorizationPath s)" "page_authorizationPath s \<noteq> []"
    by (auto simp: authorizationContinue_def resolve_Some_iff page_authorizationPath_def authorizationPath_def)
  then show "login_targets parse l = [page_authorizationPath s]"
    "fst (call (login_onMounted parse) (l, [])) = l" "pool_waits (call (login_onMounted parse) (l, [])) = []"
    by (simp_all add: login_targets_def js_eval exec_defs)
qed

theorem sign_in_resumes_authorization_witness:
  "pool_waits (schedule [(0, Responded \<lparr>rs_status = 401, rs_statusText = []\<rparr>)]
      (call loadAuthorizationContext (authorize_page0\<lparr>azp_search := lit ''?x''\<rparr>, []))) =
     [NavigateTo (lit ''/login'') [(lit ''continue'', lit ''/oauth2/authorize?x'')]] \<and>
   login_targets path_parser login_page0 = [lit ''/oauth2/authorize?x'']"
proof -
  let ?s = "authorize_page0\<lparr>azp_search := lit ''?x''\<rparr>"
  have p: "page_authorizationPath ?s = lit ''/oauth2/authorize?x''" "azp_search ?s = lit ''?x''"
    by (simp_all add: page_authorizationPath_def lit_append [symmetric] del: lit_append)
  have "trim (lit ''a'') = lit ''a''"
    by (simp add: trim_eval)
  then have l: "\<not> login_disabled login_page0" "usr_client login_page0" "lgn_origin login_page0 = lit ''o''"
    "lgn_query_continue login_page0 = StringValue (lit ''/oauth2/authorize?x'')"
    by (simp_all add: login_disabled_def user_loading_def login_page0_def login_page.defs user_api.defs
        user_api0_def)
  have "path_parser (lit ''/oauth2/authorize?x'') (lit ''o'' @ lit ''/'') =
      Some \<lparr>url_origin = lit ''o'', url_pathname = authorizationPath, url_search = lit ''?x''\<rparr>"
    by (simp add: path_parser_def authorizationPath_def lit_def slash_def)
  with l sign_in_resumes_authorization [of "\<lparr>rs_status = 401, rs_statusText = []\<rparr>" login_page0
      "replicate 5 (Rejected NonError)" ?s path_parser] show ?thesis
    unfolding p by simp
qed

end
